(* ===== verification/Prelude.thy ===== *)
theory Prelude
  imports Main "HOL-Library.Word"
begin

text \<open>
  Shared vocabulary of the development: the machine integer types, the outcome type of
  fallible Rust code, durations, byte readers over a slice, little- and big-endian integer encodings,
  UTF-8 decoding, and the generic facts on them that the component theories rely on.
\<close>

unbundle bit_operations_syntax

section \<open>Machine types\<close>

type_synonym u8 = "8 word"
type_synonym u16 = "16 word"
type_synonym u32 = "32 word"
type_synonym u64 = "64 word"
type_synonym i32 = "32 word"
type_synonym i64 = "64 word"
type_synonym bytes = "u8 list"

named_theorems codec_simps \<open>evaluation of readers and writers\<close>
named_theorems panic_free \<open>operations that never panic\<close>

section \<open>Outcomes of Rust code\<close>

text \<open>
  \<open>Ok\<close> and \<open>Err\<close> are the two values of \<^verbatim>\<open>Result\<close>; \<open>Panic\<close> is a failed
  \<^verbatim>\<open>unwrap\<close>, an out-of-range slice or an \<^verbatim>\<open>unreachable!()\<close>. The operator
  \<^verbatim>\<open>?\<close> is \<open>bind_r\<close>.
\<close>

datatype ('e, 'a) rresult = Ok 'a | Err 'e | Panic

fun bind_r :: "('e, 'a) rresult \<Rightarrow> ('a \<Rightarrow> ('e, 'b) rresult) \<Rightarrow> ('e, 'b) rresult" where
  "bind_r (Ok x) f = f x"
| "bind_r (Err e) f = Err e"
| "bind_r Panic f = Panic"

fun map_err :: "('e \<Rightarrow> 'f) \<Rightarrow> ('e, 'a) rresult \<Rightarrow> ('f, 'a) rresult" where
  "map_err h (Ok x) = Ok x"
| "map_err h (Err e) = Err (h e)"
| "map_err h Panic = Panic"

definition map_ok :: "('a \<Rightarrow> 'b) \<Rightarrow> ('e, 'a) rresult \<Rightarrow> ('e, 'b) rresult" where
  "map_ok h m = bind_r m (\<lambda>x. Ok (h x))"

definition ok_or :: "'e \<Rightarrow> 'a option \<Rightarrow> ('e, 'a) rresult" where
  "ok_or e m = (case m of Some x \<Rightarrow> Ok x | None \<Rightarrow> Err e)"

definition unwrap_r :: "('e, 'a) rresult \<Rightarrow> ('f, 'a) rresult" where
  "unwrap_r m = (case m of Ok x \<Rightarrow> Ok x | _ \<Rightarrow> Panic)"

lemma bind_r_cong [fundef_cong]:
  "m = m' \<Longrightarrow> (\<And>x. m' = Ok x \<Longrightarrow> f x = g x) \<Longrightarrow> bind_r m f = bind_r m' g"
  by (cases m') auto

lemma bind_r_Ok_iff: "bind_r m f = Ok y \<longleftrightarrow> (\<exists>x. m = Ok x \<and> f x = Ok y)"
  by (cases m) auto

lemma bind_r_Panic_iff: "bind_r m f = Panic \<longleftrightarrow> m = Panic \<or> (\<exists>x. m = Ok x \<and> f x = Panic)"
  by (cases m) auto

lemma bind_r_Err_iff: "bind_r m f = Err e \<longleftrightarrow> m = Err e \<or> (\<exists>x. m = Ok x \<and> f x = Err e)"
  by (cases m) auto

lemma map_ok_simps [simp]:
  "map_ok h (Ok x) = Ok (h x)" "map_ok h (Err e) = Err e" "map_ok h Panic = Panic"
  by (simp_all add: map_ok_def)

lemma map_ok_Ok_iff: "map_ok h m = Ok y \<longleftrightarrow> (\<exists>x. m = Ok x \<and> y = h x)"
  by (cases m) auto

lemma map_err_Ok_iff [simp]: "map_err h m = Ok y \<longleftrightarrow> m = Ok y"
  by (cases m) auto

lemma map_err_Panic_iff [simp]: "map_err h m = Panic \<longleftrightarrow> m = Panic"
  by (cases m) auto

lemma map_ok_Panic_iff [simp]: "map_ok h m = Panic \<longleftrightarrow> m = Panic"
  by (cases m) auto

lemma bind_r_assoc: "bind_r (bind_r m f) g = bind_r m (\<lambda>x. bind_r (f x) g)"
  by (cases m) auto

text \<open>Collecting an iterator of fallible items: the first failure ends it.\<close>

primrec mapM_r :: "('a \<Rightarrow> ('e, 'b) rresult) \<Rightarrow> 'a list \<Rightarrow> ('e, 'b list) rresult" where
  "mapM_r f [] = Ok []"
| "mapM_r f (x # xs) = bind_r (f x) (\<lambda>y. bind_r (mapM_r f xs) (\<lambda>ys. Ok (y # ys)))"

lemma mapM_r_Ok: "\<forall>x\<in>set xs. f x = Ok (g x) \<Longrightarrow> mapM_r f xs = Ok (map g xs)"
  by (induction xs) auto

lemma mapM_r_Panic: "\<forall>x\<in>set xs. f x = Ok (g x) \<or> f x = Panic \<Longrightarrow>
    \<exists>x\<in>set xs. f x = Panic \<Longrightarrow> mapM_r f xs = Panic"
  by (induction xs) (auto simp: bind_r_Panic_iff mapM_r_Ok)

section \<open>Time\<close>

text \<open>
  An \<^verbatim>\<open>Instant\<close> is a number of nanoseconds on the monotonic clock, a \<^verbatim>\<open>Duration\<close> a
  number of nanoseconds. Making a \<^verbatim>\<open>tokio\<close> interval timer panics on a zero period. Its ticks
  add the period to an instant, which panics beyond the range of the platform's clock; a period of
  \<open>2 ^ 62\<close> seconds or more is counted as beyond it.
\<close>

type_synonym instant = nat
type_synonym duration = nat

definition secs :: "nat \<Rightarrow> duration" where
  "secs n = n * 1000000000"

definition interval_panics :: "duration \<Rightarrow> bool" where
  "interval_panics period \<longleftrightarrow> period = 0 \<or> secs (2 ^ 62) \<le> period"

lemma interval_panics_secs:
  "interval_panics (secs (unat n)) \<longleftrightarrow> n = 0 \<or> 2 ^ 62 \<le> n" for n :: u64
proof -
  have "(2 ^ 62 \<le> n) = (2 ^ 62 \<le> unat n)" by (simp add: word_le_nat_alt)
  then show ?thesis by (auto simp: interval_panics_def secs_def unat_eq_zero)
qed

section \<open>Reading from a byte slice\<close>

text \<open>
  A reader over a slice (\<^verbatim>\<open>&mut &[u8]\<close>, \<^verbatim>\<open>Cursor\<close>) is the list of the
  bytes not read yet. \<^verbatim>\<open>read_exact\<close> on too few bytes fails with
  \<^verbatim>\<open>UnexpectedEof\<close>, the only failure such a reader has.
\<close>

datatype io_error = UnexpectedEof

definition read_exact :: "nat \<Rightarrow> bytes \<Rightarrow> (io_error, bytes \<times> bytes) rresult" where
  "read_exact n r = (if n \<le> length r then Ok (take n r, drop n r) else Err UnexpectedEof)"

lemma read_exact_append [codec_simps]: "length xs = n \<Longrightarrow> read_exact n (xs @ r) = Ok (xs, r)"
  by (simp add: read_exact_def)

lemma read_exact_not_Panic [panic_free]: "read_exact n r \<noteq> Panic"
  by (simp add: read_exact_def)

lemma read_exact_Ok_iff:
  "read_exact n r = Ok (xs, r') \<longleftrightarrow> r = xs @ r' \<and> length xs = n"
  by (auto simp: read_exact_def)

lemma drop_append_offset: "length xs = m \<Longrightarrow> drop (m + k) (xs @ ys) = drop k ys"
  by simp

section \<open>Integers as bytes\<close>

text \<open>
  \<open>le_bytes n w\<close> is the little-endian encoding of \<open>w\<close> in \<open>n\<close> bytes and
  \<open>of_le_bytes\<close> its inverse; big-endian is the reverse.
\<close>

definition le_bytes :: "nat \<Rightarrow> 'a::len word \<Rightarrow> bytes" where
  "le_bytes n w = map (\<lambda>i. ucast (drop_bit (8 * i) w)) [0..<n]"

primrec of_le_bytes :: "bytes \<Rightarrow> 'a::len word" where
  "of_le_bytes [] = 0"
| "of_le_bytes (b # bs) = ucast b OR push_bit 8 (of_le_bytes bs)"

definition of_be_bytes :: "bytes \<Rightarrow> 'a::len word" where
  "of_be_bytes bs = of_le_bytes (rev bs)"

definition be_bytes :: "nat \<Rightarrow> 'a::len word \<Rightarrow> bytes" where
  "be_bytes n w = rev (le_bytes n w)"

lemma length_le_bytes [simp]: "length (le_bytes n w) = n"
  by (simp add: le_bytes_def)

lemma bit_of_le_bytes:
  "bit (of_le_bytes bs :: 'a::len word) i \<longleftrightarrow>
     i < LENGTH('a) \<and> i div 8 < length bs \<and> bit (bs ! (i div 8)) (i mod 8)"
proof (induction bs arbitrary: i)
  case Nil
  then show ?case by simp
next
  case (Cons b bs)
  show ?case
  proof (cases "i < 8")
    case True
    then show ?thesis
      by (auto simp: bit_simps dest: bit_imp_le_length)
  next
    case False
    then have "i = 8 + (i - 8)" by simp
    then obtain j where i: "i = 8 + j" by blast
    have b: "\<not> bit b (8 + j)" by (auto dest: bit_imp_le_length)
    have d: "(8 + j) div 8 = Suc (j div 8)" by simp
    show ?thesis
      using Cons.IH [of j] b by (auto simp: i bit_simps d simp del: div_add_self1)
  qed
qed

lemma of_le_bytes_le_bytes [simp]:
  assumes "LENGTH('a) \<le> 8 * n"
  shows "of_le_bytes (le_bytes n (w :: 'a::len word)) = w"
proof (rule bit_word_eqI)
  fix i assume i: "i < LENGTH('a)"
  with assms have d: "i div 8 < n" by auto
  have "8 * (i div 8) + i mod 8 = i" by simp
  with i d show "bit (of_le_bytes (le_bytes n w) :: 'a word) i = bit w i"
    by (auto simp: bit_of_le_bytes le_bytes_def bit_simps add.commute)
qed

lemma le_bytes_of_le_bytes [simp]:
  assumes "length bs = n" and "8 * n \<le> LENGTH('a)"
  shows "le_bytes n (of_le_bytes bs :: 'a::len word) = bs"
proof (rule nth_equalityI)
  show "length (le_bytes n (of_le_bytes bs :: 'a word)) = length bs" using assms by simp
next
  fix i assume "i < length (le_bytes n (of_le_bytes bs :: 'a word))"
  then have i: "i < n" by simp
  show "le_bytes n (of_le_bytes bs :: 'a word) ! i = bs ! i"
  proof (rule bit_word_eqI)
    fix j assume j: "j < LENGTH(8)"
    with i assms(2) have "8 * i + j < LENGTH('a)" by simp
    then show "bit (le_bytes n (of_le_bytes bs :: 'a word) ! i) j = bit (bs ! i) j"
      using i j assms(1) by (simp add: le_bytes_def bit_simps bit_of_le_bytes)
  qed
qed

lemma le_bytes_inject:
  assumes "LENGTH('a) \<le> 8 * n"
  shows "le_bytes n v = le_bytes n w \<longleftrightarrow> v = (w :: 'a::len word)"
  using of_le_bytes_le_bytes [OF assms] by metis

section \<open>UTF-8\<close>

text \<open>
  Decoding one sequence, as \<^verbatim>\<open>core::str\<close> does: how many bytes the next sequence
  takes and whether it is valid. An invalid sequence takes its first byte and the
  continuation bytes that were still acceptable.
\<close>

definition utf8_cont :: "u8 \<Rightarrow> bool" where
  "utf8_cont b \<longleftrightarrow> 0x80 \<le> b \<and> b \<le> 0xBF"

definition utf8_second :: "u8 \<Rightarrow> u8 \<Rightarrow> bool" where
  "utf8_second a b \<longleftrightarrow>
     (if a = 0xE0 then 0xA0 \<le> b \<and> b \<le> 0xBF
      else if a = 0xED then 0x80 \<le> b \<and> b \<le> 0x9F
      else if a = 0xF0 then 0x90 \<le> b \<and> b \<le> 0xBF
      else if a = 0xF4 then 0x80 \<le> b \<and> b \<le> 0x8F
      else utf8_cont b)"

definition utf8_width :: "u8 \<Rightarrow> nat" where
  "utf8_width a =
     (if a \<le> 0x7F then 1
      else if 0xC2 \<le> a \<and> a \<le> 0xDF then 2
      else if 0xE0 \<le> a \<and> a \<le> 0xEF then 3
      else if 0xF0 \<le> a \<and> a \<le> 0xF4 then 4
      else 0)"

fun utf8_step :: "bytes \<Rightarrow> nat \<times> bool" where
  "utf8_step [] = (0, True)"
| "utf8_step (a # r) =
     (let w = utf8_width a in
      if w = 0 then (1, False)
      else if w = 1 then (1, True)
      else case r of
        [] \<Rightarrow> (1, False)
      | b # r2 \<Rightarrow>
          if \<not> utf8_second a b then (1, False)
          else if w = 2 then (2, True)
          else (case r2 of
            [] \<Rightarrow> (2, False)
          | c # r3 \<Rightarrow>
              if \<not> utf8_cont c then (2, False)
              else if w = 3 then (3, True)
              else (case r3 of
                [] \<Rightarrow> (3, False)
              | d # _ \<Rightarrow> if utf8_cont d then (4, True) else (3, False))))"

lemma utf8_step_pos: "0 < fst (utf8_step (a # r))"
  by (auto simp: Let_def split: list.splits)

function utf8_valid :: "bytes \<Rightarrow> bool" where
  "utf8_valid [] = True"
| "utf8_valid (a # r) =
     (snd (utf8_step (a # r)) \<and> utf8_valid (drop (fst (utf8_step (a # r))) (a # r)))"
  by pat_completeness auto
termination
  by (relation "measure length") (use utf8_step_pos in \<open>auto simp del: utf8_step.simps\<close>)

text \<open>\<^verbatim>\<open>String::from_utf8_lossy\<close>: every invalid sequence becomes U+FFFD.\<close>

function from_utf8_lossy :: "bytes \<Rightarrow> bytes" where
  "from_utf8_lossy [] = []"
| "from_utf8_lossy (a # r) =
     (let (n, valid) = utf8_step (a # r) in
      (if valid then take n (a # r) else [0xEF, 0xBF, 0xBD]) @ from_utf8_lossy (drop n (a # r)))"
  by pat_completeness auto
termination
proof (relation "measure length")
  fix a r x n v
  assume "x = utf8_step (a # r)" and "(n, v) = x"
  then have "0 < n" using utf8_step_pos [of a r] by (metis fst_conv)
  then show "(drop n (a # r), a # r) \<in> measure length" by simp
qed simp

declare utf8_step.simps(2) [simp del] utf8_valid.simps(2) [simp del]
  from_utf8_lossy.simps(2) [simp del]

text \<open>Valid text passes through the lossy decoder unchanged.\<close>

lemma from_utf8_lossy_valid: "utf8_valid bs \<Longrightarrow> from_utf8_lossy bs = bs"
proof (induction bs rule: from_utf8_lossy.induct)
  case 1
  then show ?case by simp
next
  case (2 a r)
  obtain n v where s: "utf8_step (a # r) = (n, v)" by fastforce
  with 2 have "v" and "from_utf8_lossy (drop n (a # r)) = drop n (a # r)"
    by (simp_all add: utf8_valid.simps(2))
  then show ?case by (simp add: from_utf8_lossy.simps(2) s)
qed

end
