(* ===== verification/Subnet.thy ===== *)
theory Subnet
  imports Prelude
begin

text \<open>
  Device address arithmetic (\<^verbatim>\<open>lorawan/src/subnet.rs\<close>): network classes, the split of a
  32 bit device address into NetID and network address, and the translation between device
  addresses and the gateway's dense subnet numbering. Integer arithmetic wraps, as in the
  release profile; shift amounts, all at most 31, are natural numbers.
\<close>

definition RETIRED_NETID :: u32 where
  "RETIRED_NETID = 0x200010"

definition get_or_0 :: "nat list \<Rightarrow> nat \<Rightarrow> nat" where
  "get_or_0 xs i = (if i < length xs then xs ! i else 0)"

definition netid_class :: "u32 \<Rightarrow> u8" where
  "netid_class netid = ucast (drop_bit 21 netid)"

definition addr_len :: "u8 \<Rightarrow> nat" where
  "addr_len netclass = get_or_0 [25, 24, 20, 17, 15, 13, 10, 7] (unat netclass)"

definition id_len :: "u8 \<Rightarrow> nat" where
  "id_len netclass = get_or_0 [6, 6, 9, 11, 12, 13, 15, 17] (unat netclass)"

definition netid_size :: "u32 \<Rightarrow> u32" where
  "netid_size netid = push_bit (addr_len (netid_class netid)) 1"

definition var_net_class :: "u8 \<Rightarrow> u32" where
  "var_net_class netclass =
     (let idlen = id_len netclass in
      if netclass = 0 then 0
      else if netclass = 1 then push_bit idlen 0b10
      else if netclass = 2 then push_bit idlen 0b110
      else if netclass = 3 then push_bit idlen 0b1110
      else if netclass = 4 then push_bit idlen 0b11110
      else if netclass = 5 then push_bit idlen 0b111110
      else if netclass = 6 then push_bit idlen 0b1111110
      else if netclass = 7 then push_bit idlen 0b11111110
      else 0)"

definition var_netid :: "u8 \<Rightarrow> u32 \<Rightarrow> u32" where
  "var_netid netclass netid = push_bit (addr_len netclass) netid"

definition devaddr :: "u32 \<Rightarrow> u32 \<Rightarrow> u32" where
  "devaddr netid nwkaddr =
     (let netclass = netid_class netid;
          id = netid AND 0b111111111111111111111;
          addr = var_net_class netclass OR id
      in var_netid netclass addr OR nwkaddr)"

definition is_local_netid :: "u32 \<Rightarrow> u32 list \<Rightarrow> bool" where
  "is_local_netid netid netid_list =
     (if netid = RETIRED_NETID then True else List.member netid_list netid)"

fun netid_shift_prefix :: "u8 \<Rightarrow> nat \<Rightarrow> u8" where
  "netid_shift_prefix prefix index =
     (if prefix AND push_bit index 1 = 0 then 7 - of_nat index
      else if 0 < index then netid_shift_prefix prefix (index - 1)
      else 0)"

definition netid_type :: "u32 \<Rightarrow> u8" where
  "netid_type addr =
     (let n_bytes = be_bytes 4 addr; first = n_bytes ! 0 in netid_shift_prefix first 7)"

definition get_netid :: "u32 \<Rightarrow> u8 \<Rightarrow> nat \<Rightarrow> u32" where
  "get_netid addr prefix_len nwkidbits =
     drop_bit (31 - nwkidbits) (push_bit (unat (prefix_len - 1)) addr)"

definition parse_netid :: "u32 \<Rightarrow> u32" where
  "parse_netid addr =
     (let net_type = netid_type addr;
          id = get_netid addr (net_type + 1) (id_len net_type)
      in id OR push_bit 21 (ucast net_type))"

definition nwk_addr :: "u32 \<Rightarrow> u32" where
  "nwk_addr addr =
     (let netid = parse_netid addr;
          len = addr_len (netid_class netid);
          mask = push_bit len 1 - 1
      in addr AND mask)"

text \<open>The \<^verbatim>\<open>for\<close> loop of \<^verbatim>\<open>netid_addr_range\<close>, with its \<^verbatim>\<open>break\<close>.\<close>

fun netid_range_loop :: "u32 \<Rightarrow> u32 list \<Rightarrow> u32 \<Rightarrow> u32 \<Rightarrow> u32 \<times> u32" where
  "netid_range_loop netid [] lower upper = (lower, upper)"
| "netid_range_loop netid (item # items) lower upper =
     (let size = netid_size item in
      if item = netid then (lower, upper + size)
      else netid_range_loop netid items (lower + size) (lower + size))"

definition netid_addr_range :: "u32 \<Rightarrow> u32 list \<Rightarrow> u32 \<times> u32" where
  "netid_addr_range netid netid_list =
     (if List.member netid_list netid then netid_range_loop netid netid_list 0 0 else (0, 0))"

definition subnet_addr_within_range :: "u32 \<Rightarrow> u32 \<Rightarrow> u32 list \<Rightarrow> bool" where
  "subnet_addr_within_range subnetaddr netid netid_list =
     (let (lower, upper) = netid_addr_range netid netid_list
      in lower \<le> subnetaddr \<and> subnetaddr < upper)"

definition subnet_addr_to_netid :: "u32 \<Rightarrow> u32 list \<Rightarrow> u32" where
  "subnet_addr_to_netid subnetaddr netid_list =
     (case find (\<lambda>item. subnet_addr_within_range subnetaddr item netid_list) netid_list of
        Some netid \<Rightarrow> netid
      | None \<Rightarrow> 0)"

definition is_local_devaddr :: "u32 \<Rightarrow> u32 list \<Rightarrow> bool" where
  "is_local_devaddr addr netid_list = (let netid = parse_netid addr in is_local_netid netid netid_list)"

definition devaddr_from_subnet :: "u32 \<Rightarrow> u32 list \<Rightarrow> u32" where
  "devaddr_from_subnet subnetaddr netid_list =
     (let netid = subnet_addr_to_netid subnetaddr netid_list;
          (lower, _) = netid_addr_range netid netid_list
      in devaddr netid (subnetaddr - lower))"

definition subnet_from_devaddr :: "u32 \<Rightarrow> u32 list \<Rightarrow> u32" where
  "subnet_from_devaddr addr netid_list =
     (let netid = parse_netid addr;
          (lower, _) = netid_addr_range netid netid_list
      in lower + nwk_addr addr)"

declare netid_shift_prefix.simps [simp del]

end
