(* ===== verification/Subnet_Props.thy ===== *)
theory Subnet_Props
  imports Subnet
begin

text \<open>
  Correctness of the device address arithmetic: a device address splits into a NetID and a
  network address and back without loss, and a list of NetIDs lays their addresses out as a
  dense numbering that the two subnet translations invert.
\<close>

section \<open>Network classes\<close>

lemma first_byte: "be_bytes 4 (addr :: u32) ! 0 = ucast (drop_bit 24 addr)"
  by (simp add: be_bytes_def le_bytes_def numeral_eq_Suc)

lemma and_push_bit_1_eq_0: "(w :: 'a::len word) AND push_bit n 1 = 0 \<longleftrightarrow> \<not> bit w n"
  by (simp add: and_exp_eq_0_iff_not_bit push_bit_eq_mult)

lemma netid_shift_prefix_bit:
  "netid_shift_prefix prefix index =
     (if \<not> bit prefix index then 7 - of_nat index
      else if 0 < index then netid_shift_prefix prefix (index - 1) else 0)"
  by (subst netid_shift_prefix.simps) (simp only: and_push_bit_1_eq_0)

lemma netid_type_eq:
  "netid_type a =
     (if \<not> bit a 31 then 0 else if \<not> bit a 30 then 1 else if \<not> bit a 29 then 2
      else if \<not> bit a 28 then 3 else if \<not> bit a 27 then 4 else if \<not> bit a 26 then 5
      else if \<not> bit a 25 then 6 else if \<not> bit a 24 then 7 else 0)"
proof -
  have b: "bit (ucast (drop_bit 24 a) :: u8) i = (i < 8 \<and> bit a (24 + i))" for i
    by (auto simp: bit_simps)
  show ?thesis
    unfolding netid_type_def first_byte Let_def
    by (simp add: netid_shift_prefix_bit [of _ 7] netid_shift_prefix_bit [of _ 6]
        netid_shift_prefix_bit [of _ 5] netid_shift_prefix_bit [of _ 4]
        netid_shift_prefix_bit [of _ 3] netid_shift_prefix_bit [of _ 2]
        netid_shift_prefix_bit [of _ "Suc 0"] netid_shift_prefix_bit [of _ 0] b)
qed

lemma class_cases:
  fixes c :: u8
  assumes "unat c < 8"
  obtains "c = 0" | "c = 1" | "c = 2" | "c = 3" | "c = 4" | "c = 5" | "c = 6" | "c = 7"
proof -
  have "unat c \<in> {0, 1, 2, 3, 4, 5, 6, 7}" using assms by auto
  then have "c \<in> {0, 1, 2, 3, 4, 5, 6, 7}" by (auto simp: word_unat_eq_iff)
  then show ?thesis using that by auto
qed

lemma class_lens: "unat c < 8 \<Longrightarrow> unat c + 1 + id_len c + addr_len c = 32"
  by (erule class_cases) (simp_all add: id_len_def addr_len_def get_or_0_def)

lemma class_len_bounds: "unat c < 8 \<Longrightarrow> id_len c \<le> 17 \<and> 6 \<le> id_len c \<and> addr_len c \<le> 25"
  by (erule class_cases) (simp_all add: id_len_def addr_len_def get_or_0_def)

lemma var_net_class_eq: "unat c < 8 \<Longrightarrow> var_net_class c = push_bit (Suc (id_len c)) (mask (unat c))"
  by (erule class_cases) (simp_all add: id_len_def var_net_class_def get_or_0_def mask_eq_exp_minus_1)

lemma netid_type_less: "unat (netid_type a) < 8"
  by (simp add: netid_type_eq)

lemma netid_type_prefix:
  assumes "i < unat (netid_type a)"
  shows "bit a (31 - i)"
proof -
  have "i \<in> {0, 1, 2, 3, 4, 5, 6}" using assms netid_type_less [of a] by auto
  with assms show ?thesis by (auto simp: netid_type_eq split: if_splits)
qed

lemma netid_typeI:
  assumes "unat c < 8" and p: "\<And>i. i < unat c \<Longrightarrow> bit a (31 - i)" and "\<not> bit a (31 - unat c)"
  shows "netid_type a = c"
  using assms(1)
proof (cases c rule: class_cases)
  case 1 then show ?thesis using assms(3) by (simp add: netid_type_eq)
next
  case 2 then show ?thesis using assms(3) p [of 0] by (simp add: netid_type_eq)
next
  case 3 then show ?thesis using assms(3) p [of 0] p [of 1] by (simp add: netid_type_eq)
next
  case 4 then show ?thesis using assms(3) p [of 0] p [of 1] p [of 2] by (simp add: netid_type_eq)
next
  case 5 then show ?thesis using assms(3) p [of 0] p [of 1] p [of 2] p [of 3]
    by (simp add: netid_type_eq)
next
  case 6 then show ?thesis using assms(3) p [of 0] p [of 1] p [of 2] p [of 3] p [of 4]
    by (simp add: netid_type_eq)
next
  case 7 then show ?thesis using assms(3) p [of 0] p [of 1] p [of 2] p [of 3] p [of 4] p [of 5]
    by (simp add: netid_type_eq)
next
  case 8 then show ?thesis
    using assms(3) p [of 0] p [of 1] p [of 2] p [of 3] p [of 4] p [of 5] p [of 6]
    by (simp add: netid_type_eq)
qed

text \<open>Bits of the pieces, for a class in range.\<close>

lemma bit_parse_netid:
  assumes "i < 32" and c_def: "c = netid_type a"
  shows "bit (parse_netid a) i \<longleftrightarrow>
    i \<le> id_len c \<and> bit a (i + addr_len c) \<or> 21 \<le> i \<and> bit c (i - 21)"
proof -
  have c: "unat c < 8" unfolding c_def by (rule netid_type_less)
  note l = class_lens [OF c] class_len_bounds [OF c]
  have "c + 1 - 1 = c" by simp
  have "31 - id_len c + i - unat c = i + addr_len c" if "i \<le> id_len c" using l that by simp
  then show ?thesis
    using l assms(1) unfolding parse_netid_def get_netid_def Let_def c_def [symmetric]
    by (auto simp: bit_simps)
qed

lemma bit_devaddr:
  assumes "i < 32" and "unat (netid_class n) < 8" and c_def: "c = netid_class n"
  shows "bit (devaddr n k) i \<longleftrightarrow>
    addr_len c \<le> i \<and> (addr_len c + id_len c < i \<or> i < addr_len c + 21 \<and> bit n (i - addr_len c)) \<or> bit k i"
proof -
  have c: "unat c < 8" using assms(2) by (simp add: c_def)
  note l = class_lens [OF c] class_len_bounds [OF c]
  have m: "(0b111111111111111111111 :: u32) = mask 21" by (simp add: mask_eq_exp_minus_1)
  show ?thesis
    using l assms(1) unfolding devaddr_def Let_def var_netid_def c_def [symmetric] m var_net_class_eq [OF c]
    by (auto simp: bit_simps simp del: push_bit_Suc)
qed

lemma netid_class_parse: "netid_class (parse_netid a) = netid_type a"
proof (rule bit_word_eqI)
  fix i assume i: "i < LENGTH(8)"
  have c: "unat (netid_type a) < 8" by (rule netid_type_less)
  show "bit (netid_class (parse_netid a)) i = bit (netid_type a) i"
    using i class_len_bounds [OF c] bit_parse_netid [of "21 + i" _ a]
    by (auto simp: netid_class_def bit_simps)
qed

definition valid_netid :: "u32 \<Rightarrow> bool" where
  "valid_netid n \<longleftrightarrow> drop_bit 24 n = 0 \<and> drop_bit (id_len (netid_class n)) (n AND mask 21) = 0"

lemma valid_netid_bits:
  assumes "valid_netid n"
  shows "24 \<le> i \<Longrightarrow> \<not> bit n i" "id_len (netid_class n) \<le> i \<Longrightarrow> i < 21 \<Longrightarrow> \<not> bit n i"
proof -
  have "\<not> bit (drop_bit 24 n) (i - 24)"
    "\<not> bit (drop_bit (id_len (netid_class n)) (n AND mask 21)) (i - id_len (netid_class n))"
    using assms by (simp_all add: valid_netid_def)
  then show "24 \<le> i \<Longrightarrow> \<not> bit n i" "id_len (netid_class n) \<le> i \<Longrightarrow> i < 21 \<Longrightarrow> \<not> bit n i"
    by (auto simp: bit_simps)
qed

lemma valid_netid_class:
  assumes "valid_netid n"
  shows "unat (netid_class n) < 8"
proof -
  have "netid_class n = take_bit 3 (netid_class n)"
  proof (rule bit_word_eqI)
    fix i assume "i < LENGTH(8)"
    then show "bit (netid_class n) i = bit (take_bit 3 (netid_class n)) i"
      using valid_netid_bits(1) [OF assms, of "21 + i"]
      by (cases "i < 3") (simp_all add: netid_class_def bit_simps)
  qed
  then have "unat (netid_class n) = take_bit 3 (unat (netid_class n))"
    by (metis unsigned_take_bit_eq)
  then show ?thesis using take_bit_nat_less_exp [of 3 "unat (netid_class n)"] by simp
qed

text \<open>The address space of one network.\<close>

lemma nwk_addr_eq: "nwk_addr a = a AND mask (addr_len (netid_type a))"
  by (simp add: nwk_addr_def netid_class_parse mask_eq_exp_minus_1)

lemma devaddr_parse: "devaddr (parse_netid a) (nwk_addr a) = a"
proof (rule bit_word_eqI)
  fix i assume "i < LENGTH(32)"
  then have i: "i < 32" by simp
  let ?c = "netid_type a"
  have c: "unat ?c < 8" by (rule netid_type_less)
  note l = class_lens [OF c] class_len_bounds [OF c]
  have cl: "unat (netid_class (parse_netid a)) < 8" by (simp add: netid_class_parse c)
  have p: "bit a i" if "addr_len ?c + id_len ?c < i"
    using netid_type_prefix [of "31 - i" a] that i l by simp
  show "bit (devaddr (parse_netid a) (nwk_addr a)) i = bit a i"
  proof (cases "addr_len ?c \<le> i")
    case True
    with i l p show ?thesis
      by (auto simp: bit_devaddr [OF i cl refl] netid_class_parse bit_parse_netid [OF _ refl]
          nwk_addr_eq bit_simps)
  next
    case False
    with i show ?thesis
      by (auto simp: bit_devaddr [OF i cl refl] netid_class_parse nwk_addr_eq bit_simps)
  qed
qed

lemma netid_type_devaddr:
  assumes "valid_netid n" and "drop_bit (addr_len (netid_class n)) k = 0"
  shows "netid_type (devaddr n k) = netid_class n"
proof -
  let ?c = "netid_class n"
  have c: "unat ?c < 8" using assms(1) by (rule valid_netid_class)
  note l = class_lens [OF c] class_len_bounds [OF c]
  have k: "\<not> bit k i" if "addr_len ?c \<le> i" for i
    using arg_cong [OF assms(2), of "\<lambda>w. bit w (i - addr_len ?c)"] that by (simp add: bit_simps)
  show ?thesis
  proof (rule netid_typeI [OF c])
    fix i assume "i < unat ?c"
    then have "addr_len ?c + id_len ?c < 31 - i" using l by arith
    then show "bit (devaddr n k) (31 - i)" by (subst bit_devaddr [OF _ c refl]) simp_all
  next
    have "31 - unat ?c = addr_len ?c + id_len ?c" using l by arith
    then show "\<not> bit (devaddr n k) (31 - unat ?c)"
      using l k [of "31 - unat ?c"] valid_netid_bits(2) [OF assms(1), of "id_len ?c"]
      by (subst bit_devaddr [OF _ c refl]) auto
  qed
qed

lemma parse_devaddr:
  assumes "valid_netid n" and "drop_bit (addr_len (netid_class n)) k = 0"
  shows "parse_netid (devaddr n k) = n"
proof (rule bit_word_eqI)
  fix i assume "i < LENGTH(32)"
  then have i: "i < 32" by simp
  let ?c = "netid_class n"
  have c: "unat ?c < 8" using assms(1) by (rule valid_netid_class)
  note l = class_lens [OF c] class_len_bounds [OF c]
  have t: "netid_type (devaddr n k) = ?c" by (rule netid_type_devaddr [OF assms])
  have k: "\<not> bit k (i + addr_len ?c)"
    using arg_cong [OF assms(2), of "\<lambda>w. bit w i"] by (simp add: bit_simps add.commute)
  have hi: "bit ?c (i - 21) = bit n i" if "21 \<le> i"
    using that i valid_netid_bits(1) [OF assms(1), of i]
    by (cases "i < 29") (auto simp: netid_class_def bit_simps)
  have lo: "\<not> bit n i" if "id_len ?c \<le> i" "i < 21"
    using valid_netid_bits(2) [OF assms(1) that] .
  show "bit (parse_netid (devaddr n k)) i = bit n i"
  proof (cases "i \<le> id_len ?c")
    case True
    then have "bit (devaddr n k) (i + addr_len ?c) = bit n i"
      using l k by (subst bit_devaddr [OF _ c refl]) auto
    with True l show ?thesis by (simp add: bit_parse_netid [OF i refl] t)
  next
    case False
    then show ?thesis using hi lo by (cases "21 \<le> i") (simp_all add: bit_parse_netid [OF i refl] t)
  qed
qed

lemma nwk_devaddr:
  assumes "valid_netid n" and "drop_bit (addr_len (netid_class n)) k = 0"
  shows "nwk_addr (devaddr n k) = k"
proof (rule bit_word_eqI)
  fix i assume "i < LENGTH(32)"
  then have i: "i < 32" by simp
  have c: "unat (netid_class n) < 8" using assms(1) by (rule valid_netid_class)
  have k: "\<not> bit k i" if "addr_len (netid_class n) \<le> i"
    using arg_cong [OF assms(2), of "\<lambda>w. bit w (i - addr_len (netid_class n))"] that
    by (simp add: bit_simps)
  show "bit (nwk_addr (devaddr n k)) i = bit k i"
    using k i by (cases "addr_len (netid_class n) \<le> i")
      (auto simp: nwk_addr_eq netid_type_devaddr [OF assms] bit_simps bit_devaddr [OF i c refl])
qed

text \<open>Parsing yields a valid NetID for every address except those starting with eight ones.\<close>

lemma netid_type_suffix: "bit a (31 - unat (netid_type a)) \<longleftrightarrow> drop_bit 24 a = 0xFF"
proof -
  have "drop_bit 24 a = 0xFF \<longleftrightarrow> (\<forall>i<8. bit a (24 + i))"
  proof
    assume h: "drop_bit 24 a = 0xFF"
    have "(0xFF :: u32) = mask 8" by (simp add: mask_eq_exp_minus_1)
    then have "bit (drop_bit 24 a) i = bit (mask 8 :: u32) i" for i using h by simp
    then show "\<forall>i<8. bit a (24 + i)" by (simp add: bit_simps)
  next
    assume "\<forall>i<8. bit a (24 + i)"
    then have "drop_bit 24 a = mask 8" by (intro bit_word_eqI) (auto simp: bit_simps dest: bit_imp_le_length)
    then show "drop_bit 24 a = 0xFF" by (simp add: mask_eq_exp_minus_1)
  qed
  also have "\<dots> \<longleftrightarrow> bit a 24 \<and> bit a 25 \<and> bit a 26 \<and> bit a 27 \<and> bit a 28 \<and> bit a 29 \<and> bit a 30 \<and> bit a 31"
    by (simp add: numeral_eq_Suc All_less_Suc2)
  also have "\<dots> \<longleftrightarrow> bit a (31 - unat (netid_type a))"
    by (auto simp: netid_type_eq)
  finally show ?thesis ..
qed

lemma valid_parse_netid: "valid_netid (parse_netid a) \<longleftrightarrow> drop_bit 24 a \<noteq> 0xFF"
proof -
  let ?c = "netid_type a"
  have c: "unat ?c < 8" by (rule netid_type_less)
  note l = class_lens [OF c] class_len_bounds [OF c]
  have c3: "\<not> bit ?c i" if "3 \<le> i" for i
  proof -
    have "?c = take_bit 3 ?c" using c by (simp add: take_bit_eq_mod word_unat_eq_iff unat_mod)
    then show ?thesis using that by (metis bit_take_bit_iff not_less)
  qed
  have "\<not> bit (parse_netid a) (24 + i)" for i
    using l bit_imp_le_length [of "parse_netid a" "24 + i"]
    by (cases "i < 8") (auto simp: bit_parse_netid [OF _ refl] c3)
  then have hi: "drop_bit 24 (parse_netid a) = 0" by (intro bit_word_eqI) (simp add: bit_simps)
  have e: "addr_len ?c + id_len ?c = 31 - unat ?c" using l by arith
  have "drop_bit (id_len ?c) (parse_netid a AND mask 21) = 0 \<longleftrightarrow> \<not> bit (parse_netid a) (id_len ?c)"
  proof
    assume "drop_bit (id_len ?c) (parse_netid a AND mask 21) = 0"
    then have "\<not> bit (drop_bit (id_len ?c) (parse_netid a AND mask 21)) 0" by simp
    then show "\<not> bit (parse_netid a) (id_len ?c)" using l by (simp add: bit_simps del: bit_0)
  next
    assume z: "\<not> bit (parse_netid a) (id_len ?c)"
    have "\<not> bit (parse_netid a) (id_len ?c + i)" if "id_len ?c + i < 21" for i
      using z that by (cases i) (simp_all add: bit_parse_netid [OF _ refl])
    then show "drop_bit (id_len ?c) (parse_netid a AND mask 21) = 0"
      by (intro bit_word_eqI) (auto simp: bit_simps)
  qed
  also have "\<dots> \<longleftrightarrow> \<not> bit a (31 - unat ?c)"
    using l by (subst bit_parse_netid [OF _ refl]) (auto simp: e add.commute)
  finally show ?thesis
    by (simp add: valid_netid_def hi netid_class_parse netid_type_suffix)
qed

section \<open>The contract of an address split\<close>

text \<open>
  An address is made of a network and a host part: composing the parts of an address gives
  it inv, and the parts of a composed address are the ones it was composed of.
\<close>

locale address_split =
  fixes mk :: "'n \<Rightarrow> 'k \<Rightarrow> 'a"
    and net :: "'a \<Rightarrow> 'n"
    and host :: "'a \<Rightarrow> 'k"
    and ok :: "'n \<Rightarrow> bool"
    and fits :: "'n \<Rightarrow> 'k \<Rightarrow> bool"
  assumes mk_parts: "mk (net a) (host a) = a"
    and host_fits: "fits (net a) (host a)"
    and net_mk: "ok n \<Longrightarrow> fits n k \<Longrightarrow> net (mk n k) = n"
    and host_mk: "ok n \<Longrightarrow> fits n k \<Longrightarrow> host (mk n k) = k"
begin

lemma mk_inject:
  assumes "ok n" "fits n k" "ok m" "fits m j" "mk n k = mk m j"
  shows "n = m \<and> k = j"
  using assms net_mk host_mk by metis

lemma parts_inject: "net a = net b \<Longrightarrow> host a = host b \<Longrightarrow> a = b"
  using mk_parts by metis

text \<open>The addresses of a network are its composed addresses.\<close>

lemma addresses_of: "ok n \<Longrightarrow> {a. net a = n} = mk n ` {k. fits n k}"
  using mk_parts host_fits net_mk by (auto simp: image_iff) metis

end

definition fits_netid :: "u32 \<Rightarrow> u32 \<Rightarrow> bool" where
  "fits_netid n k \<longleftrightarrow> drop_bit (addr_len (netid_class n)) k = 0"

interpretation dev: address_split devaddr parse_netid nwk_addr valid_netid fits_netid
proof (unfold_locales, goal_cases)
  case (1 a) show ?case by (rule devaddr_parse)
next
  case (2 a) show ?case
    by (auto simp: fits_netid_def netid_class_parse nwk_addr_eq intro!: bit_word_eqI simp: bit_simps)
next
  case (3 n k) then show ?case by (simp add: parse_devaddr fits_netid_def)
next
  case (4 n k) then show ?case by (simp add: nwk_devaddr fits_netid_def)
qed

section \<open>The layout of a NetID list\<close>

definition nsize :: "u32 \<Rightarrow> nat" where
  "nsize n = 2 ^ addr_len (netid_class n)"

fun plan_offset :: "u32 list \<Rightarrow> u32 \<Rightarrow> nat" where
  "plan_offset [] n = 0"
| "plan_offset (m # ms) n = (if m = n then 0 else nsize m + plan_offset ms n)"

definition plan_size :: "u32 list \<Rightarrow> nat" where
  "plan_size ns = sum_list (map nsize ns)"

definition in_slot :: "u32 list \<Rightarrow> nat \<Rightarrow> u32 \<Rightarrow> bool" where
  "in_slot ns s n \<longleftrightarrow> plan_offset ns n \<le> s \<and> s < plan_offset ns n + nsize n"

lemma addr_len_less: "addr_len c < 32"
  by (cases "unat c < 8") (use class_len_bounds [of c] in \<open>auto simp: addr_len_def get_or_0_def\<close>)

lemma netid_size_eq: "netid_size n = of_nat (nsize n)"
  by (simp add: netid_size_def nsize_def push_bit_eq_mult)

lemma unat_u32_less: "unat (s :: u32) < 2 ^ 32"
  using unsigned_less [of s] by (simp del: power_numeral)

lemma unat_of_nat_u32: "m < 2 ^ 32 \<Longrightarrow> unat (of_nat m :: u32) = m"
  by (simp add: unat_of_nat take_bit_nat_eq_self_iff)

lemma fits_netid_unat: "fits_netid n k \<longleftrightarrow> unat k < nsize n"
proof -
  have "fits_netid n k \<longleftrightarrow> drop_bit (addr_len (netid_class n)) (unat k) = 0"
    by (simp add: fits_netid_def unat_drop_bit_eq [symmetric] unsigned_eq_0_iff)
  then show ?thesis by (simp add: drop_bit_eq_div nsize_def div_eq_0_iff)
qed

lemma netid_range_loop_eq:
  "n \<in> set ns \<Longrightarrow> netid_range_loop n ns lo lo =
     (lo + of_nat (plan_offset ns n), lo + of_nat (plan_offset ns n + nsize n))"
  by (induction ns arbitrary: lo) (auto simp: netid_size_eq Let_def add_ac)

lemma netid_addr_range_eq:
  "n \<in> set ns \<Longrightarrow> netid_addr_range n ns =
     (of_nat (plan_offset ns n), of_nat (plan_offset ns n + nsize n))"
  by (simp add: netid_addr_range_def netid_range_loop_eq)

lemma plan_offset_le: "n \<in> set ns \<Longrightarrow> plan_offset ns n + nsize n \<le> plan_size ns"
  by (induction ns) (auto simp: plan_size_def)

lemma slot_unique: "in_slot ns s n \<Longrightarrow> in_slot ns s m \<Longrightarrow> n \<in> set ns \<Longrightarrow> m \<in> set ns \<Longrightarrow> n = m"
proof (induction ns arbitrary: s)
  case Nil
  then show ?case by simp
next
  case (Cons a ns)
  show ?case
  proof (cases "n = a \<or> m = a")
    case True
    with Cons.prems show ?thesis by (auto simp: in_slot_def split: if_splits)
  next
    case False
    with Cons.prems have "in_slot ns (s - nsize a) n" "in_slot ns (s - nsize a) m" "n \<in> set ns" "m \<in> set ns"
      by (auto simp: in_slot_def)
    then show ?thesis by (rule Cons.IH)
  qed
qed

lemma slot_exists: "distinct ns \<Longrightarrow> s < plan_size ns \<Longrightarrow> \<exists>n\<in>set ns. in_slot ns s n"
proof (induction ns arbitrary: s)
  case Nil
  then show ?case by (simp add: plan_size_def)
next
  case (Cons m ms)
  show ?case
  proof (cases "s < nsize m")
    case True
    then show ?thesis by (auto simp: in_slot_def)
  next
    case False
    with Cons.prems have "s - nsize m < plan_size ms" by (simp add: plan_size_def)
    with Cons obtain n where "n \<in> set ms" "in_slot ms (s - nsize m) n" by auto
    with False Cons.prems show ?thesis by (intro bexI [of _ n]) (auto simp: in_slot_def)
  qed
qed

lemma within_range_iff:
  assumes "plan_size ns < 2 ^ 32" and "n \<in> set ns"
  shows "subnet_addr_within_range s n ns \<longleftrightarrow> in_slot ns (unat s) n"
proof -
  have "plan_offset ns n + nsize n < 2 ^ 32" using plan_offset_le [OF assms(2)] assms(1) by linarith
  then show ?thesis
    by (simp add: subnet_addr_within_range_def netid_addr_range_eq [OF assms(2)] in_slot_def
        word_le_nat_alt word_less_nat_alt unat_of_nat_u32 del: of_nat_add)
qed

lemma subnet_addr_to_netid_eq:
  assumes "plan_size ns < 2 ^ 32" and "n \<in> set ns" and "in_slot ns (unat s) n"
  shows "subnet_addr_to_netid s ns = n"
proof -
  let ?P = "\<lambda>item. subnet_addr_within_range s item ns"
  have "?P n" using assms by (simp add: within_range_iff)
  with assms(2) obtain m where m: "find ?P ns = Some m"
    by (metis find_None_iff not_None_eq)
  then have "m \<in> set ns" "?P m" by (auto simp: find_Some_iff)
  with assms have "m = n" by (auto simp: within_range_iff intro: slot_unique)
  with m show ?thesis by (simp add: subnet_addr_to_netid_def)
qed

lemma subnet_from_devaddr_slot:
  assumes "plan_size ns < 2 ^ 32" and "parse_netid a \<in> set ns"
  shows "unat (subnet_from_devaddr a ns) = plan_offset ns (parse_netid a) + unat (nwk_addr a)"
    and "in_slot ns (unat (subnet_from_devaddr a ns)) (parse_netid a)"
proof -
  let ?n = "parse_netid a"
  have k: "unat (nwk_addr a) < nsize ?n" using dev.host_fits fits_netid_unat by blast
  have o: "plan_offset ns ?n + nsize ?n < 2 ^ 32" using plan_offset_le [OF assms(2)] assms(1) by linarith
  have "subnet_from_devaddr a ns = of_nat (plan_offset ns ?n + unat (nwk_addr a))"
    by (simp add: subnet_from_devaddr_def netid_addr_range_eq [OF assms(2)])
  with k o show u: "unat (subnet_from_devaddr a ns) = plan_offset ns ?n + unat (nwk_addr a)"
    by (simp add: unat_of_nat_u32 del: of_nat_add)
  show "in_slot ns (unat (subnet_from_devaddr a ns)) ?n" using k by (simp add: u in_slot_def)
qed

lemma devaddr_from_subnet_slot:
  assumes "plan_size ns < 2 ^ 32" and "n \<in> set ns" and "in_slot ns (unat s) n"
  shows "devaddr_from_subnet s ns = devaddr n (of_nat (unat s - plan_offset ns n))"
    and "fits_netid n (of_nat (unat s - plan_offset ns n))"
proof -
  have le: "plan_offset ns n \<le> unat s" "unat s - plan_offset ns n < nsize n"
    using assms(3) by (auto simp: in_slot_def)
  then have "s - of_nat (plan_offset ns n) = of_nat (unat s - plan_offset ns n)"
    by (simp add: of_nat_diff)
  then show "devaddr_from_subnet s ns = devaddr n (of_nat (unat s - plan_offset ns n))"
    by (simp add: devaddr_from_subnet_def subnet_addr_to_netid_eq [OF assms]
        netid_addr_range_eq [OF assms(2)])
  have "unat s < 2 ^ 32" by (rule unat_u32_less)
  then have "unat s - plan_offset ns n < 2 ^ 32" by simp
  then show "fits_netid n (of_nat (unat s - plan_offset ns n))"
    using le by (simp add: fits_netid_unat unat_of_nat_u32 del: of_nat_diff)
qed

lemma subnet_roundtrips:
  assumes "plan_size ns < 2 ^ 32"
  shows "parse_netid a \<in> set ns \<Longrightarrow> devaddr_from_subnet (subnet_from_devaddr a ns) ns = a"
    and "distinct ns \<Longrightarrow> \<forall>n\<in>set ns. valid_netid n \<Longrightarrow> unat s < plan_size ns \<Longrightarrow>
      parse_netid (devaddr_from_subnet s ns) \<in> set ns \<and>
      subnet_from_devaddr (devaddr_from_subnet s ns) ns = s"
proof -
  assume a: "parse_netid a \<in> set ns"
  note s = subnet_from_devaddr_slot [OF assms a]
  show "devaddr_from_subnet (subnet_from_devaddr a ns) ns = a"
    using devaddr_from_subnet_slot(1) [OF assms a s(2)] by (simp add: s(1) devaddr_parse)
next
  assume "distinct ns" and v: "\<forall>n\<in>set ns. valid_netid n" and "unat s < plan_size ns"
  then obtain n where n: "n \<in> set ns" and sl: "in_slot ns (unat s) n" using slot_exists by blast
  let ?k = "of_nat (unat s - plan_offset ns n) :: u32"
  note d = devaddr_from_subnet_slot [OF assms n sl]
  have p: "parse_netid (devaddr_from_subnet s ns) = n" and h: "nwk_addr (devaddr_from_subnet s ns) = ?k"
    using v n d(2) by (simp_all add: d(1) dev.net_mk dev.host_mk)
  have "unat s < 2 ^ 32" by (rule unat_u32_less)
  then have "unat s - plan_offset ns n < 2 ^ 32" by simp
  then have "unat (subnet_from_devaddr (devaddr_from_subnet s ns) ns) = unat s"
    using subnet_from_devaddr_slot(1) [OF assms, of "devaddr_from_subnet s ns"] n sl
    by (simp add: p h unat_of_nat_u32 in_slot_def)
  then show "parse_netid (devaddr_from_subnet s ns) \<in> set ns \<and>
      subnet_from_devaddr (devaddr_from_subnet s ns) ns = s"
    using p n word_unat_eq_iff by auto
qed

section \<open>Properties\<close>

text \<open>
  C33. Every device address is recovered from the NetID and the network address it is split
  into, and the network address fits the address space of its class. The NetID obtained is a
  valid one (24 bits, with an id within its class's id length) for every address except those
  of the reserved range that starts with eight one bits.
\<close>

theorem devaddr_split:
  "devaddr (parse_netid a) (nwk_addr a) = a \<and>
   unat (nwk_addr a) < 2 ^ addr_len (netid_type a) \<and>
   netid_class (parse_netid a) = netid_type a \<and>
   (valid_netid (parse_netid a) \<longleftrightarrow> drop_bit 24 a \<noteq> 0xFF)"
  using dev.host_fits [of a]
  by (simp add: dev.mk_parts netid_class_parse valid_parse_netid fits_netid_unat nsize_def)

text \<open>
  Composing a device address from a valid NetID and a network address that fits its class
  loses nothing: both parts are read inv, so distinct pairs give distinct addresses.
\<close>

theorem devaddr_compose:
  assumes "valid_netid n" and "unat k < 2 ^ addr_len (netid_class n)"
  shows "parse_netid (devaddr n k) = n \<and> nwk_addr (devaddr n k) = k"
  using assms dev.net_mk [of n k] dev.host_mk [of n k] by (simp add: fits_netid_unat nsize_def)

text \<open>
  C34. For a list of distinct valid NetIDs whose address spaces together are below two to the
  32, the subnet numbering is a bijection between the device addresses of those networks and
  the numbers below the total size, the two translations are inverse to each other, and every
  number in range is translated to a local device address.
\<close>

theorem subnet_numbering:
  assumes "distinct ns" and "\<forall>n\<in>set ns. valid_netid n" and "plan_size ns < 2 ^ 32"
  shows "bij_betw (\<lambda>a. subnet_from_devaddr a ns)
           {a. parse_netid a \<in> set ns} {s. unat s < plan_size ns} \<and>
         (\<forall>a. parse_netid a \<in> set ns \<longrightarrow> devaddr_from_subnet (subnet_from_devaddr a ns) ns = a) \<and>
         (\<forall>s. unat s < plan_size ns \<longrightarrow>
            is_local_devaddr (devaddr_from_subnet s ns) ns \<and>
            subnet_from_devaddr (devaddr_from_subnet s ns) ns = s)"
proof -
  note r = subnet_roundtrips [OF assms(3)]
  note inv = r(2) [OF assms(1,2)]
  have "unat (subnet_from_devaddr a ns) < plan_size ns" if "parse_netid a \<in> set ns" for a
    using subnet_from_devaddr_slot(2) [OF assms(3) that] plan_offset_le [OF that]
    by (simp add: in_slot_def)
  with r(1) inv have "bij_betw (\<lambda>a. subnet_from_devaddr a ns)
      {a. parse_netid a \<in> set ns} {s. unat s < plan_size ns}"
    by (intro bij_betw_byWitness [where f' = "\<lambda>s. devaddr_from_subnet s ns"]) auto
  moreover have "is_local_devaddr (devaddr_from_subnet s ns) ns" if "unat s < plan_size ns" for s
    using inv [OF that] by (simp add: is_local_devaddr_def is_local_netid_def)
  ultimately show ?thesis using r(1) inv by simp
qed

theorem subnet_numbering_witness:
  "devaddr_from_subnet (subnet_from_devaddr 0x7E000801 [0x00003C, 0x00003F]) [0x00003C, 0x00003F]
     = 0x7E000801"
  using subnet_numbering [of "[0x00003C, 0x00003F]"]
  by (simp add: valid_netid_def netid_class_def id_len_def addr_len_def get_or_0_def
      plan_size_def nsize_def parse_netid_def get_netid_def netid_type_eq mask_eq_exp_minus_1)

end
