(* ===== verification/LoraWan.thy ===== *)
theory LoraWan
  imports Prelude
begin

text \<open>
  The frame codec of the crate \<^verbatim>\<open>lorawan\<close> (\<^verbatim>\<open>lorawan/src/lib.rs\<close> and
  \<^verbatim>\<open>lorawan/src/error.rs\<close>): message types, header bit fields, and the readers and
  writers of every frame. A reader consumes a prefix of the remaining bytes and returns the
  rest; a writer takes the output vector and returns the reported count with the extended
  vector (writing into a \<^verbatim>\<open>Vec<u8>\<close> never fails).
\<close>

section \<open>Message types\<close>

datatype Direction = Dir_Uplink | Dir_Downlink

datatype MType =
    MT_JoinRequest
  | MT_JoinAccept
  | MT_UnconfirmedUp
  | MT_UnconfirmedDown
  | MT_ConfirmedUp
  | MT_ConfirmedDown
  | MT_Proprietary
  | MT_Invalid u8

datatype LoraWanError =
    InvalidPacketType u8
  | InvalidFPortForFopts
  | InvalidPacketSize MType nat
  | LoraWan_Io io_error

definition MType_from_u8 :: "u8 \<Rightarrow> MType" where
  "MType_from_u8 v =
     (if v = 0b000 then MT_JoinRequest
      else if v = 0b001 then MT_JoinAccept
      else if v = 0b010 then MT_UnconfirmedUp
      else if v = 0b011 then MT_UnconfirmedDown
      else if v = 0b100 then MT_ConfirmedUp
      else if v = 0b101 then MT_ConfirmedDown
      else if v = 0b111 then MT_Proprietary
      else MT_Invalid v)"

fun u8_from_MType :: "MType \<Rightarrow> u8" where
  "u8_from_MType MT_JoinRequest = 0b000"
| "u8_from_MType MT_JoinAccept = 0b001"
| "u8_from_MType MT_UnconfirmedUp = 0b010"
| "u8_from_MType MT_UnconfirmedDown = 0b011"
| "u8_from_MType MT_ConfirmedUp = 0b100"
| "u8_from_MType MT_ConfirmedDown = 0b101"
| "u8_from_MType MT_Proprietary = 0b111"
| "u8_from_MType (MT_Invalid v) = v"

section \<open>Bit fields\<close>

text \<open>
  The accessors that \<^verbatim>\<open>bitfield!\<close> derives from a declaration
  \<^verbatim>\<open>name, set_name: msb, lsb\<close>, and its one-bit form.
\<close>

definition bit_range :: "u8 \<Rightarrow> nat \<Rightarrow> nat \<Rightarrow> u8" where
  "bit_range w msb lsb = drop_bit lsb w AND mask (msb - lsb + 1)"

definition set_bit_range :: "u8 \<Rightarrow> nat \<Rightarrow> nat \<Rightarrow> u8 \<Rightarrow> u8" where
  "set_bit_range w msb lsb v =
     (w AND NOT (push_bit lsb (mask (msb - lsb + 1))))
       OR push_bit lsb (v AND mask (msb - lsb + 1))"

definition set_bit_at :: "u8 \<Rightarrow> nat \<Rightarrow> bool \<Rightarrow> u8" where
  "set_bit_at w i b = (if b then w OR push_bit i 1 else w AND NOT (push_bit i 1))"

datatype MHDR = MHDR u8

fun MHDR_mtype :: "MHDR \<Rightarrow> MType" where
  "MHDR_mtype (MHDR w) = MType_from_u8 (bit_range w 7 5)"

fun MHDR_set_mtype :: "MHDR \<Rightarrow> MType \<Rightarrow> MHDR" where
  "MHDR_set_mtype (MHDR w) m = MHDR (set_bit_range w 7 5 (u8_from_MType m))"

fun MHDR_major :: "MHDR \<Rightarrow> u8" where
  "MHDR_major (MHDR w) = bit_range w 1 0"

fun MHDR_set_major :: "MHDR \<Rightarrow> u8 \<Rightarrow> MHDR" where
  "MHDR_set_major (MHDR w) v = MHDR (set_bit_range w 1 0 v)"

datatype FCtrlUplink = FCtrlUplink u8
datatype FCtrlDownlink = FCtrlDownlink u8

fun FCtrlUplink_adr :: "FCtrlUplink \<Rightarrow> bool" where
  "FCtrlUplink_adr (FCtrlUplink w) = bit w 7"

fun FCtrlUplink_set_adr :: "FCtrlUplink \<Rightarrow> bool \<Rightarrow> FCtrlUplink" where
  "FCtrlUplink_set_adr (FCtrlUplink w) b = FCtrlUplink (set_bit_at w 7 b)"

fun FCtrlUplink_adr_ack_req :: "FCtrlUplink \<Rightarrow> bool" where
  "FCtrlUplink_adr_ack_req (FCtrlUplink w) = bit w 6"

fun FCtrlUplink_set_addr_ack_req :: "FCtrlUplink \<Rightarrow> bool \<Rightarrow> FCtrlUplink" where
  "FCtrlUplink_set_addr_ack_req (FCtrlUplink w) b = FCtrlUplink (set_bit_at w 6 b)"

fun FCtrlUplink_ack :: "FCtrlUplink \<Rightarrow> bool" where
  "FCtrlUplink_ack (FCtrlUplink w) = bit w 5"

fun FCtrlUplink_set_ack :: "FCtrlUplink \<Rightarrow> bool \<Rightarrow> FCtrlUplink" where
  "FCtrlUplink_set_ack (FCtrlUplink w) b = FCtrlUplink (set_bit_at w 5 b)"

fun FCtrlUplink_fpending :: "FCtrlUplink \<Rightarrow> bool" where
  "FCtrlUplink_fpending (FCtrlUplink w) = bit w 4"

fun FCtrlUplink_set_fpending :: "FCtrlUplink \<Rightarrow> bool \<Rightarrow> FCtrlUplink" where
  "FCtrlUplink_set_fpending (FCtrlUplink w) b = FCtrlUplink (set_bit_at w 4 b)"

fun FCtrlUplink_fopts_len :: "FCtrlUplink \<Rightarrow> u8" where
  "FCtrlUplink_fopts_len (FCtrlUplink w) = bit_range w 3 0"

fun FCtrlUplink_set_fopts_len :: "FCtrlUplink \<Rightarrow> u8 \<Rightarrow> FCtrlUplink" where
  "FCtrlUplink_set_fopts_len (FCtrlUplink w) v = FCtrlUplink (set_bit_range w 3 0 v)"

fun FCtrlDownlink_adr :: "FCtrlDownlink \<Rightarrow> bool" where
  "FCtrlDownlink_adr (FCtrlDownlink w) = bit w 7"

fun FCtrlDownlink_set_adr :: "FCtrlDownlink \<Rightarrow> bool \<Rightarrow> FCtrlDownlink" where
  "FCtrlDownlink_set_adr (FCtrlDownlink w) b = FCtrlDownlink (set_bit_at w 7 b)"

fun FCtrlDownlink_ack :: "FCtrlDownlink \<Rightarrow> bool" where
  "FCtrlDownlink_ack (FCtrlDownlink w) = bit w 5"

fun FCtrlDownlink_set_ack :: "FCtrlDownlink \<Rightarrow> bool \<Rightarrow> FCtrlDownlink" where
  "FCtrlDownlink_set_ack (FCtrlDownlink w) b = FCtrlDownlink (set_bit_at w 5 b)"

fun FCtrlDownlink_class_b :: "FCtrlDownlink \<Rightarrow> bool" where
  "FCtrlDownlink_class_b (FCtrlDownlink w) = bit w 4"

fun FCtrlDownlink_set_class_b :: "FCtrlDownlink \<Rightarrow> bool \<Rightarrow> FCtrlDownlink" where
  "FCtrlDownlink_set_class_b (FCtrlDownlink w) b = FCtrlDownlink (set_bit_at w 4 b)"

fun FCtrlDownlink_fopts_len :: "FCtrlDownlink \<Rightarrow> u8" where
  "FCtrlDownlink_fopts_len (FCtrlDownlink w) = bit_range w 3 0"

fun FCtrlDownlink_set_fopts_len :: "FCtrlDownlink \<Rightarrow> u8 \<Rightarrow> FCtrlDownlink" where
  "FCtrlDownlink_set_fopts_len (FCtrlDownlink w) v = FCtrlDownlink (set_bit_range w 3 0 v)"

datatype FCtrl = FCtrl_Uplink FCtrlUplink | FCtrl_Downlink FCtrlDownlink

fun FCtrl_fopts_len :: "FCtrl \<Rightarrow> u8" where
  "FCtrl_fopts_len (FCtrl_Uplink fctrl) = FCtrlUplink_fopts_len fctrl"
| "FCtrl_fopts_len (FCtrl_Downlink fctrl) = FCtrlDownlink_fopts_len fctrl"

section \<open>Frames\<close>

record Fhdr =
  dev_addr :: u32
  fctrl :: FCtrl
  fcnt :: u16
  fopts :: bytes

datatype Payload = Payload bytes

datatype FRMPayload =
    FRM_UnconfirmedUp Payload
  | FRM_UnconfirmedDown Payload
  | FRM_ConfirmedUp Payload
  | FRM_ConfirmedDown Payload

record MACPayload =
  fhdr :: Fhdr
  fport :: "u8 option"
  frm_payload :: "FRMPayload option"

record JoinRequest =
  app_eui :: u64
  dev_eui :: u64
  dev_nonce :: bytes

record JoinAccept =
  app_nonce :: bytes
  net_id :: bytes
  ja_dev_addr :: u32
  dl_settings :: u8
  rx_delay :: u8

datatype PHYPayloadFrame =
    Frame_MACPayload MACPayload
  | Frame_JoinRequest JoinRequest
  | Frame_JoinAccept JoinAccept
  | Frame_Proprietary bytes

record PHYPayload =
  mhdr :: MHDR
  phy_payload :: PHYPayloadFrame
  mic :: "bytes option"

definition JOIN_REQUEST_LEN :: nat where "JOIN_REQUEST_LEN = 23"
definition JOIN_ACCEPT_LEN :: nat where "JOIN_ACCEPT_LEN = 17"
definition JOIN_ACCEPT_WITH_CFLIST_LEN :: nat where "JOIN_ACCEPT_WITH_CFLIST_LEN = 33"
definition DATA_MIN_LEN :: nat where "DATA_MIN_LEN = 12"

lemmas len_consts = JOIN_REQUEST_LEN_def JOIN_ACCEPT_LEN_def JOIN_ACCEPT_WITH_CFLIST_LEN_def
  DATA_MIN_LEN_def

section \<open>Readers\<close>

type_synonym 'a lora_reader = "bytes \<Rightarrow> (LoraWanError, 'a \<times> bytes) rresult"

definition io_read :: "nat \<Rightarrow> bytes lora_reader" where
  "io_read n r = map_err LoraWan_Io (read_exact n r)"

definition read_u8 :: "u8 lora_reader" where
  "read_u8 r = map_ok (\<lambda>(bs, r'). (of_le_bytes bs, r')) (io_read 1 r)"

definition read_u16_le :: "u16 lora_reader" where
  "read_u16_le r = map_ok (\<lambda>(bs, r'). (of_le_bytes bs, r')) (io_read 2 r)"

definition read_u32_le :: "u32 lora_reader" where
  "read_u32_le r = map_ok (\<lambda>(bs, r'). (of_le_bytes bs, r')) (io_read 4 r)"

definition read_u64_le :: "u64 lora_reader" where
  "read_u64_le r = map_ok (\<lambda>(bs, r'). (of_le_bytes bs, r')) (io_read 8 r)"

definition MHDR_read :: "MHDR lora_reader" where
  "MHDR_read r = bind_r (read_u8 r) (\<lambda>(b, r). Ok (MHDR b, r))"

definition FCtrlUplink_read :: "FCtrlUplink lora_reader" where
  "FCtrlUplink_read r = bind_r (read_u8 r) (\<lambda>(b, r). Ok (FCtrlUplink b, r))"

definition FCtrlDownlink_read :: "FCtrlDownlink lora_reader" where
  "FCtrlDownlink_read r = bind_r (read_u8 r) (\<lambda>(b, r). Ok (FCtrlDownlink b, r))"

fun FCtrl_read :: "Direction \<Rightarrow> FCtrl lora_reader" where
  "FCtrl_read Dir_Uplink r = bind_r (FCtrlUplink_read r) (\<lambda>(c, r). Ok (FCtrl_Uplink c, r))"
| "FCtrl_read Dir_Downlink r = bind_r (FCtrlDownlink_read r) (\<lambda>(c, r). Ok (FCtrl_Downlink c, r))"

definition Fhdr_read :: "Direction \<Rightarrow> Fhdr lora_reader" where
  "Fhdr_read direction r =
     bind_r (read_u32_le r) (\<lambda>(addr, r).
     bind_r (FCtrl_read direction r) (\<lambda>(ctrl, r).
     bind_r (read_u16_le r) (\<lambda>(cnt, r).
     bind_r (io_read (unat (FCtrl_fopts_len ctrl)) r) (\<lambda>(opts, r).
     Ok (\<lparr>dev_addr = addr, fctrl = ctrl, fcnt = cnt, fopts = opts\<rparr>, r)))))"

text \<open>\<^verbatim>\<open>read_to_end\<close> takes all remaining bytes.\<close>

definition Payload_read :: "Payload lora_reader" where
  "Payload_read r = Ok (Payload r, [])"

fun FRMPayload_read :: "MType \<Rightarrow> FRMPayload lora_reader" where
  "FRMPayload_read MT_UnconfirmedUp r = bind_r (Payload_read r) (\<lambda>(p, r). Ok (FRM_UnconfirmedUp p, r))"
| "FRMPayload_read MT_UnconfirmedDown r = bind_r (Payload_read r) (\<lambda>(p, r). Ok (FRM_UnconfirmedDown p, r))"
| "FRMPayload_read MT_ConfirmedUp r = bind_r (Payload_read r) (\<lambda>(p, r). Ok (FRM_ConfirmedUp p, r))"
| "FRMPayload_read MT_ConfirmedDown r = bind_r (Payload_read r) (\<lambda>(p, r). Ok (FRM_ConfirmedDown p, r))"
| "FRMPayload_read (MT_Invalid v) r = Err (InvalidPacketType v)"
| "FRMPayload_read _ r = Panic"

definition MACPayload_read :: "MType \<Rightarrow> Direction \<Rightarrow> MACPayload lora_reader" where
  "MACPayload_read payload_type direction r =
     bind_r (Fhdr_read direction r) (\<lambda>(hdr, data).
     bind_r (case data of
               port # rest \<Rightarrow>
                 bind_r (FRMPayload_read payload_type rest) (\<lambda>(p, _). Ok (Some port, Some p))
             | [] \<Rightarrow> Ok (None, None)) (\<lambda>(port, payload).
     if port = Some 0 \<and> 0 < FCtrl_fopts_len (fctrl hdr) then Err InvalidFPortForFopts
     else Ok (\<lparr>fhdr = hdr, fport = port, frm_payload = payload\<rparr>, [])))"

definition JoinRequest_read :: "JoinRequest lora_reader" where
  "JoinRequest_read r =
     bind_r (read_u64_le r) (\<lambda>(app, r).
     bind_r (read_u64_le r) (\<lambda>(dev, r).
     bind_r (io_read 2 r) (\<lambda>(nonce, r).
     Ok (\<lparr>app_eui = app, dev_eui = dev, dev_nonce = nonce\<rparr>, r))))"

definition JoinAccept_read :: "JoinAccept lora_reader" where
  "JoinAccept_read r =
     bind_r (io_read 3 r) (\<lambda>(nonce, r).
     bind_r (io_read 3 r) (\<lambda>(net, r).
     bind_r (read_u32_le r) (\<lambda>(addr, r).
     bind_r (read_u8 r) (\<lambda>(dl, r).
     bind_r (read_u8 r) (\<lambda>(rx, r).
     Ok (\<lparr>app_nonce = nonce, net_id = net, ja_dev_addr = addr,
          dl_settings = dl, rx_delay = rx\<rparr>, r))))))"

fun PHYPayloadFrame_read :: "Direction \<Rightarrow> MType \<Rightarrow> PHYPayloadFrame lora_reader" where
  "PHYPayloadFrame_read direction MT_JoinRequest r =
     bind_r (JoinRequest_read r) (\<lambda>(j, r). Ok (Frame_JoinRequest j, r))"
| "PHYPayloadFrame_read direction MT_JoinAccept r =
     bind_r (JoinAccept_read r) (\<lambda>(j, r). Ok (Frame_JoinAccept j, r))"
| "PHYPayloadFrame_read direction MT_Proprietary r = Ok (Frame_Proprietary r, [])"
| "PHYPayloadFrame_read direction packet_type r =
     bind_r (MACPayload_read packet_type direction r) (\<lambda>(m, r). Ok (Frame_MACPayload m, r))"

fun invalid_size :: "MType \<Rightarrow> nat \<Rightarrow> bool" where
  "invalid_size MT_JoinRequest n = (n \<noteq> JOIN_REQUEST_LEN)"
| "invalid_size MT_JoinAccept n = (n \<noteq> JOIN_ACCEPT_LEN \<and> n \<noteq> JOIN_ACCEPT_WITH_CFLIST_LEN)"
| "invalid_size (MT_Invalid v) n = False"
| "invalid_size _ n = (n < DATA_MIN_LEN)"

text \<open>
  \<^verbatim>\<open>data.split_off(data.len() - 4)\<close>: the last four bytes, a panic when there are fewer.
\<close>

definition split_mic :: "MType \<Rightarrow> bytes \<Rightarrow> (LoraWanError, bytes \<times> bytes option) rresult" where
  "split_mic packet_type data =
     (if packet_type \<noteq> MT_Proprietary then
        if length data < 4 then Panic
        else Ok (take (length data - 4) data, Some (drop (length data - 4) data))
      else Ok (data, None))"

definition PHYPayload_read :: "Direction \<Rightarrow> bytes \<Rightarrow> (LoraWanError, PHYPayload) rresult" where
  "PHYPayload_read direction r =
     bind_r (MHDR_read r) (\<lambda>(hdr, data).
     let packet_type = MHDR_mtype hdr; phy_len = length data + 1 in
     if invalid_size packet_type phy_len then Err (InvalidPacketSize packet_type phy_len)
     else case packet_type of
       MT_Invalid s \<Rightarrow> Err (InvalidPacketType s)
     | _ \<Rightarrow>
         bind_r (split_mic packet_type data) (\<lambda>(data, m).
         bind_r (PHYPayloadFrame_read direction packet_type data) (\<lambda>(frame, _).
         Ok \<lparr>mhdr = hdr, phy_payload = frame, mic = m\<rparr>)))"

section \<open>Writers\<close>

type_synonym 'a lora_writer = "'a \<Rightarrow> bytes \<Rightarrow> nat \<times> bytes"

text \<open>\<^verbatim>\<open>output.write(data)\<close> on a vector appends everything and reports its length.\<close>

definition io_write :: "bytes lora_writer" where
  "io_write data out = (length data, out @ data)"

fun MHDR_write :: "MHDR lora_writer" where
  "MHDR_write (MHDR w) out = (1, out @ [w])"

fun FCtrlUplink_write :: "FCtrlUplink lora_writer" where
  "FCtrlUplink_write (FCtrlUplink w) out = (1, out @ [w])"

fun FCtrlDownlink_write :: "FCtrlDownlink lora_writer" where
  "FCtrlDownlink_write (FCtrlDownlink w) out = (1, out @ [w])"

fun FCtrl_write :: "FCtrl lora_writer" where
  "FCtrl_write (FCtrl_Uplink ul) out = FCtrlUplink_write ul out"
| "FCtrl_write (FCtrl_Downlink dl) out = FCtrlDownlink_write dl out"

definition Fhdr_write :: "Fhdr lora_writer" where
  "Fhdr_write h out =
     (let out = out @ le_bytes 4 (dev_addr h);
          written = 4;
          out = out @ le_bytes 4 (dev_addr h);
          (n, out) = FCtrl_write (fctrl h) out;
          written = written + n;
          out = out @ le_bytes 2 (fcnt h);
          written = written + 2;
          (n, out) = io_write (fopts h) out
      in (written + n, out))"

fun Payload_write :: "Payload lora_writer" where
  "Payload_write (Payload v) out = io_write v out"

fun FRMPayload_write :: "FRMPayload lora_writer" where
  "FRMPayload_write (FRM_UnconfirmedUp p) out = Payload_write p out"
| "FRMPayload_write (FRM_UnconfirmedDown p) out = Payload_write p out"
| "FRMPayload_write (FRM_ConfirmedUp p) out = Payload_write p out"
| "FRMPayload_write (FRM_ConfirmedDown p) out = Payload_write p out"

definition MACPayload_write :: "MACPayload lora_writer" where
  "MACPayload_write m out =
     (let (written, out) = Fhdr_write (fhdr m) out;
          (n, out) = (case fport m of Some fp \<Rightarrow> (1, out @ [fp]) | None \<Rightarrow> (0, out));
          written = written + n;
          (n, out) = (case frm_payload m of Some p \<Rightarrow> FRMPayload_write p out | None \<Rightarrow> (0, out))
      in (written + n, out))"

definition JoinRequest_write :: "JoinRequest lora_writer" where
  "JoinRequest_write j out =
     (let out = out @ le_bytes 8 (app_eui j);
          written = 8;
          out = out @ le_bytes 8 (dev_eui j);
          written = written + 8;
          (n, out) = io_write (dev_nonce j) out
      in (written + n, out))"

definition JoinAccept_write :: "JoinAccept lora_writer" where
  "JoinAccept_write j out =
     (let (written, out) = io_write (app_nonce j) out;
          (n, out) = io_write (net_id j) out;
          written = written + n;
          out = out @ le_bytes 4 (ja_dev_addr j);
          written = written + 4;
          out = out @ [dl_settings j];
          written = written + 1;
          out = out @ [rx_delay j]
      in (written + 1, out))"

fun PHYPayloadFrame_write :: "PHYPayloadFrame lora_writer" where
  "PHYPayloadFrame_write (Frame_MACPayload mp) out = MACPayload_write mp out"
| "PHYPayloadFrame_write (Frame_JoinRequest jr) out = JoinRequest_write jr out"
| "PHYPayloadFrame_write (Frame_JoinAccept ja) out = JoinAccept_write ja out"
| "PHYPayloadFrame_write (Frame_Proprietary v) out = io_write v out"

definition PHYPayload_write :: "PHYPayload lora_writer" where
  "PHYPayload_write p out =
     (let (written, out) = MHDR_write (mhdr p) out;
          (n, out) = PHYPayloadFrame_write (phy_payload p) out;
          written = written + n
      in case mic p of
           Some m \<Rightarrow> (let (n, out) = io_write m out in (written + n, out))
         | None \<Rightarrow> (written, out))"

text \<open>\<^verbatim>\<open>Vec<u8>::try_from(PHYPayload)\<close>.\<close>

definition PHYPayload_to_vec :: "PHYPayload \<Rightarrow> bytes" where
  "PHYPayload_to_vec p = snd (PHYPayload_write p [])"

section \<open>Constructors and accessors\<close>

definition PHYPayload_proprietary :: "bytes \<Rightarrow> PHYPayload" where
  "PHYPayload_proprietary payload =
     \<lparr>mhdr = MHDR_set_mtype (MHDR 0) MT_Proprietary,
      phy_payload = Frame_Proprietary payload, mic = None\<rparr>"

definition PHYPayload_mtype :: "PHYPayload \<Rightarrow> MType" where
  "PHYPayload_mtype p = MHDR_mtype (mhdr p)"

fun PHYPayloadFrame_fcnt :: "PHYPayloadFrame \<Rightarrow> u16 option" where
  "PHYPayloadFrame_fcnt (Frame_MACPayload payload) = Some (fcnt (fhdr payload))"
| "PHYPayloadFrame_fcnt _ = None"

definition MACPayload_dev_addr :: "MACPayload \<Rightarrow> u32" where
  "MACPayload_dev_addr m = dev_addr (fhdr m)"

end
