(* ===== verification/Errors.thy ===== *)
theory Errors
  imports LoraWan
begin

text \<open>
  The gateway's error type (\<^verbatim>\<open>src/error.rs\<close>). Error values of other crates are opaque:
  they are kept as their printed form. The constructors that \<^verbatim>\<open>?\<close> and
  \<^verbatim>\<open>map_err(Error::from)\<close> go through are the \<^verbatim>\<open>from_err!\<close> instances.
\<close>

type_synonym foreign = string

datatype DecodeError =
    DE_Uri foreign
  | DE_KeypairUri string
  | DE_Json foreign
  | DE_Base64 foreign
  | DE_Addr foreign
  | DE_Prost foreign
  | DE_LoraWan LoraWanError
  | DE_LfcError foreign
  | DE_Semtech foreign
  | DE_InvalidCrc
  | DE_InvalidEnvelope

datatype EncodeError = EE_Prost foreign

datatype ServiceError =
    SE_Service foreign
  | SE_Rpc foreign
  | SE_Stream
  | SE_Channel
  | SE_NoService
  | SE_Check u64 u64
  | SE_LocalClientConnect foreign

text \<open>The error type of the crate \<^verbatim>\<open>beacon\<close> (\<^verbatim>\<open>beacon/src/error.rs\<close>).\<close>

datatype beacon_error = BE_SystemTime foreign | BE_NoRegionParams | BE_InvalidVersion

datatype RegionError = RE_NoRegionParams

datatype gw_error =
    Error_Config foreign
  | Error_Custom string
  | Error_IO foreign
  | Error_CryptoError foreign
  | Error_Encode EncodeError
  | Error_Decode DecodeError
  | Error_Service ServiceError
  | Error_Semtech foreign
  | Error_Beacon beacon_error
  | Error_Region RegionError

type_synonym 'a gw_result = "(gw_error, 'a) rresult"

definition invalid_envelope :: gw_error where
  "invalid_envelope = Error_Decode DE_InvalidEnvelope"

definition invalid_crc :: gw_error where
  "invalid_crc = Error_Decode DE_InvalidCrc"

definition prost_decode :: "string \<Rightarrow> gw_error" where
  "prost_decode msg = Error_Decode (DE_Prost msg)"

definition keypair_uri :: "string \<Rightarrow> gw_error" where
  "keypair_uri msg = Error_Decode (DE_KeypairUri msg)"

definition no_region_params :: gw_error where
  "no_region_params = Error_Region RE_NoRegionParams"

definition error_custom :: "string \<Rightarrow> gw_error" where
  "error_custom msg = Error_Custom msg"

definition error_channel :: gw_error where
  "error_channel = Error_Service SE_Channel"

definition error_no_service :: gw_error where
  "error_no_service = Error_Service SE_NoService"

definition local_client_connect :: "foreign \<Rightarrow> gw_error" where
  "local_client_connect e = Error_Service (SE_LocalClientConnect e)"

definition gateway_service_check :: "u64 \<Rightarrow> u64 \<Rightarrow> gw_error" where
  "gateway_service_check block_age max_age = Error_Service (SE_Check block_age max_age)"

definition error_from_send :: gw_error where
  "error_from_send = Error_Service SE_Stream"

definition from_uri_error :: "foreign \<Rightarrow> gw_error" where
  "from_uri_error v = Error_Decode (DE_Uri v)"

definition from_lorawan_error :: "LoraWanError \<Rightarrow> gw_error" where
  "from_lorawan_error v = Error_Decode (DE_LoraWan v)"

definition from_datarate_error :: "foreign \<Rightarrow> gw_error" where
  "from_datarate_error v = Error_Decode (DE_Semtech v)"

definition from_json_error :: "foreign \<Rightarrow> gw_error" where
  "from_json_error v = Error_Decode (DE_Json v)"

definition from_status :: "foreign \<Rightarrow> gw_error" where
  "from_status v = Error_Service (SE_Rpc v)"

text \<open>The result of a call into another crate: its error, printed, or its value.\<close>

definition foreign_r :: "(foreign \<Rightarrow> gw_error) \<Rightarrow> foreign + 'a \<Rightarrow> 'a gw_result" where
  "foreign_r from r = (case r of Inl e \<Rightarrow> Err (from e) | Inr x \<Rightarrow> Ok x)"

lemma foreign_r_simps [simp]:
  "foreign_r from (Inl e) = Err (from e)" "foreign_r from (Inr x) = Ok x"
  by (simp_all add: foreign_r_def)

lemma foreign_r_not_Panic [panic_free, simp]: "foreign_r from r \<noteq> Panic"
  by (simp add: foreign_r_def split: sum.splits)

end
