(* ===== verification/Strings.thy ===== *)
theory Strings
  imports Prelude "HOL-Library.Sublist"
begin

text \<open>
  The operations on \<^verbatim>\<open>str\<close> the configuration, update and command code uses. A string is
  the list of the bytes of its UTF-8 form, as characters. Lower-casing is modelled on the ASCII
  letters: none of the words the code compares a lower-cased string with has a letter that is the
  lower case of a character outside ASCII.
\<close>

section \<open>Case, prefixes and substrings\<close>

definition ascii_lower :: "char \<Rightarrow> char" where
  "ascii_lower c = (let n = of_char c :: nat in if 65 \<le> n \<and> n \<le> 90 then char_of (n + 32) else c)"

definition to_lowercase :: "string \<Rightarrow> string" where
  "to_lowercase s = map ascii_lower s"

definition strip_prefix :: "char \<Rightarrow> string \<Rightarrow> string option" where
  "strip_prefix c s = (case s of x # xs \<Rightarrow> if x = c then Some xs else None | [] \<Rightarrow> None)"

fun str_contains :: "string \<Rightarrow> string \<Rightarrow> bool" where
  "str_contains [] pat = (pat = [])"
| "str_contains (c # s) pat = (prefix pat (c # s) \<or> str_contains s pat)"

lemma str_contains_iff: "str_contains s pat \<longleftrightarrow> sublist pat s"
  by (induction s) (auto simp: sublist_Cons_right)

section \<open>Splitting and trimming\<close>

fun str_split :: "char \<Rightarrow> string \<Rightarrow> string list" where
  "str_split sep [] = [[]]"
| "str_split sep (c # s) =
     (case str_split sep s of
        x # xs \<Rightarrow> if c = sep then [] # x # xs else (c # x) # xs
      | [] \<Rightarrow> [])"

lemma str_split_not_Nil [simp]: "str_split sep s \<noteq> []"
  by (induction s) (auto split: list.splits)

lemma str_split_no_sep: "sep \<notin> set s \<Longrightarrow> str_split sep s = [s]"
  by (induction s) auto

lemma str_split_append: "sep \<notin> set s \<Longrightarrow> str_split sep (s @ sep # t) = s # str_split sep t"
proof (induction s)
  case Nil
  then show ?case by (cases "str_split sep t") auto
qed auto

text \<open>The white space characters of Unicode, in UTF-8.\<close>

definition white_space :: "string list" where
  "white_space = map (map char_of :: nat list \<Rightarrow> string)
     ([[9], [10], [11], [12], [13], [32], [0xC2, 0x85], [0xC2, 0xA0], [0xE1, 0x9A, 0x80]] @
      map (\<lambda>b. [0xE2, 0x80, b]) ([0x80..<0x8B] @ [0xA8, 0xA9, 0xAF]) @
      [[0xE2, 0x81, 0x9F], [0xE3, 0x80, 0x80]])"

text \<open>Removing one character of white space, if there is one in front.\<close>

definition skip_space :: "string list \<Rightarrow> string \<Rightarrow> string option" where
  "skip_space ws s = map_option (\<lambda>w. drop (length w) s) (find (\<lambda>w. w \<noteq> [] \<and> prefix w s) ws)"

lemma skip_space_shorter [termination_simp]:
  "skip_space ws s = Some s' \<Longrightarrow> length s' < length s"
  by (auto simp: skip_space_def find_Some_iff dest!: prefix_length_le) (metis diff_less length_greater_0_conv
      less_le_trans nth_mem)

fun trim_with :: "string list \<Rightarrow> string \<Rightarrow> string" where
  "trim_with ws s = (case skip_space ws s of Some s' \<Rightarrow> trim_with ws s' | None \<Rightarrow> s)"

declare trim_with.simps [simp del]

definition trim :: "string \<Rightarrow> string" where
  "trim s = rev (trim_with (map rev white_space) (rev (trim_with white_space s)))"

section \<open>Decimal numbers\<close>

text \<open>The digits of an unsigned 64 bit number; every step is checked for overflow.\<close>

definition digit_of :: "u8 \<Rightarrow> nat option" where
  "digit_of b = (if 48 \<le> b \<and> b \<le> 57 then Some (unat b - 48) else None)"

fun parse_digits :: "nat \<Rightarrow> bytes \<Rightarrow> nat option" where
  "parse_digits acc [] = Some acc"
| "parse_digits acc (b # bs) =
     (case digit_of b of
        None \<Rightarrow> None
      | Some d \<Rightarrow> let n = acc * 10 in
          if 2 ^ 64 \<le> n then None
          else if 2 ^ 64 \<le> n + d then None else parse_digits (n + d) bs)"

definition parse_u64 :: "bytes \<Rightarrow> u64 option" where
  "parse_u64 s =
     (case s of
        [] \<Rightarrow> None
      | b # bs \<Rightarrow>
          let digits = (if b = 43 then bs else s) in
          if digits = [] then None else map_option of_nat (parse_digits 0 digits))"

text \<open>The number a list of digits stands for, read at once.\<close>

definition push_digit :: "nat \<Rightarrow> u8 \<Rightarrow> nat" where
  "push_digit n b = n * 10 + (unat b - 48)"

definition decimal_value :: "bytes \<Rightarrow> nat" where
  "decimal_value ds = foldl push_digit 0 ds"

definition all_digits :: "bytes \<Rightarrow> bool" where
  "all_digits ds \<longleftrightarrow> ds \<noteq> [] \<and> (\<forall>b \<in> set ds. 48 \<le> b \<and> b \<le> 57)"

lemma foldl_push_digit_ge: "n \<le> foldl push_digit n ds"
proof (induction ds arbitrary: n)
  case (Cons d ds)
  have "n \<le> push_digit n d" by (simp add: push_digit_def)
  also have "\<dots> \<le> foldl push_digit (push_digit n d) ds" by (rule Cons)
  finally show ?case by simp
qed simp

lemma parse_digits_Cons:
  "parse_digits n (b # bs) =
     (if 48 \<le> b \<and> b \<le> 57 \<and> push_digit n b < 2 ^ 64 then parse_digits (push_digit n b) bs else None)"
proof (cases "48 \<le> b \<and> b \<le> 57")
  case True
  then have "48 \<le> unat b" by (auto simp: word_le_nat_alt)
  then show ?thesis using True by (auto simp: digit_of_def push_digit_def Let_def)
qed (auto simp: digit_of_def)

lemma parse_digits_eq:
  "parse_digits n ds =
     (if (\<forall>b \<in> set ds. 48 \<le> b \<and> b \<le> 57) \<and> (ds = [] \<or> foldl push_digit n ds < 2 ^ 64)
      then Some (foldl push_digit n ds) else None)"
proof (induction ds arbitrary: n)
  case (Cons d ds)
  show ?case
    unfolding parse_digits_Cons Cons.IH
    using foldl_push_digit_ge [of "push_digit n d" ds] by (cases ds) auto
qed simp

lemma parse_u64_digits:
  assumes "all_digits ds"
  shows "parse_u64 ds = (if decimal_value ds < 2 ^ 64 then Some (of_nat (decimal_value ds)) else None)"
proof -
  obtain b bs where d: "ds = b # bs" using assms by (cases ds) (auto simp: all_digits_def)
  have "48 \<le> b" "b \<le> 57" using assms by (auto simp: all_digits_def d)
  then have "b \<noteq> 43" by auto
  moreover have "parse_digits 0 ds = (if decimal_value ds < 2 ^ 64 then Some (decimal_value ds) else None)"
    using assms unfolding parse_digits_eq decimal_value_def all_digits_def Let_def by auto
  ultimately show ?thesis by (simp add: parse_u64_def d)
qed

lemma parse_u64_Some:
  assumes "parse_u64 s = Some v"
  shows "\<exists>ds. (s = ds \<or> s = 43 # ds) \<and> all_digits ds \<and> decimal_value ds < 2 ^ 64 \<and> v = of_nat (decimal_value ds)"
proof -
  from assms obtain b bs where s: "s = b # bs" by (cases s) (auto simp: parse_u64_def)
  define ds where "ds = (if b = 43 then bs else s)"
  have "ds \<noteq> []" "parse_digits 0 ds = Some (decimal_value ds)" "v = of_nat (decimal_value ds)"
    "(\<forall>b \<in> set ds. 48 \<le> b \<and> b \<le> 57)" "decimal_value ds < 2 ^ 64"
    using assms by (auto simp: parse_u64_def s ds_def parse_digits_eq decimal_value_def Let_def split: if_splits)
  moreover have "s = ds \<or> s = 43 # ds" by (auto simp: ds_def s)
  ultimately show ?thesis unfolding all_digits_def by blast
qed

text \<open>Printing a natural number.\<close>

fun print_nat :: "nat \<Rightarrow> string" where
  "print_nat n = (if n < 10 then [char_of (48 + n)] else print_nat (n div 10) @ [char_of (48 + n mod 10)])"

declare print_nat.simps [simp del]

text \<open>Printing a natural number in base 16, with lower case letters.\<close>

definition hex_digit :: "nat \<Rightarrow> char" where
  "hex_digit d = char_of (if d < 10 then 48 + d else 87 + d)"

fun print_hex :: "nat \<Rightarrow> string" where
  "print_hex n = (if n < 16 then [hex_digit n] else print_hex (n div 16) @ [hex_digit (n mod 16)])"

declare print_hex.simps [simp del]

definition str_bytes :: "string \<Rightarrow> bytes" where
  "str_bytes s = map (\<lambda>c. word_of_nat (of_char c)) s"

lemma str_bytes_simps [simp]:
  "str_bytes [] = []" "str_bytes (c # s) = word_of_nat (of_char c) # str_bytes s"
  "str_bytes (s @ t) = str_bytes s @ str_bytes t"
  by (simp_all add: str_bytes_def)

text \<open>What is printed is read back.\<close>

lemma digit_byte:
  assumes "d < 10"
  shows "unat (48 + word_of_nat d :: u8) = 48 + d" "48 \<le> (48 + word_of_nat d :: u8)" "(48 + word_of_nat d :: u8) \<le> 57"
proof -
  have "unat (48 + word_of_nat d :: u8) = unat (word_of_nat (48 + d) :: u8)" by simp
  then show *: "unat (48 + word_of_nat d :: u8) = 48 + d" using assms by (simp only: unat_of_nat) simp
  then show "48 \<le> (48 + word_of_nat d :: u8)" "(48 + word_of_nat d :: u8) \<le> 57"
    using assms by (simp_all add: word_le_nat_alt)
qed

lemma all_digits_print_nat: "all_digits (str_bytes (print_nat n))"
proof (induction n rule: print_nat.induct)
  case (1 n)
  then show ?case
    by (subst print_nat.simps) (auto simp: all_digits_def digit_byte)
qed

lemma decimal_value_print_nat: "decimal_value (str_bytes (print_nat n)) = n"
proof (induction n rule: print_nat.induct)
  case (1 n)
  then show ?case
    by (subst print_nat.simps) (auto simp: decimal_value_def push_digit_def digit_byte)
qed

theorem parse_print_nat: "n < 2 ^ 64 \<Longrightarrow> parse_u64 (str_bytes (print_nat n)) = Some (of_nat n)"
  by (simp add: parse_u64_digits [OF all_digits_print_nat] decimal_value_print_nat)

lemma print_nat_inject: "print_nat m = print_nat n \<longleftrightarrow> m = n"
  by (metis decimal_value_print_nat)

lemma dot_notin_print_nat: "CHR ''.'' \<notin> set (print_nat n)"
proof
  assume "CHR ''.'' \<in> set (print_nat n)"
  then have "46 \<in> set (str_bytes (print_nat n))" by (force simp: str_bytes_def)
  then show False using all_digits_print_nat [of n] by (auto simp: all_digits_def)
qed

section \<open>Base 64\<close>

text \<open>
  The trait \<^verbatim>\<open>Base64\<close> (\<^verbatim>\<open>src/traits/base64.rs\<close>). The encoder is the crate
  \<^verbatim>\<open>base64\<close>'s; the trait chooses its alphabet and padding.
\<close>

datatype b64_config = B64_STANDARD | B64_URL_SAFE_NO_PAD

type_synonym b64_encoder = "bytes \<Rightarrow> b64_config \<Rightarrow> string"

definition to_b64url :: "b64_encoder \<Rightarrow> bytes \<Rightarrow> string" where
  "to_b64url encode_config bs = encode_config bs B64_URL_SAFE_NO_PAD"

definition to_b64 :: "b64_encoder \<Rightarrow> bytes \<Rightarrow> string" where
  "to_b64 encode_config bs = encode_config bs B64_STANDARD"

section \<open>Paths\<close>

text \<open>
  Paths on Unix, for paths without \<^verbatim>\<open>.\<close> components. A path has a parent unless it is empty or
  the root.
\<close>

definition path_join :: "string \<Rightarrow> string \<Rightarrow> string" where
  "path_join base p =
     (if prefix ''/'' p then p
      else if base = [] \<or> last base = CHR ''/'' then base @ p
      else base @ ''/'' @ p)"

definition strip_slashes :: "string \<Rightarrow> string" where
  "strip_slashes s = rev (dropWhile (\<lambda>c. c = CHR ''/'') (rev s))"

definition path_parent :: "string \<Rightarrow> string option" where
  "path_parent s =
     (let s = strip_slashes s in
      if s = [] then None
      else
        let d = rev (dropWhile (\<lambda>c. c \<noteq> CHR ''/'') (rev s)) in
        if d = [] then Some []
        else let d = strip_slashes d in Some (if d = [] then ''/'' else d))"

end
