(* ===== verification/Error_Display.thy ===== *)
theory Error_Display
  imports Errors Strings
begin

text \<open>
  The messages of the errors, as the attributes of the types of \<^verbatim>\<open>src/error.rs\<close> and
  \<^verbatim>\<open>beacon/src/error.rs\<close> and the formatter of \<^verbatim>\<open>lorawan/src/error.rs\<close> give them.
\<close>

section \<open>The codec of frames\<close>

text \<open>The name the derived formatter prints.\<close>

fun MType_debug :: "MType \<Rightarrow> string" where
  "MType_debug MT_JoinRequest = ''JoinRequest''"
| "MType_debug MT_JoinAccept = ''JoinAccept''"
| "MType_debug MT_UnconfirmedUp = ''UnconfirmedUp''"
| "MType_debug MT_UnconfirmedDown = ''UnconfirmedDown''"
| "MType_debug MT_ConfirmedUp = ''ConfirmedUp''"
| "MType_debug MT_ConfirmedDown = ''ConfirmedDown''"
| "MType_debug MT_Proprietary = ''Proprietary''"
| "MType_debug (MT_Invalid v) = ''Invalid('' @ print_nat (unat v) @ '')''"

text \<open>The standard library's message of the one error that reading from memory gives.\<close>

fun io_error_display :: "io_error \<Rightarrow> string" where
  "io_error_display UnexpectedEof = ''failed to fill whole buffer''"

text \<open>The width of \<^verbatim>\<open>{:#02x}\<close> counts the prefix, so that nothing is padded.\<close>

fun lorawan_error_display :: "LoraWanError \<Rightarrow> string" where
  "lorawan_error_display (InvalidPacketType v) = ''Invalid packet type: 0x'' @ print_hex (unat v)"
| "lorawan_error_display InvalidFPortForFopts = ''Invalid: fport 0 with fopts''"
| "lorawan_error_display (InvalidPacketSize mtype s) =
     ''Invalid packet size '' @ print_nat s @ '' for type '' @ MType_debug mtype"
| "lorawan_error_display (LoraWan_Io e) = io_error_display e"

section \<open>The gateway and its beacons\<close>

fun beacon_error_display :: "beacon_error \<Rightarrow> string" where
  "beacon_error_display (BE_SystemTime e) = ''system time''"
| "beacon_error_display BE_NoRegionParams = ''no applicable region plan''"
| "beacon_error_display BE_InvalidVersion = ''invalid beacon version''"

fun encode_error_display :: "EncodeError \<Rightarrow> string" where
  "encode_error_display (EE_Prost e) = ''protobuf encode''"

fun decode_error_display :: "DecodeError \<Rightarrow> string" where
  "decode_error_display (DE_Uri e) = ''uri decode''"
| "decode_error_display (DE_KeypairUri msg) = ''keypair uri: '' @ msg"
| "decode_error_display (DE_Json e) = ''json decode''"
| "decode_error_display (DE_Base64 e) = ''base64 decode''"
| "decode_error_display (DE_Addr e) = ''network address decode''"
| "decode_error_display (DE_Prost e) = ''protobuf decode''"
| "decode_error_display (DE_LoraWan e) = ''lorawan decode''"
| "decode_error_display (DE_LfcError e) = ''longfi error''"
| "decode_error_display (DE_Semtech e) = ''semtech decode''"
| "decode_error_display DE_InvalidCrc = ''packet crc''"
| "decode_error_display DE_InvalidEnvelope = ''unexpected transaction in envelope''"

fun region_error_display :: "RegionError \<Rightarrow> string" where
  "region_error_display RE_NoRegionParams = ''no region params found or active''"

fun service_error_display :: "ServiceError \<Rightarrow> string" where
  "service_error_display (SE_Service e) = ''service '' @ e"
| "service_error_display (SE_Rpc e) = ''rpc '' @ e"
| "service_error_display SE_Stream = ''stream closed''"
| "service_error_display SE_Channel = ''channel closed''"
| "service_error_display SE_NoService = ''no service''"
| "service_error_display (SE_Check block_age max_age) =
     ''block age '' @ print_nat (unat block_age) @ ''s > '' @ print_nat (unat max_age) @ ''s''"
| "service_error_display (SE_LocalClientConnect e) =
     ''Unable to connect to local server. Check that `helium_gateway` is running.''"

fun error_display :: "gw_error \<Rightarrow> string" where
  "error_display (Error_Config e) = ''config error''"
| "error_display (Error_Custom s) = ''custom error''"
| "error_display (Error_IO e) = ''io error''"
| "error_display (Error_CryptoError e) = ''crypto error''"
| "error_display (Error_Encode e) = ''encode error''"
| "error_display (Error_Decode e) = ''decode error''"
| "error_display (Error_Service e) = ''service error: '' @ service_error_display e"
| "error_display (Error_Semtech e) = ''semtech udp error''"
| "error_display (Error_Beacon e) = ''beacon error''"
| "error_display (Error_Region e) = ''region error''"

end
