(* ===== verification/LoraWan_Wire.thy ===== *)
theory LoraWan_Wire
  imports LoraWan
begin

text \<open>
  What the frame codec is for: the LoRaWAN wire format stated independently of the code, the
  contract of a matching reader and writer (locale \<open>codec\<close>) with its instances, and the theorems
  that the readers of \<^verbatim>\<open>lorawan/src/lib.rs\<close> accept exactly that format, never panic, and
  how far the writers invert them.
\<close>

section \<open>Evaluation of the byte readers\<close>

lemma io_read_append [codec_simps]: "length xs = n \<Longrightarrow> io_read n (xs @ r) = Ok (xs, r)"
  by (simp add: io_read_def read_exact_append)

lemma io_read_Ok_iff: "io_read n r = Ok (xs, r') \<longleftrightarrow> r = xs @ r' \<and> length xs = n"
  by (simp add: io_read_def read_exact_Ok_iff)

lemma io_read_not_Panic [panic_free]: "io_read n r \<noteq> Panic"
  by (simp add: io_read_def panic_free)

lemma read_int_append [codec_simps]:
  "read_u8 (b # r) = Ok (b, r)"
  "read_u16_le (le_bytes 2 v16 @ r) = Ok (v16, r)"
  "read_u32_le (le_bytes 4 v32 @ r) = Ok (v32, r)"
  "read_u64_le (le_bytes 8 v64 @ r) = Ok (v64, r)"
  by (simp_all add: read_u16_le_def read_u32_le_def read_u64_le_def io_read_append)
    (simp add: read_u8_def io_read_def read_exact_def)

lemma read_u8_Ok_iff: "read_u8 r = Ok (b, r') \<longleftrightarrow> r = b # r'"
  by (cases r) (auto simp: read_u8_def io_read_def read_exact_def)

lemma read_u16_le_Ok_iff: "read_u16_le r = Ok (v, r') \<longleftrightarrow> r = le_bytes 2 v @ r'"
  by (auto simp: read_u16_le_def map_ok_Ok_iff io_read_Ok_iff)

lemma read_u32_le_Ok_iff: "read_u32_le r = Ok (v, r') \<longleftrightarrow> r = le_bytes 4 v @ r'"
  by (auto simp: read_u32_le_def map_ok_Ok_iff io_read_Ok_iff)

lemma read_u64_le_Ok_iff: "read_u64_le r = Ok (v, r') \<longleftrightarrow> r = le_bytes 8 v @ r'"
  by (auto simp: read_u64_le_def map_ok_Ok_iff io_read_Ok_iff)

lemmas read_int_Ok_iffs = io_read_Ok_iff read_u8_Ok_iff read_u16_le_Ok_iff read_u32_le_Ok_iff
  read_u64_le_Ok_iff

lemma read_int_not_Panic [panic_free]:
  "read_u8 r \<noteq> Panic" "read_u16_le r \<noteq> Panic" "read_u32_le r \<noteq> Panic" "read_u64_le r \<noteq> Panic"
  by (simp_all add: read_u8_def read_u16_le_def read_u32_le_def read_u64_le_def io_read_not_Panic)

section \<open>The contract of a codec\<close>

text \<open>
  A reader and a writer that belong together: the writer appends the same bytes to any output
  and reports how many, the reader takes exactly those bytes back, and whatever the reader
  accepts is what the writer would have produced.
\<close>

locale codec =
  fixes rd :: "bytes \<Rightarrow> (LoraWanError, 'a \<times> bytes) rresult"
    and wr :: "'a \<Rightarrow> bytes \<Rightarrow> nat \<times> bytes"
    and wf :: "'a \<Rightarrow> bool"
  assumes wr_append: "wr x out = (length (snd (wr x [])), out @ snd (wr x []))"
    and rd_wr: "wf x \<Longrightarrow> rd (snd (wr x []) @ r) = Ok (x, r)"
    and rd_sound: "rd bs = Ok (x, r) \<Longrightarrow> wf x \<and> bs = snd (wr x []) @ r"
begin

lemma rd_Ok_iff: "rd bs = Ok (x, r) \<longleftrightarrow> wf x \<and> bs = snd (wr x []) @ r"
  using rd_sound rd_wr by blast

text \<open>Encodings are prefix free: a stream of them has one reading.\<close>

lemma prefix_free:
  assumes "wf x" and "wf y" and "snd (wr x []) @ r = snd (wr y []) @ s"
  shows "x = y \<and> r = s"
proof -
  have "rd (snd (wr x []) @ r) = rd (snd (wr y []) @ s)" by (rule arg_cong [OF assms(3)])
  then show ?thesis by (simp only: rd_wr assms(1,2) rresult.inject prod.inject)
qed

lemma wr_snd: "snd (wr x out) = out @ snd (wr x [])"
  by (subst wr_append) (rule snd_conv)

lemma wr_fst: "fst (wr x out) = length (snd (wr x []))"
  by (subst wr_append) (rule fst_conv)

lemma wr_inject: "wf x \<Longrightarrow> wf y \<Longrightarrow> snd (wr x out) = snd (wr y out) \<Longrightarrow> x = y"
  using prefix_free [of x y "[]" "[]"] by (simp add: wr_snd [of _ out])

end

lemmas lora_write_defs = io_write_def JoinRequest_write_def JoinAccept_write_def Fhdr_write_def
  MACPayload_write_def PHYPayload_write_def

interpretation mhdr_codec: codec MHDR_read MHDR_write "\<lambda>_. True"
proof (unfold_locales, goal_cases)
  case (1 x out) show ?case by (cases x) simp
next
  case (2 x r) show ?case by (cases x) (simp add: MHDR_read_def codec_simps)
next
  case (3 bs x r) then show ?case by (cases x) (auto simp: MHDR_read_def bind_r_Ok_iff read_u8_Ok_iff)
qed

fun FCtrl_dir :: "Direction \<Rightarrow> FCtrl \<Rightarrow> bool" where
  "FCtrl_dir Dir_Uplink (FCtrl_Uplink _) = True"
| "FCtrl_dir Dir_Downlink (FCtrl_Downlink _) = True"
| "FCtrl_dir _ _ = False"

interpretation fctrl_uplink_codec: codec FCtrlUplink_read FCtrlUplink_write "\<lambda>_. True"
proof (unfold_locales, goal_cases)
  case (1 x out) show ?case by (cases x) simp
next
  case (2 x r) show ?case by (cases x) (simp add: FCtrlUplink_read_def codec_simps)
next
  case (3 bs x r) then show ?case
    by (cases x) (auto simp: FCtrlUplink_read_def bind_r_Ok_iff read_u8_Ok_iff)
qed

interpretation fctrl_downlink_codec: codec FCtrlDownlink_read FCtrlDownlink_write "\<lambda>_. True"
proof (unfold_locales, goal_cases)
  case (1 x out) show ?case by (cases x) simp
next
  case (2 x r) show ?case by (cases x) (simp add: FCtrlDownlink_read_def codec_simps)
next
  case (3 bs x r) then show ?case
    by (cases x) (auto simp: FCtrlDownlink_read_def bind_r_Ok_iff read_u8_Ok_iff)
qed

interpretation fctrl_codec: codec "FCtrl_read d" FCtrl_write "FCtrl_dir d" for d
proof (unfold_locales, goal_cases)
  case (1 x out)
  show ?case
    by (cases x) (auto intro: fctrl_uplink_codec.wr_append fctrl_downlink_codec.wr_append)
next
  case (2 x r) then show ?case
    by (cases "(d, x)" rule: FCtrl_dir.cases)
      (auto simp: fctrl_uplink_codec.rd_wr fctrl_downlink_codec.rd_wr)
next
  case (3 bs x r) then show ?case
    by (cases d) (auto simp: bind_r_Ok_iff fctrl_uplink_codec.rd_Ok_iff fctrl_downlink_codec.rd_Ok_iff)
qed

definition JoinRequest_wf :: "JoinRequest \<Rightarrow> bool" where
  "JoinRequest_wf j \<longleftrightarrow> length (dev_nonce j) = 2"

definition JoinAccept_wf :: "JoinAccept \<Rightarrow> bool" where
  "JoinAccept_wf j \<longleftrightarrow> length (app_nonce j) = 3 \<and> length (net_id j) = 3"

interpretation join_request_codec: codec JoinRequest_read JoinRequest_write JoinRequest_wf
proof (unfold_locales, goal_cases)
  case (1 x out) show ?case by (simp add: lora_write_defs)
next
  case (2 x r) then show ?case
    by (simp add: JoinRequest_read_def lora_write_defs JoinRequest_wf_def codec_simps)
next
  case (3 bs x r) then show ?case
    by (auto simp: JoinRequest_read_def lora_write_defs JoinRequest_wf_def bind_r_Ok_iff
        read_int_Ok_iffs)
qed

interpretation join_accept_codec: codec JoinAccept_read JoinAccept_write JoinAccept_wf
proof (unfold_locales, goal_cases)
  case (1 x out) show ?case by (simp add: lora_write_defs)
next
  case (2 x r) then show ?case
    by (simp add: JoinAccept_read_def lora_write_defs JoinAccept_wf_def codec_simps)
next
  case (3 bs x r) then show ?case
    by (auto simp: JoinAccept_read_def lora_write_defs JoinAccept_wf_def bind_r_Ok_iff
        read_int_Ok_iffs)
qed

section \<open>The wire format\<close>

text \<open>
  The frame format as the reader expects it, independent of the reader's code: which frames
  are well formed in a direction, and their bytes.
\<close>

definition Fhdr_wire :: "Fhdr \<Rightarrow> bytes" where
  "Fhdr_wire h =
     le_bytes 4 (dev_addr h) @ snd (FCtrl_write (fctrl h) []) @ le_bytes 2 (fcnt h) @ fopts h"

definition Fhdr_ok :: "Direction \<Rightarrow> Fhdr \<Rightarrow> bool" where
  "Fhdr_ok d h \<longleftrightarrow> FCtrl_dir d (fctrl h) \<and> length (fopts h) = unat (FCtrl_fopts_len (fctrl h))"

fun frm_type :: "FRMPayload \<Rightarrow> MType" where
  "frm_type (FRM_UnconfirmedUp p) = MT_UnconfirmedUp"
| "frm_type (FRM_UnconfirmedDown p) = MT_UnconfirmedDown"
| "frm_type (FRM_ConfirmedUp p) = MT_ConfirmedUp"
| "frm_type (FRM_ConfirmedDown p) = MT_ConfirmedDown"

definition data_type :: "MType \<Rightarrow> bool" where
  "data_type t \<longleftrightarrow> t \<in> {MT_UnconfirmedUp, MT_UnconfirmedDown, MT_ConfirmedUp, MT_ConfirmedDown}"

definition MACPayload_tail :: "MACPayload \<Rightarrow> bytes" where
  "MACPayload_tail m =
     (case fport m of Some fp \<Rightarrow> [fp] | None \<Rightarrow> []) @
     (case frm_payload m of Some p \<Rightarrow> snd (FRMPayload_write p []) | None \<Rightarrow> [])"

definition MACPayload_ok :: "MType \<Rightarrow> Direction \<Rightarrow> MACPayload \<Rightarrow> bool" where
  "MACPayload_ok t d m \<longleftrightarrow>
     Fhdr_ok d (fhdr m) \<and>
     (case (fport m, frm_payload m) of
        (None, None) \<Rightarrow> True
      | (Some port, Some p) \<Rightarrow> frm_type p = t \<and> (port = 0 \<longrightarrow> FCtrl_fopts_len (fctrl (fhdr m)) = 0)
      | _ \<Rightarrow> False)"

fun Frame_wire :: "PHYPayloadFrame \<Rightarrow> bytes" where
  "Frame_wire (Frame_MACPayload m) = Fhdr_wire (fhdr m) @ MACPayload_tail m"
| "Frame_wire (Frame_JoinRequest j) = snd (JoinRequest_write j [])"
| "Frame_wire (Frame_JoinAccept j) = snd (JoinAccept_write j [])"
| "Frame_wire (Frame_Proprietary v) = v"

definition mic_wire :: "PHYPayload \<Rightarrow> bytes" where
  "mic_wire p = (case mic p of Some m \<Rightarrow> m | None \<Rightarrow> [])"

definition mic_ok :: "PHYPayload \<Rightarrow> bool" where
  "mic_ok p \<longleftrightarrow> (case mic p of Some m \<Rightarrow> length m = 4 | None \<Rightarrow> False)"

definition PHYPayload_ok :: "Direction \<Rightarrow> PHYPayload \<Rightarrow> bool" where
  "PHYPayload_ok d p \<longleftrightarrow>
     (case phy_payload p of
        Frame_MACPayload m \<Rightarrow>
          data_type (PHYPayload_mtype p) \<and> MACPayload_ok (PHYPayload_mtype p) d m \<and> mic_ok p
      | Frame_JoinRequest j \<Rightarrow> PHYPayload_mtype p = MT_JoinRequest \<and> JoinRequest_wf j \<and> mic_ok p
      | Frame_JoinAccept j \<Rightarrow> PHYPayload_mtype p = MT_JoinAccept \<and> JoinAccept_wf j \<and> mic_ok p
      | Frame_Proprietary v \<Rightarrow>
          PHYPayload_mtype p = MT_Proprietary \<and> mic p = None \<and> DATA_MIN_LEN \<le> length v + 1)"

text \<open>A join accept may carry a 16 byte channel list, which the model of the frame drops.\<close>

definition cflist_ok :: "PHYPayloadFrame \<Rightarrow> bytes \<Rightarrow> bool" where
  "cflist_ok f cf \<longleftrightarrow> cf = [] \<or> length cf = 16 \<and> (case f of Frame_JoinAccept _ \<Rightarrow> True | _ \<Rightarrow> False)"

definition PHYPayload_wire :: "PHYPayload \<Rightarrow> bytes \<Rightarrow> bytes" where
  "PHYPayload_wire p cf =
     snd (MHDR_write (mhdr p) []) @ Frame_wire (phy_payload p) @ cf @ mic_wire p"

section \<open>Readers implement the wire format\<close>

lemma FCtrl_write_length [simp]: "length (snd (FCtrl_write c [])) = 1"
proof (cases c)
  case (FCtrl_Uplink u) then show ?thesis by (cases u) simp
next
  case (FCtrl_Downlink u) then show ?thesis by (cases u) simp
qed

lemma Fhdr_read_Ok_iff: "Fhdr_read d bs = Ok (h, r) \<longleftrightarrow> Fhdr_ok d h \<and> bs = Fhdr_wire h @ r"
  by (cases h)
    (auto simp: Fhdr_read_def bind_r_Ok_iff read_int_Ok_iffs fctrl_codec.rd_Ok_iff Fhdr_ok_def
      Fhdr_wire_def)

lemma Fhdr_write_eq:
  "Fhdr_write h out = (length (Fhdr_wire h), out @ le_bytes 4 (dev_addr h) @ Fhdr_wire h)"
  by (simp add: Fhdr_write_def io_write_def Fhdr_wire_def fctrl_codec.wr_append [of _ "out @ _"])

lemma FRMPayload_write_eq:
  "FRMPayload_write p out = (length (snd (FRMPayload_write p [])), out @ snd (FRMPayload_write p []))"
proof -
  have "Payload_write q out = (length (snd (Payload_write q [])), out @ snd (Payload_write q []))" for q
    by (cases q) (simp add: io_write_def)
  then show ?thesis by (cases p) auto
qed

lemma FRMPayload_read_Ok_iff:
  "data_type t \<Longrightarrow>
   FRMPayload_read t bs = Ok (p, r) \<longleftrightarrow> r = [] \<and> frm_type p = t \<and> bs = snd (FRMPayload_write p [])"
proof -
  have pl: "Payload_read bs = Ok (q, r) \<longleftrightarrow> r = [] \<and> bs = snd (Payload_write q [])" for q bs r
    by (cases q) (auto simp: Payload_read_def io_write_def)
  show "data_type t \<Longrightarrow> ?thesis"
    by (cases p) (auto simp: data_type_def bind_r_Ok_iff pl)
qed

lemma MACPayload_write_eq:
  "MACPayload_write m out =
     (length (Fhdr_wire (fhdr m) @ MACPayload_tail m),
      out @ le_bytes 4 (dev_addr (fhdr m)) @ Fhdr_wire (fhdr m) @ MACPayload_tail m)"
  by (cases "frm_payload m"; cases "fport m")
    (simp_all add: MACPayload_write_def Fhdr_write_eq MACPayload_tail_def Let_def
      FRMPayload_write_eq [of _ "out @ _"])

lemma MACPayload_read_Ok_iff:
  assumes t: "data_type t"
  shows "MACPayload_read t d bs = Ok (m, r) \<longleftrightarrow>
    r = [] \<and> MACPayload_ok t d m \<and> bs = Fhdr_wire (fhdr m) @ MACPayload_tail m"
    (is "?read \<longleftrightarrow> ?spec")
proof
  assume r: ?read
  then obtain h data where hd: "Fhdr_ok d h" "bs = Fhdr_wire h @ data"
    by (auto simp: MACPayload_read_def bind_r_Ok_iff Fhdr_read_Ok_iff)
  then have "Fhdr_read d bs = Ok (h, data)" by (simp add: Fhdr_read_Ok_iff)
  with r hd t show ?spec
    by (cases data) (auto simp: MACPayload_read_def bind_r_Ok_iff FRMPayload_read_Ok_iff
        MACPayload_ok_def MACPayload_tail_def word_gt_0 split: if_splits)
next
  assume s: ?spec
  obtain h port pl where m: "m = \<lparr>fhdr = h, fport = port, frm_payload = pl\<rparr>" by (cases m)
  have fr: "Fhdr_read d bs = Ok (h, MACPayload_tail m)"
    using s m by (simp add: Fhdr_read_Ok_iff MACPayload_ok_def)
  show ?read
  proof (cases port)
    case None
    with s m have "pl = None" by (auto simp: MACPayload_ok_def split: option.splits)
    with None s m fr show ?thesis by (simp add: MACPayload_read_def MACPayload_tail_def)
  next
    case (Some fp)
    with s m obtain p where p: "pl = Some p" "frm_type p = t"
      by (auto simp: MACPayload_ok_def split: option.splits)
    then have "FRMPayload_read t (snd (FRMPayload_write p [])) = Ok (p, [])"
      using t by (simp add: FRMPayload_read_Ok_iff)
    with Some p s m fr show ?thesis
      by (auto simp: MACPayload_read_def MACPayload_ok_def MACPayload_tail_def)
  qed
qed

lemma PHYPayloadFrame_read_data:
  "data_type t \<Longrightarrow> PHYPayloadFrame_read d t r =
     bind_r (MACPayload_read t d r) (\<lambda>(m, r). Ok (Frame_MACPayload m, r))"
  by (auto simp: data_type_def)

lemma PHYPayload_read_Cons:
  "PHYPayload_read d (h # data) =
     (let t = MHDR_mtype (MHDR h); n = Suc (length data) in
      if invalid_size t n then Err (InvalidPacketSize t n)
      else case t of
        MT_Invalid s \<Rightarrow> Err (InvalidPacketType s)
      | _ \<Rightarrow> bind_r (split_mic t data) (\<lambda>(data, m).
              bind_r (PHYPayloadFrame_read d t data) (\<lambda>(frame, _).
              Ok \<lparr>mhdr = MHDR h, phy_payload = frame, mic = m\<rparr>)))"
  by (simp add: PHYPayload_read_def MHDR_read_def codec_simps)

lemma PHYPayload_read_Nil: "PHYPayload_read d [] = Err (LoraWan_Io UnexpectedEof)"
  by (simp add: PHYPayload_read_def MHDR_read_def read_u8_def io_read_def read_exact_def)

text \<open>Splitting off the integrity code, when the size check has passed.\<close>

lemma split_mic_Ok_iff:
  "t \<noteq> MT_Proprietary \<Longrightarrow>
   split_mic t data = Ok (body, m) \<longleftrightarrow> (\<exists>c. m = Some c \<and> length c = 4 \<and> data = body @ c)"
  by (auto simp: split_mic_def)

lemma JoinRequest_wire_length: "JoinRequest_wf j \<Longrightarrow> length (snd (JoinRequest_write j [])) = 18"
  by (simp add: JoinRequest_wf_def lora_write_defs)

lemma JoinAccept_wire_length: "JoinAccept_wf j \<Longrightarrow> length (snd (JoinAccept_write j [])) = 12"
  by (simp add: JoinAccept_wf_def lora_write_defs)

lemma Fhdr_wire_length: "length (Fhdr_wire h) = 7 + length (fopts h)"
  by (simp add: Fhdr_wire_def)

section \<open>Panic freedom\<close>

lemma FCtrl_read_not_Panic [panic_free]: "FCtrl_read d r \<noteq> Panic"
  by (cases d) (auto simp: FCtrlUplink_read_def FCtrlDownlink_read_def bind_r_Panic_iff panic_free)

lemma Fhdr_read_not_Panic [panic_free]: "Fhdr_read d r \<noteq> Panic"
  by (auto simp: Fhdr_read_def bind_r_Panic_iff panic_free)

lemma join_read_not_Panic [panic_free]: "JoinRequest_read r \<noteq> Panic" "JoinAccept_read r \<noteq> Panic"
  by (auto simp: JoinRequest_read_def JoinAccept_read_def bind_r_Panic_iff panic_free)

lemma FRMPayload_read_not_Panic [panic_free]: "data_type t \<Longrightarrow> FRMPayload_read t r \<noteq> Panic"
  by (auto simp: data_type_def Payload_read_def)

lemma MACPayload_read_not_Panic [panic_free]: "data_type t \<Longrightarrow> MACPayload_read t d r \<noteq> Panic"
  by (auto simp: MACPayload_read_def bind_r_Panic_iff panic_free split: list.splits if_splits)

lemma PHYPayloadFrame_read_not_Panic [panic_free]:
  "\<forall>v. t \<noteq> MT_Invalid v \<Longrightarrow> PHYPayloadFrame_read d t r \<noteq> Panic"
  by (cases t) (auto simp: bind_r_Panic_iff panic_free data_type_def)

section \<open>The frame reader and writer against the wire format\<close>

lemma PHYPayload_read_join_request:
  "PHYPayload_mtype p = MT_JoinRequest \<Longrightarrow> mhdr p = MHDR h \<Longrightarrow>
   PHYPayload_read d (h # data) = Ok p \<longleftrightarrow>
     (\<exists>j. phy_payload p = Frame_JoinRequest j \<and> JoinRequest_wf j \<and> mic_ok p \<and>
          data = snd (JoinRequest_write j []) @ mic_wire p)"
  by (cases p) (auto simp: PHYPayload_read_Cons PHYPayload_mtype_def bind_r_Ok_iff split_mic_Ok_iff
      join_request_codec.rd_Ok_iff mic_ok_def mic_wire_def len_consts JoinRequest_wire_length
      split: option.splits)

lemma PHYPayload_read_join_accept:
  "PHYPayload_mtype p = MT_JoinAccept \<Longrightarrow> mhdr p = MHDR h \<Longrightarrow>
   PHYPayload_read d (h # data) = Ok p \<longleftrightarrow>
     (\<exists>j cf. phy_payload p = Frame_JoinAccept j \<and> JoinAccept_wf j \<and> mic_ok p \<and>
          (cf = [] \<or> length cf = 16) \<and> data = snd (JoinAccept_write j []) @ cf @ mic_wire p)"
  by (cases p) (auto simp: PHYPayload_read_Cons PHYPayload_mtype_def bind_r_Ok_iff split_mic_Ok_iff
      join_accept_codec.rd_Ok_iff mic_ok_def mic_wire_def len_consts JoinAccept_wire_length
      split: option.splits)

lemma PHYPayload_read_proprietary:
  "PHYPayload_mtype p = MT_Proprietary \<Longrightarrow> mhdr p = MHDR h \<Longrightarrow>
   PHYPayload_read d (h # data) = Ok p \<longleftrightarrow>
     phy_payload p = Frame_Proprietary data \<and> mic p = None \<and> DATA_MIN_LEN \<le> length data + 1"
  by (cases p) (auto simp: PHYPayload_read_Cons PHYPayload_mtype_def split_mic_def)

lemma PHYPayload_read_data:
  assumes "data_type (PHYPayload_mtype p)" and "mhdr p = MHDR h"
  shows "PHYPayload_read d (h # data) = Ok p \<longleftrightarrow>
     (\<exists>m. phy_payload p = Frame_MACPayload m \<and> MACPayload_ok (PHYPayload_mtype p) d m \<and> mic_ok p \<and>
          data = Fhdr_wire (fhdr m) @ MACPayload_tail m @ mic_wire p)"
proof -
  let ?t = "PHYPayload_mtype p"
  have t: "?t = MHDR_mtype (MHDR h)" using assms(2) by (simp add: PHYPayload_mtype_def)
  have np: "?t \<noteq> MT_Proprietary" using assms(1) by (auto simp: data_type_def)
  have "PHYPayload_read d (h # data) =
     (if length data + 1 < DATA_MIN_LEN then Err (InvalidPacketSize ?t (length data + 1))
      else bind_r (split_mic ?t data) (\<lambda>(data, m).
           bind_r (MACPayload_read ?t d data) (\<lambda>(f, _).
           Ok \<lparr>mhdr = MHDR h, phy_payload = Frame_MACPayload f, mic = m\<rparr>)))"
    using assms(1) unfolding PHYPayload_read_Cons t [symmetric]
    by (auto simp: data_type_def bind_r_assoc case_prod_beta intro!: bind_r_cong)
  also have "\<dots> = Ok p \<longleftrightarrow> DATA_MIN_LEN \<le> length data + 1 \<and>
     (\<exists>m. phy_payload p = Frame_MACPayload m \<and> MACPayload_ok ?t d m \<and> mic_ok p \<and>
          data = Fhdr_wire (fhdr m) @ MACPayload_tail m @ mic_wire p)"
    using assms np by (cases p) (auto simp: bind_r_Ok_iff split_mic_Ok_iff MACPayload_read_Ok_iff mic_ok_def mic_wire_def
      split: option.splits)
  also have "\<dots> \<longleftrightarrow> (\<exists>m. phy_payload p = Frame_MACPayload m \<and> MACPayload_ok ?t d m \<and> mic_ok p \<and>
          data = Fhdr_wire (fhdr m) @ MACPayload_tail m @ mic_wire p)"
    by (auto simp: DATA_MIN_LEN_def Fhdr_wire_length mic_ok_def mic_wire_def split: option.splits)
  finally show ?thesis .
qed

lemma data_type_not_other:
  "data_type t \<longleftrightarrow> t \<noteq> MT_JoinRequest \<and> t \<noteq> MT_JoinAccept \<and> t \<noteq> MT_Proprietary \<and> (\<forall>v. t \<noteq> MT_Invalid v)"
  by (cases t) (auto simp: data_type_def)

lemma PHYPayload_read_invalid:
  "MHDR_mtype (MHDR h) = MT_Invalid v \<Longrightarrow> PHYPayload_read d (h # data) = Err (InvalidPacketType v)"
  by (simp add: PHYPayload_read_Cons)

lemma PHYPayload_read_mhdr: "PHYPayload_read d (h # data) = Ok p \<Longrightarrow> mhdr p = MHDR h"
  by (auto simp: PHYPayload_read_Cons Let_def bind_r_Ok_iff split: if_splits MType.splits)

text \<open>
  The reader accepts exactly the well-formed frames in their wire format, and returns the frame.
\<close>

lemma PHYPayload_read_Ok_wire:
  "PHYPayload_read d bs = Ok p \<longleftrightarrow>
     PHYPayload_ok d p \<and> (\<exists>cf. cflist_ok (phy_payload p) cf \<and> bs = PHYPayload_wire p cf)"
proof (cases bs)
  case Nil
  have "[] \<noteq> PHYPayload_wire p cf" for cf by (cases "mhdr p") (simp add: PHYPayload_wire_def)
  then show ?thesis unfolding Nil by (auto simp: PHYPayload_read_Nil)
next
  case (Cons h data)
  obtain w where w: "mhdr p = MHDR w" by (cases "mhdr p")
  have wire: "h # data = PHYPayload_wire p cf \<longleftrightarrow>
      h = w \<and> data = Frame_wire (phy_payload p) @ cf @ mic_wire p" for cf
    by (auto simp: PHYPayload_wire_def w)
  show ?thesis
  proof (cases "h = w")
    case False
    then show ?thesis using w unfolding Cons wire by (auto dest: PHYPayload_read_mhdr)
  next
    case True
    note w' = w [folded True]
    consider "PHYPayload_mtype p = MT_JoinRequest" | "PHYPayload_mtype p = MT_JoinAccept"
      | "PHYPayload_mtype p = MT_Proprietary" | v where "PHYPayload_mtype p = MT_Invalid v"
      | "data_type (PHYPayload_mtype p)"
      by (cases "PHYPayload_mtype p") (auto simp: data_type_def)
    then show ?thesis
    proof cases
      case 1
      show ?thesis unfolding Cons wire PHYPayload_read_join_request [OF 1 w']
        using 1 True by (auto simp: PHYPayload_ok_def cflist_ok_def data_type_def
            split: PHYPayloadFrame.splits)
    next
      case 2
      show ?thesis unfolding Cons wire PHYPayload_read_join_accept [OF 2 w']
        using 2 True by (auto simp: PHYPayload_ok_def cflist_ok_def data_type_def
            split: PHYPayloadFrame.splits)
    next
      case 3
      show ?thesis unfolding Cons wire PHYPayload_read_proprietary [OF 3 w']
        using 3 True by (auto simp: PHYPayload_ok_def cflist_ok_def data_type_def mic_wire_def
            split: PHYPayloadFrame.splits)
    next
      case 4
      then have "PHYPayload_read d (h # data) = Err (InvalidPacketType v)"
        by (intro PHYPayload_read_invalid) (simp add: PHYPayload_mtype_def w')
      with 4 show ?thesis unfolding Cons wire
        by (auto simp: PHYPayload_ok_def data_type_def split: PHYPayloadFrame.splits)
    next
      case 5
      show ?thesis unfolding Cons wire PHYPayload_read_data [OF 5 w']
        using 5 True by (auto simp: PHYPayload_ok_def cflist_ok_def data_type_not_other
            split: PHYPayloadFrame.splits)
    qed
  qed
qed

text \<open>What the writer emits, in terms of the same format.\<close>

definition repeated_dev_addr :: "PHYPayloadFrame \<Rightarrow> bytes" where
  "repeated_dev_addr f = (case f of Frame_MACPayload m \<Rightarrow> le_bytes 4 (dev_addr (fhdr m)) | _ \<Rightarrow> [])"

lemma PHYPayload_write_eq:
  "PHYPayload_write p out =
     (length (PHYPayload_wire p []),
      out @ snd (MHDR_write (mhdr p) []) @ repeated_dev_addr (phy_payload p) @
      Frame_wire (phy_payload p) @ mic_wire p)"
proof -
  have f: "PHYPayloadFrame_write f out =
      (length (Frame_wire f), out @ repeated_dev_addr f @ Frame_wire f)" for f out
    by (cases f) (simp_all add: repeated_dev_addr_def MACPayload_write_eq io_write_def
        join_request_codec.wr_append [of _ out] join_accept_codec.wr_append [of _ out])
  show ?thesis
    by (cases "mhdr p"; cases "mic p")
      (simp_all add: PHYPayload_write_def f PHYPayload_wire_def mic_wire_def io_write_def)
qed

text \<open>
  No byte string, in either direction, makes the frame reader panic: the subtraction before
  \<^verbatim>\<open>split_off\<close> never underflows and \<^verbatim>\<open>unreachable!()\<close> is never reached.
\<close>

lemma PHYPayload_read_not_Panic [panic_free]: "PHYPayload_read d bs \<noteq> Panic"
proof (cases bs)
  case Nil
  then show ?thesis by (simp add: PHYPayload_read_Nil)
next
  case (Cons h data)
  let ?t = "MHDR_mtype (MHDR h)"
  have "split_mic ?t data \<noteq> Panic" if "\<not> invalid_size ?t (Suc (length data))" "\<forall>v. ?t \<noteq> MT_Invalid v"
    using that by (cases ?t) (auto simp: split_mic_def len_consts)
  then show ?thesis
    unfolding Cons PHYPayload_read_Cons Let_def
    by (auto simp: bind_r_Panic_iff panic_free data_type_def simp del: MHDR_mtype.simps
        split: MType.splits)
qed

section \<open>Properties of the codec\<close>

text \<open>
  C1. The frame reader implements the wire format: for every direction and every byte string it
  returns a frame if and only if that frame is well formed in the direction and the bytes are its
  wire format, a join accept alone being allowed a 16 byte channel list before the integrity code.
\<close>

theorem PHYPayload_read_refines_wire:
  "PHYPayload_read d bs = Ok p \<longleftrightarrow>
     PHYPayload_ok d p \<and> (\<exists>cf. cflist_ok (phy_payload p) cf \<and> bs = PHYPayload_wire p cf)"
  by (rule PHYPayload_read_Ok_wire)

text \<open>
  C31. What is written for a frame that was read. Join requests, proprietary frames and join
  accepts without a channel list come back byte for byte, with their length as the reported
  count. A join accept with a channel list loses those 16 bytes. For a data frame the device
  address is emitted twice, so the output is four bytes longer than the input and than the
  count reported.
\<close>

theorem PHYPayload_write_after_read:
  assumes "PHYPayload_read d bs = Ok p"
  shows "PHYPayload_write p [] =
    (case phy_payload p of
       Frame_MACPayload _ \<Rightarrow> (length bs, take 5 bs @ drop 1 bs)
     | Frame_JoinAccept _ \<Rightarrow> (17, take 13 bs @ drop (length bs - 4) bs)
     | _ \<Rightarrow> (length bs, bs))"
proof -
  obtain cf where ok: "PHYPayload_ok d p" and cf: "cflist_ok (phy_payload p) cf"
    and bs: "bs = PHYPayload_wire p cf"
    using assms by (auto simp: PHYPayload_read_Ok_wire)
  obtain w where w: "mhdr p = MHDR w" by (cases "mhdr p")
  show ?thesis
  proof (cases "phy_payload p")
    case (Frame_MACPayload m)
    with cf have "cf = []" by (simp add: cflist_ok_def)
    with Frame_MACPayload show ?thesis
      by (simp add: PHYPayload_write_eq bs PHYPayload_wire_def w repeated_dev_addr_def Fhdr_wire_def)
  next
    case (Frame_JoinAccept j)
    with ok obtain m where "mic p = Some m" "length m = 4" "JoinAccept_wf j"
      by (auto simp: PHYPayload_ok_def mic_ok_def split: option.splits)
    moreover from this have "drop (13 + length cf) (w # snd (JoinAccept_write j []) @ cf @ m) = m"
      using drop_append_offset [of "w # snd (JoinAccept_write j [])" 13 "length cf" "cf @ m"]
      by (simp add: JoinAccept_wire_length)
    ultimately show ?thesis using Frame_JoinAccept
      by (simp add: PHYPayload_write_eq bs PHYPayload_wire_def w repeated_dev_addr_def mic_wire_def
          JoinAccept_wire_length)
  qed (use cf in \<open>auto simp: PHYPayload_write_eq bs PHYPayload_wire_def w repeated_dev_addr_def
      cflist_ok_def\<close>)
qed

theorem PHYPayload_write_after_read_witness:
  "PHYPayload_write \<lparr>mhdr = MHDR 0x40, phy_payload = Frame_MACPayload
       \<lparr>fhdr = \<lparr>dev_addr = 0x48000001, fctrl = FCtrl_Uplink (FCtrlUplink 0), fcnt = 7, fopts = []\<rparr>,
        fport = None, frm_payload = None\<rparr>, mic = Some [9, 8, 7, 6]\<rparr> [] =
     (12, [0x40, 1, 0, 0, 0x48, 1, 0, 0, 0x48, 0, 7, 0, 9, 8, 7, 6])"
proof -
  have "PHYPayload_read Dir_Uplink [0x40, 1, 0, 0, 0x48, 0, 7, 0, 9, 8, 7, 6] =
    Ok \<lparr>mhdr = MHDR 0x40, phy_payload = Frame_MACPayload
       \<lparr>fhdr = \<lparr>dev_addr = 0x48000001, fctrl = FCtrl_Uplink (FCtrlUplink 0), fcnt = 7, fopts = []\<rparr>,
        fport = None, frm_payload = None\<rparr>, mic = Some [9, 8, 7, 6]\<rparr>"
    by code_simp
  from PHYPayload_write_after_read [OF this] show ?thesis by simp
qed

lemma Fhdr_read_long:
  assumes "7 \<le> length bs"
  shows "\<exists>h. Fhdr_read d bs =
      (if length bs < 7 + unat (bit_range (bs ! 4) 3 0) then Err (LoraWan_Io UnexpectedEof)
       else Ok (h, drop (7 + unat (bit_range (bs ! 4) 3 0)) bs)) \<and>
     FCtrl_fopts_len (fctrl h) = bit_range (bs ! 4) 3 0"
proof -
  let ?n = "unat (bit_range (bs ! 4) 3 0)"
  obtain a0 a1 a2 a3 c n0 n1 r where bs: "bs = a0 # a1 # a2 # a3 # c # n0 # n1 # r"
    using assms by (auto simp: numeral_eq_Suc Suc_le_length_iff)
  let ?c = "case d of Dir_Uplink \<Rightarrow> FCtrl_Uplink (FCtrlUplink c) | Dir_Downlink \<Rightarrow> FCtrl_Downlink (FCtrlDownlink c)"
  have c: "FCtrl_read d (c # s) = Ok (?c, s)" "FCtrl_fopts_len ?c = bit_range c 3 0" for s
    by (cases d; simp add: FCtrlUplink_read_def FCtrlDownlink_read_def codec_simps)+
  have i: "read_u32_le bs = Ok (of_le_bytes [a0, a1, a2, a3], c # n0 # n1 # r)"
      "read_u16_le (n0 # n1 # r) = Ok (of_le_bytes [n0, n1], r)"
    by (simp_all add: bs read_u32_le_def read_u16_le_def io_read_def read_exact_def)
  show ?thesis
    by (rule exI [of _ "\<lparr>dev_addr = of_le_bytes [a0, a1, a2, a3], fctrl = ?c,
          fcnt = of_le_bytes [n0, n1], fopts = take ?n r\<rparr>"])
      (use drop_append_offset [of "[a0, a1, a2, a3, c, n0, n1]" 7 ?n r] in
        \<open>simp add: Fhdr_read_def i c, simp add: bs io_read_def read_exact_def c\<close>)
qed

lemma MACPayload_read_after_Fhdr:
  assumes "data_type t" and "Fhdr_read d b = Ok (h, rest)"
  shows "MACPayload_read t d b = Err e \<longleftrightarrow>
     e = InvalidFPortForFopts \<and> 0 < FCtrl_fopts_len (fctrl h) \<and> (\<exists>r. rest = 0 # r)"
  using assms by (cases rest)
    (auto simp: MACPayload_read_def bind_r_Err_iff data_type_def Payload_read_def)

text \<open>
  Every way a data frame of admissible size is rejected: the frame options run past the
  payload (\<^verbatim>\<open>UnexpectedEof\<close>), or the port after the options is 0 although options are
  present (\<^verbatim>\<open>InvalidFPortForFopts\<close>). Here \<open>n\<close> is the position after the options.
\<close>

theorem data_frame_rejections:
  assumes "bs = h # data" and "data_type (MHDR_mtype (MHDR h))" and "DATA_MIN_LEN \<le> length bs"
    and "n = 8 + unat (bit_range (bs ! 5) 3 0)"
  shows "PHYPayload_read d bs = Err e \<longleftrightarrow>
     e = LoraWan_Io UnexpectedEof \<and> length bs < n + 4 \<or>
     e = InvalidFPortForFopts \<and> n + 4 < length bs \<and> 8 < n \<and> bs ! n = 0"
proof -
  let ?t = "MHDR_mtype (MHDR h)"
  define b where "b = take (length data - 4) data"
  have l: "11 \<le> length data" and lb: "7 \<le> length b"
    using assms(1,3) by (auto simp: DATA_MIN_LEN_def b_def)
  have b4: "b ! 4 = bs ! 5" using l by (simp add: assms(1) b_def numeral_eq_Suc)
  have n1: "7 + unat (bit_range (b ! 4) 3 0) = n - 1" unfolding b4 by (simp add: assms(4))
  obtain hd where hd: "Fhdr_read d b =
      (if length b < n - 1 then Err (LoraWan_Io UnexpectedEof) else Ok (hd, drop (n - 1) b))"
    "FCtrl_fopts_len (fctrl hd) = bit_range (bs ! 5) 3 0"
    using Fhdr_read_long [OF lb, of d] unfolding n1 unfolding b4 by blast
  have r: "PHYPayload_read d bs =
      bind_r (MACPayload_read ?t d b) (\<lambda>(f, _).
        Ok \<lparr>mhdr = MHDR h, phy_payload = Frame_MACPayload f, mic = Some (drop (length data - 4) data)\<rparr>)"
    using assms(1,2,3) l unfolding assms(1) PHYPayload_read_Cons Let_def b_def
    by (auto simp: data_type_def split_mic_def bind_r_assoc case_prod_beta intro!: bind_r_cong)
  have len: "length b + 5 = length bs" using l by (simp add: assms(1) b_def)
  have pos: "0 < bit_range (bs ! 5) 3 0 \<longleftrightarrow> 8 < n" by (simp add: assms(4) unat_gt_0 word_gt_0)
  have err: "PHYPayload_read d bs = Err e \<longleftrightarrow> MACPayload_read ?t d b = Err e"
    by (auto simp: r bind_r_Err_iff)
  show ?thesis
  proof (cases "length b < n - 1")
    case True
    with len show ?thesis unfolding err by (auto simp: MACPayload_read_def hd)
  next
    case False
    then have fr: "Fhdr_read d b = Ok (hd, drop (n - 1) b)" by (simp add: hd)
    have "PHYPayload_read d bs = Err e \<longleftrightarrow>
        e = InvalidFPortForFopts \<and> 8 < n \<and> (\<exists>r. drop (n - 1) b = 0 # r)"
      unfolding err MACPayload_read_after_Fhdr [OF assms(2) fr] hd(2) pos ..
    moreover have "(\<exists>r. drop (n - 1) b = 0 # r) \<longleftrightarrow> n - 1 < length b \<and> b ! (n - 1) = 0"
      by (metis Cons_nth_drop_Suc drop_eq_Nil list.distinct(1) list.inject not_le)
    moreover have "n - 1 < length b \<Longrightarrow> b ! (n - 1) = bs ! n"
      using assms(1,4) by (simp add: b_def)
    moreover have "n - 1 < length b \<longleftrightarrow> n + 4 < length bs" using len assms(4) by auto
    ultimately show ?thesis using False len by auto
  qed
qed

text \<open>
  C32. Reading back what was written: a well-formed frame survives if and only if it is not a
  data frame. A written data frame is never read back as itself, because of the repeated device
  address.
\<close>

theorem PHYPayload_read_after_write:
  assumes "PHYPayload_ok d p"
  shows "PHYPayload_read d (PHYPayload_to_vec p) = Ok p \<longleftrightarrow> \<not> data_type (PHYPayload_mtype p)"
proof -
  let ?bs = "PHYPayload_to_vec p"
  have d: "data_type (PHYPayload_mtype p) \<longleftrightarrow> (\<exists>m. phy_payload p = Frame_MACPayload m)"
    using assms by (auto simp: PHYPayload_ok_def data_type_def split: PHYPayloadFrame.splits)
  have len: "length ?bs = length (PHYPayload_wire p []) + length (repeated_dev_addr (phy_payload p))"
    by (simp add: PHYPayload_to_vec_def PHYPayload_write_eq PHYPayload_wire_def)
  show ?thesis
  proof (cases "data_type (PHYPayload_mtype p)")
    case True
    with d obtain m where "phy_payload p = Frame_MACPayload m" by auto
    with len show ?thesis using True
      by (auto simp: PHYPayload_read_Ok_wire cflist_ok_def repeated_dev_addr_def)
  next
    case False
    with d have "repeated_dev_addr (phy_payload p) = []"
      by (auto simp: repeated_dev_addr_def split: PHYPayloadFrame.splits)
    then have "?bs = PHYPayload_wire p []"
      by (simp add: PHYPayload_to_vec_def PHYPayload_write_eq PHYPayload_wire_def)
    with False assms show ?thesis by (auto simp: PHYPayload_read_Ok_wire cflist_ok_def)
  qed
qed

theorem PHYPayload_read_after_write_witness:
  "PHYPayload_read Dir_Uplink (PHYPayload_to_vec (PHYPayload_proprietary (replicate 11 1))) =
     Ok (PHYPayload_proprietary (replicate 11 1))"
proof -
  have "PHYPayload_ok Dir_Uplink (PHYPayload_proprietary (replicate 11 1))" by code_simp
  moreover have "\<not> data_type (PHYPayload_mtype (PHYPayload_proprietary (replicate 11 1)))" by code_simp
  ultimately show ?thesis using PHYPayload_read_after_write by blast
qed

end
