(* ===== verification/Filters.thy ===== *)
theory Filters
  imports Errors
begin

text \<open>
  The packet filters of a router (\<^verbatim>\<open>src/router/filter.rs\<close>): the xor filter over device
  and application identifiers and the device address range. The hash function and the lookup
  in a xor filter belong to other crates and are parameters.
\<close>

record Eui =
  deveui :: u64
  appeui :: u64

record Xor16 =
  seed :: u64
  block_length :: u64
  fingerprints :: "u16 list"

type_synonym EuiFilter = Xor16

record filter_hash =
  xxh64 :: "bytes \<Rightarrow> u64"
  xor16_contains :: "Xor16 \<Rightarrow> u64 \<Rightarrow> bool"

text \<open>The accessors of \<^verbatim>\<open>bytes::Buf\<close> panic when the buffer is too short.\<close>

definition buf_get_le :: "nat \<Rightarrow> bytes \<Rightarrow> ('e, 'a::len word \<times> bytes) rresult" where
  "buf_get_le n buf = (if n \<le> length buf then Ok (of_le_bytes (take n buf), drop n buf) else Panic)"

fun get_fingerprints :: "nat \<Rightarrow> bytes \<Rightarrow> ('e, u16 list) rresult" where
  "get_fingerprints 0 buf = Ok []"
| "get_fingerprints (Suc n) buf =
     bind_r (buf_get_le 2 buf) (\<lambda>(w, buf).
     bind_r (get_fingerprints n buf) (\<lambda>ws. Ok (w # ws)))"

text \<open>
  The capacity \<^verbatim>\<open>block_length * 3\<close> is computed in a wrapping \<^verbatim>\<open>usize\<close>, and a
  capacity of more bytes than \<^verbatim>\<open>isize::MAX\<close> panics.
\<close>

definition EuiFilter_from_bin :: "bytes \<Rightarrow> ('e, EuiFilter) rresult" where
  "EuiFilter_from_bin buf =
     bind_r (buf_get_le 8 buf) (\<lambda>(sd, buf).
     bind_r (buf_get_le 8 buf) (\<lambda>(bl, buf).
     if 2 ^ 63 \<le> 2 * unat (bl * 3 :: u64) then Panic
     else bind_r (get_fingerprints (unat (bl * 3 :: u64)) buf) (\<lambda>filters.
       Ok \<lparr>seed = sd, block_length = bl, fingerprints = filters\<rparr>)))"

definition EuiFilter_contains :: "filter_hash \<Rightarrow> EuiFilter \<Rightarrow> Eui \<Rightarrow> bool" where
  "EuiFilter_contains H f e =
     (let data = le_bytes 8 (deveui e) @ le_bytes 8 (appeui e);
          hash = xxh64 H data
      in xor16_contains H f hash)"

definition BITS_23 :: u64 where
  "BITS_23 = 8388607"

definition BITS_25 :: u64 where
  "BITS_25 = 33554431"

record DevAddrFilter =
  base :: u32
  size :: u32

definition DevAddrFilter_from_bin :: "bytes \<Rightarrow> ('e, DevAddrFilter) rresult" where
  "DevAddrFilter_from_bin data =
     (if length data \<noteq> 6 then Panic
      else let buf = [0, 0] @ data;
               val = of_be_bytes buf :: u64;
               msk = ucast (val AND BITS_23) :: u32;
               bs = ucast (drop_bit 23 val AND BITS_25) :: u32;
               sz = push_bit 2 (msk XOR ucast BITS_23) + 0b11 + 1
           in Ok \<lparr>base = bs, size = sz\<rparr>)"

definition DevAddrFilter_contains :: "DevAddrFilter \<Rightarrow> u32 \<Rightarrow> bool" where
  "DevAddrFilter_contains f dev =
     (let addr_base = ucast BITS_23 AND dev
      in base f \<le> addr_base \<and> addr_base < base f + size f)"

section \<open>What the two filters are\<close>

text \<open>The range a six byte subnet stands for: 25 bits of base, 23 bits of inverted mask.\<close>

definition subnet_val :: "bytes \<Rightarrow> nat" where
  "subnet_val data = unat (of_be_bytes data :: u64)"

definition subnet_base :: "bytes \<Rightarrow> nat" where
  "subnet_base data = subnet_val data div 2 ^ 23"

definition subnet_size :: "bytes \<Rightarrow> nat" where
  "subnet_size data = 4 * (2 ^ 23 - subnet_val data mod 2 ^ 23)"

definition eui_filter_ok :: "bytes \<Rightarrow> bool" where
  "eui_filter_ok data \<longleftrightarrow> 16 \<le> length data \<and>
     (let n = unat (of_le_bytes (take 8 (drop 8 data)) * 3 :: u64)
      in 2 * n < 2 ^ 63 \<and> 16 + 2 * n \<le> length data)"

lemma length_get_fingerprints:
  "get_fingerprints n buf = (if 2 * n \<le> length buf
     then Ok (map (\<lambda>i. of_le_bytes (take 2 (drop (2 * i) buf))) [0..<n]) else Panic)"
proof (induction n arbitrary: buf)
  case 0
  then show ?case by simp
next
  case (Suc n)
  have m: "map f [0..<Suc n] = f 0 # map (\<lambda>i. f (Suc i)) [0..<n]" for f :: "nat \<Rightarrow> u16"
    by (simp add: upt_conv_Cons map_Suc_upt [symmetric] del: upt_Suc)
  show ?case by (auto simp: Suc buf_get_le_def m simp del: upt_Suc)
qed

lemma of_be_bytes_0: "of_be_bytes ([0, 0] @ data) = (of_be_bytes data :: u64)"
  by (rule bit_word_eqI) (auto simp: of_be_bytes_def bit_of_le_bytes nth_append less_Suc_eq nth_Cons'
      split: if_splits)

lemma subnet_val_less:
  assumes "length data = 6"
  shows "subnet_val data < 2 ^ 48"
proof -
  have "(of_be_bytes data :: u64) = take_bit 48 (of_be_bytes data)"
    by (rule bit_word_eqI) (use assms in \<open>auto simp: of_be_bytes_def bit_of_le_bytes bit_simps\<close>)
  then have "subnet_val data = take_bit 48 (subnet_val data)"
    unfolding subnet_val_def by (metis unsigned_take_bit_eq)
  then show ?thesis by (metis take_bit_nat_less_exp)
qed

lemma bits_23_mask: "BITS_23 = mask 23" "BITS_25 = mask 25" "(ucast (mask 23 :: u64) :: u32) = mask 23"
  by (simp_all add: BITS_23_def BITS_25_def mask_eq_exp_minus_1)

lemma unat_and_mask: "unat (w AND mask n) = unat w mod 2 ^ n" for w :: "'a::len word"
  by (simp only: take_bit_eq_mask [symmetric] unsigned_take_bit_eq) (simp add: take_bit_eq_mod)

lemma unat_ucast_32: "unat w < 2 ^ 32 \<Longrightarrow> unat (ucast w :: u32) = unat w" for w :: u64
  by (simp add: unsigned_ucast_eq take_bit_nat_eq_self_iff)

lemma unat_xor_mask:
  fixes m :: u32
  assumes "unat m < 2 ^ 23"
  shows "unat (m XOR mask 23) = 2 ^ 23 - 1 - unat m"
proof -
  have mm: "m AND mask 23 = m" using assms
    by (metis mod_less unat_and_mask unsigned_word_eqI)
  then have b: "bit m i \<Longrightarrow> i < 23" for i by (metis bit_and_iff bit_mask_iff)
  have "(m XOR mask 23) + m = (m XOR mask 23) OR m"
    by (rule disjunctive_add_eq_or) (use b in \<open>auto intro!: bit_word_eqI simp: bit_simps\<close>)
  also have "\<dots> = mask 23" using b by (auto intro!: bit_word_eqI simp: bit_simps)
  finally have "m XOR mask 23 = mask 23 - m" by (simp add: eq_diff_eq)
  moreover have "m \<le> mask 23" using assms by (simp add: word_le_nat_alt mask_eq_exp_minus_1)
  ultimately show ?thesis by (simp add: unat_sub mask_eq_exp_minus_1)
qed

lemma DevAddrFilter_from_bin_eq:
  assumes "length data = 6"
  shows "DevAddrFilter_from_bin data =
    Ok \<lparr>base = of_nat (subnet_base data), size = of_nat (subnet_size data)\<rparr>"
proof -
  let ?v = "of_be_bytes data :: u64"
  let ?m = "ucast (?v AND mask 23) :: u32"
  let ?k = "subnet_val data mod 2 ^ 23"
  have b: "subnet_base data < 2 ^ 25"
    using subnet_val_less [OF assms] by (simp add: subnet_base_def less_mult_imp_div_less)
  have k: "?k < 2 ^ 23" by simp
  have u: "unat (?v AND mask 23) = ?k" by (simp only: unat_and_mask subnet_val_def)
  with k have m: "unat ?m = ?k" by (subst unat_ucast_32) simp_all
  have "unat (drop_bit 23 ?v AND mask 25) = subnet_base data mod 2 ^ 25"
    by (simp only: unat_and_mask unat_drop_bit_eq) (simp add: drop_bit_eq_div subnet_base_def subnet_val_def)
  with b have "unat (drop_bit 23 ?v AND mask 25) = subnet_base data" by simp
  then have bs: "(ucast (drop_bit 23 ?v AND mask 25) :: u32) = of_nat (subnet_base data)"
    by (metis of_nat_unat)
  have "?m XOR mask 23 = of_nat (unat (?m XOR mask 23))" by simp
  also have "unat (?m XOR mask 23) = 2 ^ 23 - 1 - ?k" by (subst unat_xor_mask) (simp_all only: m k)
  finally have x: "?m XOR mask 23 = of_nat (2 ^ 23 - 1 - ?k)" .
  have "push_bit 2 w + 0b11 + 1 = 4 * w + 4" for w :: u32 by (simp add: push_bit_eq_mult)
  then have "push_bit 2 (?m XOR mask 23) + 0b11 + 1 = of_nat (4 * (2 ^ 23 - 1 - ?k) + 4)"
    by (simp only: x of_nat_add of_nat_mult of_nat_numeral)
  also have "4 * (2 ^ 23 - 1 - ?k) + 4 = subnet_size data"
    using k by (simp only: subnet_size_def)
  finally show ?thesis
    using assms by (simp add: DevAddrFilter_from_bin_def of_be_bytes_0 bits_23_mask bs Let_def del: append.simps)
qed

lemma DevAddrFilter_contains_eq:
  assumes "length data = 6"
  shows "DevAddrFilter_contains \<lparr>base = of_nat (subnet_base data), size = of_nat (subnet_size data)\<rparr> a
     \<longleftrightarrow> subnet_base data \<le> unat a mod 2 ^ 23 \<and> unat a mod 2 ^ 23 < subnet_base data + subnet_size data"
proof -
  have b: "subnet_base data < 2 ^ 25"
    using subnet_val_less [OF assms] by (simp add: subnet_base_def less_mult_imp_div_less)
  have s: "subnet_size data \<le> 2 ^ 25" by (simp add: subnet_size_def)
  have w: "unat (of_nat k :: u32) = k" if "k < 2 ^ 32" for k
    using that by (simp add: unat_of_nat take_bit_nat_eq_self_iff)
  have "unat (of_nat (subnet_base data) :: u32) = subnet_base data" using b by (intro w) simp
  moreover have "unat (of_nat (subnet_base data + subnet_size data) :: u32) = subnet_base data + subnet_size data"
    using b s by (intro w) simp
  moreover have "unat (mask 23 AND a) = unat a mod 2 ^ 23" by (subst and.commute) (rule unat_and_mask)
  ultimately show ?thesis
    by (simp only: DevAddrFilter_contains_def Let_def bits_23_mask DevAddrFilter.simps
        word_le_nat_alt word_less_nat_alt of_nat_add [symmetric])
qed

text \<open>
  Bases of \<open>2 ^ 23\<close> and above can be decoded, since the base has 25 bits, but the device
  address is reduced to 23 bits before the comparison: such a filter contains no address.
\<close>

lemma devaddr_filter_blind:
  assumes "length data = 6" and "2 ^ 23 \<le> subnet_base data"
  shows "\<exists>f. DevAddrFilter_from_bin data = Ok f \<and> (\<forall>a. \<not> DevAddrFilter_contains f a)"
proof -
  have "\<not> 2 ^ 23 \<le> unat a mod 2 ^ 23" for a :: u32 by (simp add: not_le)
  with assms(2) have "\<not> subnet_base data \<le> unat a mod 2 ^ 23" for a :: u32
    using order_trans by blast
  then show ?thesis
    by (simp add: DevAddrFilter_from_bin_eq assms(1) DevAddrFilter_contains_eq)
qed

text \<open>The filter that the bytes stand for: three little-endian fields, the last one a list.\<close>

definition eui_filter_of :: "bytes \<Rightarrow> EuiFilter" where
  "eui_filter_of data =
     (let bl = of_le_bytes (take 8 (drop 8 data))
      in \<lparr>seed = of_le_bytes (take 8 data), block_length = bl,
          fingerprints = map (\<lambda>i. of_le_bytes (take 2 (drop (16 + 2 * i) data))) [0..<unat (bl * 3)]\<rparr>)"

lemma EuiFilter_from_bin_eq: "EuiFilter_from_bin data = (if eui_filter_ok data then Ok (eui_filter_of data) else Panic)"
  by (auto simp: eui_filter_of_def EuiFilter_from_bin_def eui_filter_ok_def buf_get_le_def length_get_fingerprints Let_def
      add.commute not_le)

lemma concat_le_bytes_nth:
  "i < length ws \<Longrightarrow> take 2 (drop (2 * i) (concat (map (le_bytes 2) ws) @ r)) = le_bytes 2 (ws ! i)"
proof (induction ws arbitrary: i)
  case Nil
  then show ?case by simp
next
  case (Cons w ws)
  then show ?case by (cases i) simp_all
qed

lemma length_concat_le_bytes [simp]: "length (concat (map (le_bytes 2) ws)) = 2 * length ws"
  by (induction ws) simp_all

section \<open>Properties\<close>

text \<open>
  C39. A device address filter is decoded from exactly six bytes (any other length panics) as
  the range of 25 bit base and a size of four times the complement of the 23 bit mask, and it
  contains a device address if and only if the low 23 bits of the address lie in that range.
  No comparison wraps around.
\<close>

theorem devaddr_filter_range:
  "if length data = 6
   then \<exists>f. DevAddrFilter_from_bin data = (Ok f :: (unit, DevAddrFilter) rresult) \<and>
     (\<forall>a. DevAddrFilter_contains f a \<longleftrightarrow>
        subnet_base data \<le> unat a mod 2 ^ 23 \<and> unat a mod 2 ^ 23 < subnet_base data + subnet_size data)
   else DevAddrFilter_from_bin data = (Panic :: (unit, DevAddrFilter) rresult)"
proof (cases "length data = 6")
  case True
  then show ?thesis by (simp add: DevAddrFilter_from_bin_eq DevAddrFilter_contains_eq)
next
  case False
  then show ?thesis by (simp add: DevAddrFilter_from_bin_def)
qed

text \<open>
  The serialized form of a xor filter (seed, block length and three blocks of 16 bit
  fingerprints, little-endian) is decoded to that filter, whatever bytes follow it, and any
  input that is shorter than its block length announces makes the decoder panic.
\<close>

theorem eui_filter_decode:
  "(length fps = unat (bl * 3) \<and> 2 * length fps < 2 ^ 63 \<longrightarrow>
      EuiFilter_from_bin (le_bytes 8 sd @ le_bytes 8 bl @ concat (map (le_bytes 2) fps) @ rest) =
        (Ok \<lparr>seed = sd, block_length = bl, fingerprints = fps\<rparr> :: (unit, EuiFilter) rresult)) \<and>
   (EuiFilter_from_bin data = (Panic :: (unit, EuiFilter) rresult) \<longleftrightarrow> \<not> eui_filter_ok data)"
proof -
  have "map (\<lambda>i. of_le_bytes (take 2 (drop (2 * i) (concat (map (le_bytes 2) fps) @ rest)))) [0..<length fps] = fps"
    by (rule nth_equalityI) (simp_all add: concat_le_bytes_nth del: drop_append take_append)
  then show ?thesis
    by (auto simp: EuiFilter_from_bin_eq eui_filter_of_def eui_filter_ok_def Let_def drop_append_offset)
qed

end
