(* ===== verification/Routing.thy ===== *)
theory Routing
  imports Filters
begin

text \<open>
  Keyed URIs (\<^verbatim>\<open>src/keyed_uri.rs\<close>) and the routing entry of an organization
  (\<^verbatim>\<open>src/router/routing.rs\<close>). Parsing and printing of URIs and public keys belong to other
  crates and are collected in \<open>addr_codec\<close>; a URI and a public key are represented by their
  canonical bytes. The records named after protobuf messages hold the fields the gateway uses.
\<close>

type_synonym uri = bytes
type_synonym pubkey = bytes

record addr_codec =
  uri_parse :: "bytes \<Rightarrow> foreign + uri"
  uri_print :: "uri \<Rightarrow> bytes"
  pubkey_parse :: "bytes \<Rightarrow> foreign + pubkey"
  pubkey_print :: "pubkey \<Rightarrow> bytes"

record KeyedUri =
  ku_uri :: uri
  ku_pubkey :: pubkey

record LocalKeyedUri =
  lku_address :: bytes
  lku_uri :: bytes

record RoutingAddress =
  ra_pub_key :: bytes
  ra_uri :: bytes

record ProtoRouting =
  pr_oui :: u32
  pr_addresses :: "RoutingAddress list"
  pr_filters :: "bytes list"
  pr_subnets :: "bytes list"

datatype RoutingData = RD_Eui Eui | RD_Devaddr u32

record RoutingInformation =
  ri_data :: "RoutingData option"

section \<open>Keyed URIs\<close>

definition KeyedUri_eq :: "KeyedUri \<Rightarrow> KeyedUri \<Rightarrow> bool" where
  "KeyedUri_eq a b \<longleftrightarrow> ku_uri a = ku_uri b \<and> ku_pubkey a = ku_pubkey b"

definition KeyedUri_from_local :: "addr_codec \<Rightarrow> LocalKeyedUri \<Rightarrow> KeyedUri gw_result" where
  "KeyedUri_from_local A v =
     bind_r (foreign_r from_uri_error (uri_parse A (lku_uri v))) (\<lambda>u.
     bind_r (foreign_r Error_CryptoError (pubkey_parse A (lku_address v))) (\<lambda>k.
     Ok \<lparr>ku_uri = u, ku_pubkey = k\<rparr>))"

definition KeyedUri_to_local :: "addr_codec \<Rightarrow> KeyedUri \<Rightarrow> LocalKeyedUri" where
  "KeyedUri_to_local A v =
     \<lparr>lku_address = pubkey_print A (ku_pubkey v), lku_uri = uri_print A (ku_uri v)\<rparr>"

definition KeyedUri_from_address :: "addr_codec \<Rightarrow> RoutingAddress \<Rightarrow> KeyedUri gw_result" where
  "KeyedUri_from_address A v =
     bind_r (foreign_r from_uri_error (uri_parse A (from_utf8_lossy (ra_uri v)))) (\<lambda>u.
     bind_r (foreign_r Error_CryptoError (pubkey_parse A (ra_pub_key v))) (\<lambda>k.
     Ok \<lparr>ku_uri = u, ku_pubkey = k\<rparr>))"

section \<open>Routing entries\<close>

record Routing =
  oui :: u32
  uris :: "KeyedUri list"
  filters :: "EuiFilter list"
  subnets :: "DevAddrFilter list"

definition contains_uri :: "Routing \<Rightarrow> KeyedUri \<Rightarrow> bool" where
  "contains_uri r u \<longleftrightarrow> list_ex (\<lambda>keyed_uri. KeyedUri_eq keyed_uri u) (uris r)"

fun matches_routing_data :: "filter_hash \<Rightarrow> Routing \<Rightarrow> RoutingData option \<Rightarrow> bool" where
  "matches_routing_data H r None = False"
| "matches_routing_data H r (Some (RD_Eui e)) = list_ex (\<lambda>f. EuiFilter_contains H f e) (filters r)"
| "matches_routing_data H r (Some (RD_Devaddr a)) =
     list_ex (\<lambda>f. DevAddrFilter_contains f a) (subnets r)"

definition matches_routing_info :: "filter_hash \<Rightarrow> Routing \<Rightarrow> RoutingInformation option \<Rightarrow> bool" where
  "matches_routing_info H r info =
     (case info of Some i \<Rightarrow> matches_routing_data H r (ri_data i) | None \<Rightarrow> False)"

text \<open>The closure given to \<^verbatim>\<open>filter_map\<close> over the addresses.\<close>

definition address_to_uri :: "addr_codec \<Rightarrow> RoutingAddress \<Rightarrow> KeyedUri option" where
  "address_to_uri A address =
     (if ra_uri address = [] then None
      else case uri_parse A (from_utf8_lossy (ra_uri address)) of
        Inl _ \<Rightarrow> None
      | Inr u \<Rightarrow> (case pubkey_parse A (ra_pub_key address) of
          Inl _ \<Rightarrow> None
        | Inr k \<Rightarrow> Some \<lparr>ku_uri = u, ku_pubkey = k\<rparr>))"

definition Routing_from_proto :: "addr_codec \<Rightarrow> ProtoRouting \<Rightarrow> Routing gw_result" where
  "Routing_from_proto A r =
     bind_r (mapM_r EuiFilter_from_bin (pr_filters r)) (\<lambda>fs.
     bind_r (mapM_r DevAddrFilter_from_bin (pr_subnets r)) (\<lambda>ss.
     Ok \<lparr>oui = pr_oui r, uris = List.map_filter (address_to_uri A) (pr_addresses r),
         filters = fs, subnets = ss\<rparr>))"

section \<open>What a routing entry is\<close>

lemma KeyedUri_eq_iff [simp]: "KeyedUri_eq a b \<longleftrightarrow> a = b"
  by (cases a; cases b) (auto simp: KeyedUri_eq_def)

lemma contains_uri_iff: "contains_uri r u \<longleftrightarrow> u \<in> set (uris r)"
  by (auto simp: contains_uri_def list_ex_iff)

definition proto_ok :: "ProtoRouting \<Rightarrow> bool" where
  "proto_ok r \<longleftrightarrow> list_all eui_filter_ok (pr_filters r) \<and> list_all (\<lambda>s. length s = 6) (pr_subnets r)"

definition subnet_matches :: "bytes \<Rightarrow> u32 \<Rightarrow> bool" where
  "subnet_matches s a \<longleftrightarrow>
     subnet_base s \<le> unat a mod 2 ^ 23 \<and> unat a mod 2 ^ 23 < subnet_base s + subnet_size s"

lemma DevAddrFilter_from_bin_cases:
  "DevAddrFilter_from_bin s =
     (if length s = 6 then Ok \<lparr>base = of_nat (subnet_base s), size = of_nat (subnet_size s)\<rparr> else Panic)"
proof (cases "length s = 6")
  case True
  then show ?thesis by (simp add: DevAddrFilter_from_bin_eq)
next
  case False
  then show ?thesis by (simp add: DevAddrFilter_from_bin_def)
qed

lemma mapM_DevAddrFilter:
  "mapM_r DevAddrFilter_from_bin ss =
     (if list_all (\<lambda>s. length s = 6) ss
      then Ok (map (\<lambda>s. \<lparr>base = of_nat (subnet_base s), size = of_nat (subnet_size s)\<rparr>) ss) else Panic)"
  by (induction ss) (simp_all add: DevAddrFilter_from_bin_cases)

lemma mapM_EuiFilter:
  "mapM_r EuiFilter_from_bin ds =
     (if list_all eui_filter_ok ds then Ok (map eui_filter_of ds) else (Panic :: EuiFilter list gw_result))"
  by (induction ds) (simp_all add: EuiFilter_from_bin_eq)

text \<open>The addresses that the decoder keeps.\<close>

definition usable_address :: "addr_codec \<Rightarrow> RoutingAddress \<Rightarrow> bool" where
  "usable_address A a \<longleftrightarrow> ra_uri a \<noteq> [] \<and> (\<exists>u. uri_parse A (from_utf8_lossy (ra_uri a)) = Inr u) \<and>
     (\<exists>k. pubkey_parse A (ra_pub_key a) = Inr k)"

lemma map_filter_address_to_uri:
  "List.map_filter (address_to_uri A) as =
     map (\<lambda>a. \<lparr>ku_uri = projr (uri_parse A (from_utf8_lossy (ra_uri a))), ku_pubkey = projr (pubkey_parse A (ra_pub_key a))\<rparr>)
       (filter (usable_address A) as)"
  by (induction as) (auto simp: List.map_filter_def address_to_uri_def usable_address_def split: sum.splits)

lemma Routing_from_proto_eq:
  "Routing_from_proto A p =
     (if proto_ok p
      then Ok \<lparr>oui = pr_oui p,
        uris = map (\<lambda>a. \<lparr>ku_uri = projr (uri_parse A (from_utf8_lossy (ra_uri a))), ku_pubkey = projr (pubkey_parse A (ra_pub_key a))\<rparr>)
          (filter (usable_address A) (pr_addresses p)),
        filters = map eui_filter_of (pr_filters p),
        subnets = map (\<lambda>s. \<lparr>base = of_nat (subnet_base s), size = of_nat (subnet_size s)\<rparr>) (pr_subnets p)\<rparr>
      else Panic)"
  by (simp add: Routing_from_proto_def proto_ok_def mapM_EuiFilter mapM_DevAddrFilter map_filter_address_to_uri)

lemma Routing_from_proto_cases: "if proto_ok p then \<exists>r. Routing_from_proto A p = Ok r else Routing_from_proto A p = Panic"
  by (simp add: Routing_from_proto_eq)

text \<open>
  C35. A routing entry received from the network is decoded to the entry with the same organization,
  with the addresses that have a non-empty URI that parses and a public key that parses, each with
  that URI and key, in their order and no others, with the filters that the filters' bytes hold field
  by field, and with the base and the size of every subnet as its bits give them. An entry with a
  filter that is too short for its own length or a subnet that is not six bytes long makes the decoder
  panic; it never returns an error.
\<close>

theorem routing_from_proto:
  "Routing_from_proto A p =
     (if list_all eui_filter_ok (pr_filters p) \<and> list_all (\<lambda>s. length s = 6) (pr_subnets p)
      then Ok \<lparr>oui = pr_oui p,
        uris = concat (map (\<lambda>a. case (uri_parse A (from_utf8_lossy (ra_uri a)), pubkey_parse A (ra_pub_key a)) of
            (Inr u, Inr k) \<Rightarrow> if ra_uri a = [] then [] else [\<lparr>ku_uri = u, ku_pubkey = k\<rparr>]
          | _ \<Rightarrow> []) (pr_addresses p)),
        filters = map (\<lambda>d. \<lparr>seed = of_le_bytes (take 8 d), block_length = of_le_bytes (take 8 (drop 8 d)),
            fingerprints = map (\<lambda>i. of_le_bytes (take 2 (drop (16 + 2 * i) d)))
              [0..<unat (of_le_bytes (take 8 (drop 8 d)) * 3 :: u64)]\<rparr>) (pr_filters p),
        subnets = map (\<lambda>s. \<lparr>base = of_nat (subnet_val s div 2 ^ 23), size = of_nat (4 * (2 ^ 23 - subnet_val s mod 2 ^ 23))\<rparr>)
          (pr_subnets p)\<rparr>
      else Panic)"
proof -
  have "concat (map (\<lambda>a. case (uri_parse A (from_utf8_lossy (ra_uri a)), pubkey_parse A (ra_pub_key a)) of
          (Inr u, Inr k) \<Rightarrow> if ra_uri a = [] then [] else [\<lparr>ku_uri = u, ku_pubkey = k\<rparr>] | _ \<Rightarrow> []) as) =
      map (\<lambda>a. \<lparr>ku_uri = projr (uri_parse A (from_utf8_lossy (ra_uri a))), ku_pubkey = projr (pubkey_parse A (ra_pub_key a))\<rparr>)
        (filter (usable_address A) as)" for as
    by (induction as) (auto simp: usable_address_def split: sum.splits)
  then show ?thesis
    by (simp add: Routing_from_proto_eq proto_ok_def subnet_base_def subnet_size_def eui_filter_of_def Let_def)
qed

text \<open>
  C36. The device address of a packet matches a decoded routing entry if and only if one of
  the entry's subnets, read as base and size, covers its low 23 bits; a packet without routing
  information matches no entry.
\<close>

theorem routing_matches_devaddr:
  assumes "Routing_from_proto A p = Ok r"
  shows "(matches_routing_info H r (Some \<lparr>ri_data = Some (RD_Devaddr a)\<rparr>) \<longleftrightarrow>
            (\<exists>s\<in>set (pr_subnets p). subnet_matches s a)) \<and>
         \<not> matches_routing_info H r None \<and>
         \<not> matches_routing_info H r (Some \<lparr>ri_data = None\<rparr>)"
proof -
  from assms have s: "\<forall>s\<in>set (pr_subnets p). length s = 6"
    and r: "subnets r = map (\<lambda>s. \<lparr>base = of_nat (subnet_base s), size = of_nat (subnet_size s)\<rparr>) (pr_subnets p)"
    by (auto simp: Routing_from_proto_def bind_r_Ok_iff mapM_DevAddrFilter list_all_iff split: if_splits)
  have "DevAddrFilter_contains \<lparr>base = of_nat (subnet_base s), size = of_nat (subnet_size s)\<rparr> a
      \<longleftrightarrow> subnet_matches s a" if "s \<in> set (pr_subnets p)" for s
    using that s by (simp only: DevAddrFilter_contains_eq subnet_matches_def)
  then show ?thesis by (auto simp: matches_routing_info_def list_ex_iff r)
qed

text \<open>The entry of the filter test of the source, with one router address.\<close>

definition sample_codec :: addr_codec where
  "sample_codec = \<lparr>uri_parse = Inr, uri_print = id, pubkey_parse = Inr, pubkey_print = id\<rparr>"

definition sample_hash :: filter_hash where
  "sample_hash = \<lparr>xxh64 = (\<lambda>_. 0), xor16_contains = (\<lambda>_ _. False)\<rparr>"

definition sample_proto :: ProtoRouting where
  "sample_proto = \<lparr>pr_oui = 1, pr_addresses = [\<lparr>ra_pub_key = [1], ra_uri = [104]\<rparr>],
     pr_filters = [], pr_subnets = [[0, 2, 0, 127, 255, 0]]\<rparr>"

lemma sample_routing:
  "Routing_from_proto sample_codec sample_proto =
     Ok \<lparr>oui = 1, uris = [\<lparr>ku_uri = [104], ku_pubkey = [1]\<rparr>], filters = [],
         subnets = [\<lparr>base = 1024, size = 1024\<rparr>]\<rparr>"
  by (simp add: Routing_from_proto_def sample_codec_def sample_proto_def List.map_filter_def
      address_to_uri_def from_utf8_lossy.simps(2) utf8_step.simps(2) utf8_width_def
      DevAddrFilter_from_bin_def of_be_bytes_def BITS_23_def BITS_25_def Let_def)

theorem routing_matches_devaddr_witness:
  "matches_routing_info sample_hash \<lparr>oui = 1, uris = [\<lparr>ku_uri = [104], ku_pubkey = [1]\<rparr>], filters = [],
         subnets = [\<lparr>base = 1024, size = 1024\<rparr>]\<rparr> (Some \<lparr>ri_data = Some (RD_Devaddr 1024)\<rparr>)"
  using conjunct1 [OF routing_matches_devaddr [OF sample_routing, of sample_hash 1024]]
  by (simp add: sample_proto_def subnet_matches_def subnet_base_def subnet_size_def subnet_val_def
      of_be_bytes_def)

end
