(* ===== verification/Floats.thy ===== *)
theory Floats
  imports Complex_Main Prelude
begin

text \<open>
  The floating point arithmetic the gateway does on radio frequencies and signal levels:
  IEEE 754 single and double precision values, conversions between them and from integers
  (rounding to nearest, ties to even), multiplication, truncation and the saturating cast to
  \<^verbatim>\<open>u64\<close>. A value is a sign and a rational magnitude; the payload of a NaN is not kept.
\<close>

datatype fp = FNaN | FInf bool | FFin bool rat

type_synonym f32 = fp
type_synonym f64 = fp

text \<open>A format: significand bits, exponent of the smallest quantum, exponent of the largest binade.\<close>

record fp_format =
  fp_prec :: int
  fp_qmin :: int
  fp_emax :: int

definition F32 :: fp_format where
  "F32 = \<lparr>fp_prec = 24, fp_qmin = -149, fp_emax = 127\<rparr>"

definition F64 :: fp_format where
  "F64 = \<lparr>fp_prec = 53, fp_qmin = -1074, fp_emax = 1023\<rparr>"

fun nlog2 :: "nat \<Rightarrow> nat" where
  "nlog2 n = (if n < 2 then 0 else Suc (nlog2 (n div 2)))"

declare nlog2.simps [simp del]

text \<open>The exponent of the binade of a positive rational.\<close>

definition ilog2 :: "rat \<Rightarrow> int" where
  "ilog2 q = (let (n, d) = quotient_of q;
                  e = int (nlog2 (nat n)) - int (nlog2 (nat d))
              in if power_int 2 e \<le> q then e else e - 1)"

definition round_half_even :: "rat \<Rightarrow> int" where
  "round_half_even q = (let n = \<lfloor>q\<rfloor>; r = q - of_int n
     in if r < 1 / 2 then n else if 1 / 2 < r then n + 1 else if even n then n else n + 1)"

definition fp_quantum :: "fp_format \<Rightarrow> rat \<Rightarrow> int" where
  "fp_quantum F q = max (ilog2 q - (fp_prec F - 1)) (fp_qmin F)"

definition round_mag :: "fp_format \<Rightarrow> rat \<Rightarrow> rat" where
  "round_mag F q = (if q = 0 then 0
     else let t = fp_quantum F q in of_int (round_half_even (q / power_int 2 t)) * power_int 2 t)"

definition fp_round :: "fp_format \<Rightarrow> bool \<Rightarrow> rat \<Rightarrow> fp" where
  "fp_round F s q = (let m = round_mag F q
     in if power_int 2 (fp_emax F + 1) \<le> m then FInf s else FFin s m)"

fun fp_convert :: "fp_format \<Rightarrow> fp \<Rightarrow> fp" where
  "fp_convert F FNaN = FNaN"
| "fp_convert F (FInf s) = FInf s"
| "fp_convert F (FFin s q) = fp_round F s q"

definition fp_of_int :: "fp_format \<Rightarrow> int \<Rightarrow> fp" where
  "fp_of_int F i = fp_round F (i < 0) (of_int \<bar>i\<bar>)"

fun fp_mult :: "fp_format \<Rightarrow> fp \<Rightarrow> fp \<Rightarrow> fp" where
  "fp_mult F (FFin s p) (FFin t q) = fp_round F (s \<noteq> t) (p * q)"
| "fp_mult F (FInf s) (FInf t) = FInf (s \<noteq> t)"
| "fp_mult F (FInf s) (FFin t q) = (if q = 0 then FNaN else FInf (s \<noteq> t))"
| "fp_mult F (FFin s p) (FInf t) = (if p = 0 then FNaN else FInf (s \<noteq> t))"
| "fp_mult F _ _ = FNaN"

fun fp_div :: "fp_format \<Rightarrow> fp \<Rightarrow> fp \<Rightarrow> fp" where
  "fp_div F (FFin s p) (FFin t q) =
     (if q = 0 then (if p = 0 then FNaN else FInf (s \<noteq> t)) else fp_round F (s \<noteq> t) (p / q))"
| "fp_div F (FInf s) (FFin t q) = FInf (s \<noteq> t)"
| "fp_div F (FFin s p) (FInf t) = FFin (s \<noteq> t) 0"
| "fp_div F _ _ = FNaN"

fun fp_trunc :: "fp \<Rightarrow> fp" where
  "fp_trunc (FFin s q) = FFin s (of_int \<lfloor>q\<rfloor>)"
| "fp_trunc x = x"

text \<open>\<^verbatim>\<open>as u64\<close>: NaN becomes 0, values out of range saturate.\<close>

fun fp_to_u64 :: "fp \<Rightarrow> u64" where
  "fp_to_u64 FNaN = 0"
| "fp_to_u64 (FInf s) = (if s then 0 else - 1)"
| "fp_to_u64 (FFin s q) = (if s then 0 else if 2 ^ 64 \<le> \<lfloor>q\<rfloor> then - 1 else of_int \<lfloor>q\<rfloor>)"

section \<open>Rounding error\<close>

lemma nlog2_bounds: "0 < n \<Longrightarrow> 2 ^ nlog2 n \<le> n \<and> n < 2 ^ Suc (nlog2 n)"
proof (induction n rule: nlog2.induct)
  case (1 n)
  show ?case
  proof (cases "n < 2")
    case True
    with 1 have "n = 1" by simp
    then show ?thesis by (simp add: nlog2.simps)
  next
    case False
    with 1 have "2 ^ nlog2 (n div 2) \<le> n div 2" "n div 2 < 2 ^ Suc (nlog2 (n div 2))" by simp_all
    with False show ?thesis by (subst (1 2) nlog2.simps) auto
  qed
qed

lemma round_half_even_error: "\<bar>of_int (round_half_even q) - q\<bar> \<le> 1 / 2"
proof -
  have "of_int \<lfloor>q\<rfloor> \<le> q" "q < of_int \<lfloor>q\<rfloor> + 1" by linarith+
  then show ?thesis
    by (auto simp: round_half_even_def Let_def abs_le_iff field_simps)
qed

lemma round_half_even_nonneg: "0 \<le> q \<Longrightarrow> 0 \<le> round_half_even q"
  by (auto simp: round_half_even_def Let_def)

lemma round_half_even_int [simp]: "round_half_even (of_int n) = n"
  by (simp add: round_half_even_def)

lemma ilog2_bounds:
  assumes "0 < q"
  shows "power_int 2 (ilog2 q) \<le> q" and "q < power_int 2 (ilog2 q + 1)"
proof -
  obtain n d where nd: "quotient_of q = (n, d)" by fastforce
  then have d: "0 < d" and q: "q = of_int n / of_int d"
    using quotient_of_denom_pos quotient_of_div by blast+
  with assms have n: "0 < n" by (simp add: zero_less_divide_iff)
  let ?a = "nlog2 (nat n)" and ?b = "nlog2 (nat d)"
  define e where "e = int ?a - int ?b"
  have pe: "power_int 2 (int a - int b) = (2 ^ a / 2 ^ b :: rat)" for a b
    by (simp add: power_int_diff)
  have up: "2 ^ ?a \<le> nat n" "nat n < 2 ^ Suc ?a" "2 ^ ?b \<le> nat d" "nat d < 2 ^ Suc ?b"
    using n d nlog2_bounds [of "nat n"] nlog2_bounds [of "nat d"] by simp_all
  have c: "(of_int n :: rat) = of_nat (nat n)" "(of_int d :: rat) = of_nat (nat d)"
    "(2 ^ k :: rat) = of_nat (2 ^ k)" for k using n d by simp_all
  have r: "(2 ^ ?a :: rat) \<le> of_int n" "of_int n < (2 ^ Suc ?a :: rat)"
    "(2 ^ ?b :: rat) \<le> of_int d" "of_int d < (2 ^ Suc ?b :: rat)"
    using up by (simp_all only: c of_nat_le_iff of_nat_less_iff)
  have "q < 2 ^ Suc ?a / 2 ^ ?b" unfolding q by (rule frac_less) (use n r in simp_all)
  also have "\<dots> = power_int 2 (e + 1)" unfolding pe [symmetric] e_def by (simp add: algebra_simps)
  finally have up: "q < power_int 2 (e + 1)" .
  have "power_int 2 (e - 1) = (2 ^ ?a / 2 ^ Suc ?b :: rat)"
    unfolding pe [symmetric] e_def by (simp add: algebra_simps)
  also have "\<dots> \<le> q" unfolding q by (rule frac_le) (use d n r in simp_all)
  finally have lo: "power_int 2 (e - 1) \<le> q" .
  show "power_int 2 (ilog2 q) \<le> q" "q < power_int 2 (ilog2 q + 1)"
    using up lo by (auto simp: ilog2_def nd Let_def e_def [symmetric])
qed

text \<open>Above the subnormal range a rounding is off by at most half a unit in the last place.\<close>

lemma round_mag_error:
  assumes "0 < q" and "power_int 2 (fp_qmin F + fp_prec F - 1) \<le> q"
  shows "\<bar>round_mag F q - q\<bar> \<le> q / power_int 2 (fp_prec F)"
proof -
  let ?t = "fp_quantum F q"
  note b = ilog2_bounds [OF assms(1)]
  have "power_int 2 (fp_qmin F + fp_prec F - 1) < (power_int 2 (ilog2 q + 1) :: rat)"
    using assms(2) b(2) by linarith
  then have "fp_qmin F + fp_prec F - 1 < ilog2 q + 1"
    by (meson not_less one_le_numeral power_int_increasing)
  then have t: "?t = ilog2 q - (fp_prec F - 1)" by (simp add: fp_quantum_def)
  have p: "(0 :: rat) < power_int 2 ?t" by simp
  have "round_mag F q - q = (of_int (round_half_even (q / power_int 2 ?t)) - q / power_int 2 ?t) * power_int 2 ?t"
    using assms(1) by (simp add: round_mag_def Let_def left_diff_distrib)
  then have "\<bar>round_mag F q - q\<bar> \<le> 1 / 2 * power_int 2 ?t"
    using p round_half_even_error [of "q / power_int 2 ?t"]
    by (simp only: abs_mult abs_of_pos) (rule mult_right_mono, auto)
  also have "\<dots> = power_int 2 (ilog2 q) / power_int 2 (fp_prec F)"
    by (simp add: t power_int_diff power_int_add field_simps)
  also have "\<dots> \<le> q / power_int 2 (fp_prec F)" using b(1) by (intro divide_right_mono) simp_all
  finally show ?thesis .
qed

lemma round_mag_nonneg: "0 \<le> q \<Longrightarrow> 0 \<le> round_mag F q"
  by (simp add: round_mag_def Let_def round_half_even_nonneg)

end
