(* ===== verification/Packets.thy ===== *)
theory Packets
  imports LoraWan_Wire Routing Floats
begin

text \<open>
  Radio packets (\<^verbatim>\<open>src/packet.rs\<close>): the conversion of a received frame into the packet
  sent to routers, of a router's answer into a transmit request, and of a received beacon into
  a witness report. The records for types of \<^verbatim>\<open>semtech_udp\<close> and \<^verbatim>\<open>helium_proto\<close>
  hold the fields the gateway uses; parsing and printing of data rates belong to those crates
  and are collected in \<open>radio_codec\<close>.
\<close>

datatype CRC = CRC_OK | CRC_Disabled | CRC_Fail

record RxPk =
  rx_crc :: CRC
  rx_signal_rssi :: "int option"
  rx_channel_rssi :: int
  rx_snr :: f64
  rx_freq :: f64
  rx_tmst :: u32
  rx_datr :: string
  rx_data :: bytes

datatype StringOrNum = SN_S string | SN_N u32
datatype Modulation = LORA | FSK
datatype CodingRate = CR_4_5 | CR_4_6 | CR_4_7 | CR_4_8

record TxPk =
  imme :: bool
  ipol :: bool
  modu :: Modulation
  codr :: CodingRate
  datr :: string
  freq :: f64
  tx_data :: bytes
  tx_size :: u64
  powe :: u64
  rfch :: u64
  tmst :: "StringOrNum option"
  tmms :: "u64 option"
  fdev :: "u64 option"
  prea :: "u64 option"
  ncrc :: "bool option"

datatype ProtoDataRate =
  Sf7bw125 | Sf8bw125 | Sf9bw125 | Sf10bw125 | Sf12bw125 | OtherDataRate nat

record radio_codec =
  packet_type_lorawan :: i32
  datarate_parse :: "string \<Rightarrow> foreign + string"
  proto_datarate_parse :: "string \<Rightarrow> ProtoDataRate option"
  proto_datarate_print :: "ProtoDataRate \<Rightarrow> string"
  proto_datarate_i32 :: "ProtoDataRate \<Rightarrow> i32"

record Window =
  w_timestamp :: u64
  w_frequency :: f32
  w_datarate :: string

text \<open>\<^verbatim>\<open>struct Packet\<close> wraps the protobuf message of the same name.\<close>

record Packet =
  p_oui :: u32
  p_type :: i32
  p_payload :: bytes
  p_timestamp :: u64
  p_signal_strength :: f32
  p_frequency :: f32
  p_datarate :: string
  p_snr :: f32
  p_routing :: "RoutingInformation option"
  p_rx2_window :: "Window option"

record WitnessReport =
  wr_pub_key :: bytes
  wr_data :: bytes
  wr_timestamp :: u64
  wr_ts_res :: u32
  wr_signal :: u32
  wr_snr :: f32
  wr_frequency :: u64
  wr_datarate :: i32
  wr_signature :: bytes

section \<open>Operations\<close>

fun routing_information :: "PHYPayloadFrame \<Rightarrow> RoutingInformation option gw_result" where
  "routing_information (Frame_JoinRequest request) =
     Ok (Some \<lparr>ri_data = Some (RD_Eui \<lparr>deveui = dev_eui request, appeui = app_eui request\<rparr>)\<rparr>)"
| "routing_information (Frame_MACPayload mac_payload) =
     Ok (Some \<lparr>ri_data = Some (RD_Devaddr (MACPayload_dev_addr mac_payload))\<rparr>)"
| "routing_information _ = Ok None"

definition parse_frame :: "Direction \<Rightarrow> bytes \<Rightarrow> PHYPayloadFrame gw_result" where
  "parse_frame direction payload =
     map_err from_lorawan_error (map_ok phy_payload (PHYPayload_read direction payload))"

definition parse_header :: "bytes \<Rightarrow> MHDR gw_result" where
  "parse_header payload = map_err from_lorawan_error (map_ok fst (MHDR_read payload))"

definition Packet_from_rxpk :: "radio_codec \<Rightarrow> RxPk \<Rightarrow> Packet gw_result" where
  "Packet_from_rxpk R rxpk =
     (if rx_crc rxpk = CRC_OK then
        let rssi = (case rx_signal_rssi rxpk of Some r \<Rightarrow> r | None \<Rightarrow> rx_channel_rssi rxpk) in
        bind_r (bind_r (parse_frame Dir_Uplink (rx_data rxpk)) routing_information) (\<lambda>routing.
        Ok \<lparr>p_oui = 0, p_type = packet_type_lorawan R, p_payload = rx_data rxpk,
            p_timestamp = ucast (rx_tmst rxpk),
            p_signal_strength = fp_of_int F32 rssi,
            p_frequency = fp_convert F32 (rx_freq rxpk),
            p_datarate = rx_datr rxpk,
            p_snr = fp_convert F32 (rx_snr rxpk),
            p_routing = routing, p_rx2_window = None\<rparr>)
      else Err invalid_crc)"

definition is_potential_beacon :: "Packet \<Rightarrow> bool" where
  "is_potential_beacon p =
     (case parse_header (p_payload p) of Ok header \<Rightarrow> MHDR_mtype header = MT_Proprietary | _ \<Rightarrow> False)"

definition to_pull_resp :: "radio_codec \<Rightarrow> Packet \<Rightarrow> bool \<Rightarrow> u32 \<Rightarrow> TxPk option gw_result" where
  "to_pull_resp R p use_rx2 tx_power =
     bind_r
       (if use_rx2 then
          case p_rx2_window p of
            Some rx2 \<Rightarrow>
              bind_r (foreign_r from_datarate_error (datarate_parse R (w_datarate rx2))) (\<lambda>dr.
              Ok (Some (Some (w_timestamp rx2), w_frequency rx2, dr)))
          | None \<Rightarrow> Ok None
        else
          bind_r (foreign_r from_datarate_error (datarate_parse R (p_datarate p))) (\<lambda>dr.
          Ok (Some (Some (p_timestamp p), p_frequency p, dr))))
       (\<lambda>sel. case sel of
          None \<Rightarrow> Ok None
        | Some (timestamp, frequency, datarate) \<Rightarrow>
            Ok (Some
              \<lparr>imme = (timestamp = None), ipol = True, modu = LORA, codr = CR_4_5, datr = datarate,
               freq = fp_convert F64 frequency, tx_data = p_payload p,
               tx_size = of_nat (length (p_payload p)), powe = ucast tx_power, rfch = 0,
               tmst = (case timestamp of
                         Some t \<Rightarrow> Some (SN_N (ucast t))
                       | None \<Rightarrow> Some (SN_S ''immediate'')),
               tmms = None, fdev = None, prea = None, ncrc = None\<rparr>))"

definition Packet_hash :: "(bytes \<Rightarrow> bytes) \<Rightarrow> Packet \<Rightarrow> bytes" where
  "Packet_hash sha256 p = sha256 (p_payload p)"

definition DC_PAYLOAD_SIZE :: nat where
  "DC_PAYLOAD_SIZE = 24"

text \<open>A payload is at most \<^verbatim>\<open>isize::MAX\<close> bytes long, so the sum does not wrap.\<close>

definition dc_payload :: "Packet \<Rightarrow> u64" where
  "dc_payload p =
     (let payload_size = length (p_payload p) in
      if payload_size \<le> DC_PAYLOAD_SIZE then 1
      else of_nat ((payload_size + DC_PAYLOAD_SIZE - 1) div DC_PAYLOAD_SIZE))"

definition to_hz :: "f32 \<Rightarrow> u64" where
  "to_hz mhz = fp_to_u64 (fp_trunc (fp_mult F32 mhz (FFin False 1000000)))"

definition to_witness_report :: "radio_codec \<Rightarrow> Packet \<Rightarrow> WitnessReport gw_result" where
  "to_witness_report R p =
     (case parse_frame Dir_Uplink (p_payload p) of
        Ok (Frame_Proprietary payload) \<Rightarrow>
          (case proto_datarate_parse R (p_datarate p) of
             Some value \<Rightarrow>
               if value \<in> set [Sf7bw125, Sf8bw125, Sf9bw125, Sf10bw125, Sf12bw125] then
                 Ok \<lparr>wr_pub_key = [], wr_data = payload, wr_timestamp = p_timestamp p,
                     wr_ts_res = 0, wr_signal = 0, wr_snr = p_snr p,
                     wr_frequency = to_hz (p_frequency p),
                     wr_datarate = proto_datarate_i32 R value, wr_signature = []\<rparr>
               else Err (error_custom (''invalid beacon witness datarate: '' @ p_datarate p))
           | None \<Rightarrow> Err (error_custom (''invalid beacon witness datarate: '' @ p_datarate p)))
      | Panic \<Rightarrow> Panic
      | _ \<Rightarrow> Err (error_custom ''not a beacon''))"

section \<open>Classification of received frames\<close>

text \<open>The routing information of a frame, by kind.\<close>

fun frame_routing :: "PHYPayloadFrame \<Rightarrow> RoutingInformation option" where
  "frame_routing (Frame_JoinRequest j) =
     Some \<lparr>ri_data = Some (RD_Eui \<lparr>deveui = dev_eui j, appeui = app_eui j\<rparr>)\<rparr>"
| "frame_routing (Frame_MACPayload m) = Some \<lparr>ri_data = Some (RD_Devaddr (dev_addr (fhdr m)))\<rparr>"
| "frame_routing _ = None"

lemma routing_information_eq [simp]: "routing_information f = Ok (frame_routing f)"
  by (cases f) (simp_all add: MACPayload_dev_addr_def)

lemma parse_frame_Ok_iff:
  "parse_frame d bs = Ok f \<longleftrightarrow> (\<exists>p. PHYPayload_read d bs = Ok p \<and> phy_payload p = f)"
  by (cases "PHYPayload_read d bs") (auto simp: parse_frame_def)

lemma parse_frame_not_Panic [panic_free, simp]: "parse_frame d bs \<noteq> Panic"
  by (simp add: parse_frame_def PHYPayload_read_not_Panic)

lemma MHDR_read_Cons: "MHDR_read (h # r) = Ok (MHDR h, r)" "MHDR_read [] = Err (LoraWan_Io UnexpectedEof)"
  by (simp_all add: MHDR_read_def codec_simps read_u8_def io_read_def read_exact_def)

lemma is_potential_beacon_iff:
  "is_potential_beacon p \<longleftrightarrow> (\<exists>h v. p_payload p = h # v \<and> MHDR_mtype (MHDR h) = MT_Proprietary)"
  by (cases "p_payload p") (simp_all add: is_potential_beacon_def parse_header_def MHDR_read_Cons del: MHDR_mtype.simps)

lemma parse_frame_proprietary:
  "parse_frame d bs = Ok (Frame_Proprietary v) \<longleftrightarrow>
     (\<exists>h. bs = h # v \<and> MHDR_mtype (MHDR h) = MT_Proprietary \<and> DATA_MIN_LEN \<le> length bs)"
proof
  assume "parse_frame d bs = Ok (Frame_Proprietary v)"
  then obtain p where "PHYPayload_read d bs = Ok p" "phy_payload p = Frame_Proprietary v"
    by (auto simp: parse_frame_Ok_iff)
  then have "PHYPayload_mtype p = MT_Proprietary \<and> mic p = None \<and> DATA_MIN_LEN \<le> length v + 1"
    and "bs = PHYPayload_wire p []"
    by (auto simp: PHYPayload_read_Ok_wire PHYPayload_ok_def cflist_ok_def)
  then show "\<exists>h. bs = h # v \<and> MHDR_mtype (MHDR h) = MT_Proprietary \<and> DATA_MIN_LEN \<le> length bs"
    using \<open>phy_payload p = _\<close>
    by (cases "mhdr p") (auto simp: PHYPayload_wire_def PHYPayload_mtype_def mic_wire_def simp del: MHDR_mtype.simps)
next
  assume "\<exists>h. bs = h # v \<and> MHDR_mtype (MHDR h) = MT_Proprietary \<and> DATA_MIN_LEN \<le> length bs"
  then obtain h where "bs = h # v" "MHDR_mtype (MHDR h) = MT_Proprietary" "DATA_MIN_LEN \<le> length bs" by blast
  then show "parse_frame d bs = Ok (Frame_Proprietary v)"
    unfolding parse_frame_Ok_iff
    by (intro exI [of _ "\<lparr>mhdr = MHDR h, phy_payload = Frame_Proprietary v, mic = None\<rparr>"])
      (simp add: PHYPayload_read_proprietary PHYPayload_mtype_def del: MHDR_mtype.simps)
qed

text \<open>Only proprietary frames carry the proprietary message type.\<close>

lemma proprietary_type_iff:
  assumes "PHYPayload_ok d f"
  shows "PHYPayload_mtype f = MT_Proprietary \<longleftrightarrow> (\<exists>v. phy_payload f = Frame_Proprietary v)"
  using assms by (auto simp: PHYPayload_ok_def data_type_def split: PHYPayloadFrame.splits)

lemma Packet_from_rxpk_wire:
  assumes "rx_crc rx = CRC_OK" and "PHYPayload_ok Dir_Uplink f" and "cflist_ok (phy_payload f) cf"
    and "rx_data rx = PHYPayload_wire f cf"
  shows "\<exists>p. Packet_from_rxpk R rx = Ok p \<and> p_payload p = rx_data rx \<and>
    p_routing p = frame_routing (phy_payload f) \<and> p_timestamp p = ucast (rx_tmst rx) \<and>
    (is_potential_beacon p \<longleftrightarrow> (\<exists>v. phy_payload f = Frame_Proprietary v))"
proof -
  obtain w where w: "mhdr f = MHDR w" by (cases "mhdr f")
  have "parse_frame Dir_Uplink (rx_data rx) = Ok (phy_payload f)"
    using assms by (auto simp: parse_frame_Ok_iff PHYPayload_read_Ok_wire)
  moreover obtain v where "rx_data rx = w # v" by (simp add: assms(4) PHYPayload_wire_def w)
  moreover have "MHDR_mtype (MHDR w) = MT_Proprietary \<longleftrightarrow> (\<exists>v. phy_payload f = Frame_Proprietary v)"
    using proprietary_type_iff [OF assms(2)] by (simp add: PHYPayload_mtype_def w)
  ultimately show ?thesis using assms(1)
    by (simp add: Packet_from_rxpk_def Let_def is_potential_beacon_iff del: MHDR_mtype.simps)
qed

section \<open>Properties\<close>

text \<open>
  C24. A frame received with a good checksum whose bytes are the wire format of a well-formed
  uplink frame becomes a packet that carries those bytes and the timestamp, the two EUIs as
  routing information for a join request, the device address for a data frame, and none for
  the other kinds; the packet is taken for a beacon exactly when the frame is proprietary.
\<close>

theorem packet_of_frame:
  assumes "rx_crc rx = CRC_OK" and "PHYPayload_ok Dir_Uplink f" and "cflist_ok (phy_payload f) cf"
    and "rx_data rx = PHYPayload_wire f cf"
  shows "\<exists>p. Packet_from_rxpk R rx = Ok p \<and> p_payload p = rx_data rx \<and>
    p_routing p = frame_routing (phy_payload f) \<and> p_timestamp p = ucast (rx_tmst rx) \<and>
    (is_potential_beacon p \<longleftrightarrow> (\<exists>v. phy_payload f = Frame_Proprietary v))"
  using assms by (rule Packet_from_rxpk_wire)

definition sample_radio :: radio_codec where
  "sample_radio = \<lparr>packet_type_lorawan = 1, datarate_parse = Inr,
     proto_datarate_parse = (\<lambda>s. if s = ''SF7BW125'' then Some Sf7bw125 else None),
     proto_datarate_print = (\<lambda>_. ''SF7BW125''), proto_datarate_i32 = (\<lambda>_. 3)\<rparr>"

definition sample_rxpk :: "bytes \<Rightarrow> RxPk" where
  "sample_rxpk bs = \<lparr>rx_crc = CRC_OK, rx_signal_rssi = None, rx_channel_rssi = -112,
     rx_snr = FFin False 5, rx_freq = FFin False 904, rx_tmst = 77, rx_datr = ''SF7BW125'', rx_data = bs\<rparr>"

theorem packet_of_frame_witness:
  "\<exists>p. Packet_from_rxpk sample_radio (sample_rxpk [0xE0, 1, 2, 3, 4, 5, 6, 7, 8, 9, 10, 11]) = Ok p \<and>
    p_routing p = None \<and> is_potential_beacon p"
proof -
  let ?f = "\<lparr>mhdr = MHDR 0xE0, phy_payload = Frame_Proprietary [1, 2, 3, 4, 5, 6, 7, 8, 9, 10, 11], mic = None\<rparr>"
  have "PHYPayload_ok Dir_Uplink ?f"
    by (simp add: PHYPayload_ok_def PHYPayload_mtype_def bit_range_def MType_from_u8_def DATA_MIN_LEN_def
        mask_eq_exp_minus_1)
  then show ?thesis
    using packet_of_frame [of "sample_rxpk [0xE0, 1, 2, 3, 4, 5, 6, 7, 8, 9, 10, 11]" ?f "[]" sample_radio]
    by (auto simp: sample_rxpk_def cflist_ok_def PHYPayload_wire_def mic_wire_def)
qed

text \<open>
  The conversion of a received frame never panics; it fails with the checksum error when
  the checksum is not good, and it succeeds exactly when the checksum is good and the bytes are
  the wire format of some well-formed uplink frame.
\<close>

theorem packet_accepted_iff:
  "Packet_from_rxpk R rx \<noteq> Panic \<and>
   (Packet_from_rxpk R rx = Err invalid_crc \<longleftrightarrow> rx_crc rx \<noteq> CRC_OK) \<and>
   ((\<exists>p. Packet_from_rxpk R rx = Ok p) \<longleftrightarrow>
      rx_crc rx = CRC_OK \<and> (\<exists>f cf. PHYPayload_ok Dir_Uplink f \<and> cflist_ok (phy_payload f) cf \<and>
        rx_data rx = PHYPayload_wire f cf))"
proof -
  have "parse_frame d bs \<noteq> Err invalid_crc" for d bs
    by (cases "PHYPayload_read d bs") (simp_all add: parse_frame_def invalid_crc_def from_lorawan_error_def)
  then show ?thesis
    by (auto simp: Packet_from_rxpk_def Let_def bind_r_Panic_iff bind_r_Err_iff bind_r_Ok_iff
        parse_frame_Ok_iff PHYPayload_read_Ok_wire)
qed

text \<open>
  The number of data credits of a packet is the least positive number of 24 byte units
  that holds its payload.
\<close>

theorem dc_payload_least:
  assumes "length (p_payload p) < 2 ^ 63"
  shows "1 \<le> unat (dc_payload p) \<and> length (p_payload p) \<le> 24 * unat (dc_payload p) \<and>
    (\<forall>k. 1 \<le> k \<and> length (p_payload p) \<le> 24 * k \<longrightarrow> unat (dc_payload p) \<le> k)"
proof -
  let ?n = "length (p_payload p)"
  have "(?n + 23) div 24 < 2 ^ 64" using assms by simp
  then have "unat (of_nat ((?n + 23) div 24) :: u64) = (?n + 23) div 24"
    by (simp add: unat_of_nat take_bit_nat_eq_self_iff)
  then have "unat (dc_payload p) = (if ?n \<le> 24 then 1 else (?n + 23) div 24)"
    by (simp add: dc_payload_def DC_PAYLOAD_SIZE_def Let_def add.commute)
  then show ?thesis by auto
qed

lemma round_mag_F32_error:
  assumes "2 powi (-126) \<le> q"
  shows "\<bar>round_mag F32 q - q\<bar> \<le> q / 2 ^ 24"
proof -
  have "(0 :: rat) < 2 powi (-126)" by simp
  with assms have "0 < q" by linarith
  with round_mag_error [of q F32] assms show ?thesis by (simp add: F32_def power_int_def)
qed

lemma fp_round_F32:
  assumes "1 \<le> q" and "q \<le> 2 ^ 60"
  shows "fp_round F32 s q = FFin s (round_mag F32 q)" and "\<bar>round_mag F32 q - q\<bar> \<le> q / 2 ^ 24"
proof -
  have "(2 powi (-126) :: rat) \<le> 1" by (simp add: power_int_def power_le_one)
  with assms(1) show e: "\<bar>round_mag F32 q - q\<bar> \<le> q / 2 ^ 24" by (intro round_mag_F32_error) linarith
  then have "round_mag F32 q - q \<le> q / 2 ^ 24" by (rule abs_le_D1)
  then have "round_mag F32 q \<le> 2 * q" using assms(1) by simp
  also have "\<dots> < 2 ^ 128" using assms(2) by simp
  finally show "fp_round F32 s q = FFin s (round_mag F32 q)"
    by (simp add: fp_round_def F32_def power_int_def)
qed

lemma to_hz_error:
  assumes "1 / 2 \<le> q" and "q \<le> 2 ^ 40"
  shows "\<bar>of_nat (unat (to_hz (FFin False q))) - q * 1000000\<bar> \<le> q * 1000000 / 2 ^ 24 + 1"
proof -
  let ?x = "q * 1000000"
  let ?m = "round_mag F32 ?x"
  have x: "1 \<le> ?x" "?x \<le> 2 ^ 60" using assms by simp_all
  note r = fp_round_F32 [OF x]
  have m: "0 \<le> ?m" using x by (intro round_mag_nonneg) simp
  have "?m - ?x \<le> ?x / 2 ^ 24" using r(2) by (rule abs_le_D1)
  then have "?m \<le> 2 * ?x" using x by simp
  then have "?m < 2 ^ 64" using x(2) by simp
  then have f: "\<lfloor>?m\<rfloor> < 2 ^ 64" "0 \<le> \<lfloor>?m\<rfloor>" using m by (simp_all add: floor_less_iff)
  have "to_hz (FFin False q) = of_int \<lfloor>?m\<rfloor>"
    using f by (simp add: to_hz_def r(1))
  then have "int (unat (to_hz (FFin False q))) = \<lfloor>?m\<rfloor>"
    using f by (simp add: unsigned_of_int take_bit_int_eq_self_iff)
  then have "(of_nat (unat (to_hz (FFin False q))) :: rat) = of_int \<lfloor>?m\<rfloor>"
    by (metis of_int_of_nat_eq)
  moreover have "of_int \<lfloor>?m\<rfloor> \<le> ?m" "?m < of_int \<lfloor>?m\<rfloor> + 1" by linarith+
  ultimately show ?thesis
    using abs_le_D1 [OF r(2)] abs_le_D2 [OF r(2)] unfolding abs_le_iff by linarith
qed

text \<open>
  The frequency in a witness report, computed in single precision from the frequency in
  megahertz of the received frame, is within one hertz plus one part in four million of the
  exact value, for every frequency from one megahertz up.
\<close>

theorem witness_frequency_error:
  assumes "1 \<le> q" and "q \<le> 2 ^ 39"
  shows "\<bar>of_nat (unat (to_hz (fp_convert F32 (FFin False q)))) - q * 1000000\<bar> \<le> q * 1000000 / 2 ^ 22 + 1"
proof -
  let ?r = "round_mag F32 q"
  have q: "q \<le> 2 ^ 60" using assms(2) by simp
  note r = fp_round_F32 [OF assms(1) q]
  have d: "?r - q \<le> q / 2 ^ 24" "- (?r - q) \<le> q / 2 ^ 24" using abs_le_D1 [OF r(2)] abs_le_D2 [OF r(2)] .
  then have rb: "1 / 2 \<le> ?r" "?r \<le> 2 ^ 40" using assms by simp_all
  let ?h = "of_nat (unat (to_hz (FFin False ?r))) :: rat"
  have "?h - ?r * 1000000 \<le> ?r * 1000000 / 2 ^ 24 + 1" "- (?h - ?r * 1000000) \<le> ?r * 1000000 / 2 ^ 24 + 1"
    using abs_le_D1 [OF to_hz_error [OF rb]] abs_le_D2 [OF to_hz_error [OF rb]] .
  with d assms(1) have "?h - q * 1000000 \<le> q * 1000000 / 2 ^ 22 + 1" "- (?h - q * 1000000) \<le> q * 1000000 / 2 ^ 22 + 1"
    by simp_all
  then show ?thesis by (simp only: fp_convert.simps r(1) abs_le_iff simp_thms)
qed

lemma to_witness_report_not_Panic [simp]: "to_witness_report R p \<noteq> Panic"
  by (simp add: to_witness_report_def split: rresult.splits PHYPayloadFrame.splits option.splits)

lemma witness_report_Ok_iff:
  "to_witness_report R p = Ok r \<longleftrightarrow>
     (\<exists>h v dr. p_payload p = h # v \<and> MHDR_mtype (MHDR h) = MT_Proprietary \<and> 12 \<le> length (p_payload p) \<and>
        proto_datarate_parse R (p_datarate p) = Some dr \<and> (\<forall>n. dr \<noteq> OtherDataRate n) \<and>
        r = \<lparr>wr_pub_key = [], wr_data = v, wr_timestamp = p_timestamp p, wr_ts_res = 0, wr_signal = 0,
             wr_snr = p_snr p, wr_frequency = to_hz (p_frequency p),
             wr_datarate = proto_datarate_i32 R dr, wr_signature = []\<rparr>)"
proof -
  have dr: "dr \<in> {Sf7bw125, Sf8bw125, Sf9bw125, Sf10bw125, Sf12bw125} \<longleftrightarrow> (\<forall>n. dr \<noteq> OtherDataRate n)" for dr
    by (cases dr) auto
  have p: "(\<exists>v. parse_frame Dir_Uplink (p_payload p) = Ok (Frame_Proprietary v) \<and> P v) \<longleftrightarrow>
     (\<exists>h v. p_payload p = h # v \<and> MHDR_mtype (MHDR h) = MT_Proprietary \<and> 12 \<le> length (p_payload p) \<and> P v)" for P
    by (auto simp: parse_frame_proprietary DATA_MIN_LEN_def simp del: MHDR_mtype.simps)
  have "to_witness_report R p = Ok r \<longleftrightarrow> (\<exists>v. parse_frame Dir_Uplink (p_payload p) = Ok (Frame_Proprietary v) \<and>
     (\<exists>dr. proto_datarate_parse R (p_datarate p) = Some dr \<and> dr \<in> {Sf7bw125, Sf8bw125, Sf9bw125, Sf10bw125, Sf12bw125} \<and>
        r = \<lparr>wr_pub_key = [], wr_data = v, wr_timestamp = p_timestamp p, wr_ts_res = 0, wr_signal = 0,
             wr_snr = p_snr p, wr_frequency = to_hz (p_frequency p),
             wr_datarate = proto_datarate_i32 R dr, wr_signature = []\<rparr>))"
    by (auto simp: to_witness_report_def split: rresult.splits PHYPayloadFrame.splits option.splits)
  then show ?thesis unfolding p dr by blast
qed

text \<open>
  C38. A packet yields a witness report exactly when it starts with a proprietary header, is at
  least twelve bytes long, and has one of the beacon data rates; the report then carries the
  bytes after the header, the timestamp and the frequency in hertz. The conversion never
  panics.
\<close>

theorem witness_report_iff:
  "to_witness_report R p \<noteq> Panic \<and>
   (to_witness_report R p = Ok r \<longleftrightarrow>
     (\<exists>h v dr. p_payload p = h # v \<and> MHDR_mtype (MHDR h) = MT_Proprietary \<and> 12 \<le> length (p_payload p) \<and>
        proto_datarate_parse R (p_datarate p) = Some dr \<and> (\<forall>n. dr \<noteq> OtherDataRate n) \<and>
        r = \<lparr>wr_pub_key = [], wr_data = v, wr_timestamp = p_timestamp p, wr_ts_res = 0, wr_signal = 0,
             wr_snr = p_snr p, wr_frequency = to_hz (p_frequency p),
             wr_datarate = proto_datarate_i32 R dr, wr_signature = []\<rparr>))"
  by (simp only: witness_report_Ok_iff to_witness_report_not_Panic simp_thms)

end
