(* ===== verification/Router_Store.thy ===== *)
theory Router_Store
  imports Packets
begin

text \<open>
  The queue of packets that wait for their router (\<^verbatim>\<open>src/router/store.rs\<close>). The
  method \<^verbatim>\<open>elapsed\<close> of an instant, which saturates at zero, takes the current one. The contract of the queue is the locale
  \<open>bounded_queue\<close>, which the router client is verified against.
\<close>

record QuePacket =
  qp_received :: instant
  qp_packet :: Packet

record RouterStore =
  waiting_packets :: "QuePacket list"
  max_packets :: u16

definition elapsed :: "instant \<Rightarrow> instant \<Rightarrow> duration" where
  "elapsed now t = now - t"

definition hold_time :: "instant \<Rightarrow> QuePacket \<Rightarrow> duration" where
  "hold_time now q = elapsed now (qp_received q)"

definition RouterStore_new :: "u16 \<Rightarrow> RouterStore" where
  "RouterStore_new settings_max_packets = \<lparr>waiting_packets = [], max_packets = settings_max_packets\<rparr>"

definition waiting_packets_len :: "RouterStore \<Rightarrow> nat" where
  "waiting_packets_len s = length (waiting_packets s)"

text \<open>\<^verbatim>\<open>VecDeque::pop_front\<close>.\<close>

fun pop_front :: "'a list \<Rightarrow> 'a option \<times> 'a list" where
  "pop_front [] = (None, [])"
| "pop_front (x # xs) = (Some x, xs)"

definition store_waiting_packet :: "RouterStore \<Rightarrow> Packet \<Rightarrow> instant \<Rightarrow> unit gw_result \<times> RouterStore" where
  "store_waiting_packet s packet received =
     (let s = s\<lparr>waiting_packets := waiting_packets s @ [\<lparr>qp_received = received, qp_packet = packet\<rparr>]\<rparr>;
          s = (if unat (max_packets s) < waiting_packets_len s
               then s\<lparr>waiting_packets := snd (pop_front (waiting_packets s))\<rparr> else s)
      in (Ok (), s))"

definition pop_waiting_packet :: "RouterStore \<Rightarrow> QuePacket option \<times> RouterStore" where
  "pop_waiting_packet s =
     (let (q, qs) = pop_front (waiting_packets s) in (q, s\<lparr>waiting_packets := qs\<rparr>))"

definition gc_waiting_packets :: "RouterStore \<Rightarrow> instant \<Rightarrow> duration \<Rightarrow> nat \<times> RouterStore" where
  "gc_waiting_packets s now duration =
     (let before_len = length (waiting_packets s);
          s = s\<lparr>waiting_packets := filter (\<lambda>q. elapsed now (qp_received q) \<le> duration) (waiting_packets s)\<rparr>
      in (before_len - length (waiting_packets s), s))"

section \<open>The contract of the queue\<close>

text \<open>The last \<open>n\<close> elements of a list.\<close>

definition lastn :: "nat \<Rightarrow> 'a list \<Rightarrow> 'a list" where
  "lastn n xs = drop (length xs - n) xs"

lemma length_lastn [simp]: "length (lastn n xs) = min n (length xs)"
  by (simp add: lastn_def)

lemma lastn_all [simp]: "length xs \<le> n \<Longrightarrow> lastn n xs = xs"
  by (simp add: lastn_def)

lemma set_lastn: "set (lastn n xs) \<subseteq> set xs"
  by (simp add: lastn_def set_drop_subset)

lemma lastn_append_lastn [simp]: "lastn n (lastn n xs @ ys) = lastn n (xs @ ys)"
  by (cases "length xs \<le> n") (auto simp: lastn_def add.commute)

locale bounded_queue =
  fixes contents :: "'s \<Rightarrow> 'a list"
    and capacity :: "'s \<Rightarrow> nat"
    and push :: "'s \<Rightarrow> 'a \<Rightarrow> 's"
    and pop :: "'s \<Rightarrow> 'a option \<times> 's"
  assumes push_contents: "length (contents s) \<le> capacity s \<Longrightarrow>
      contents (push s x) = lastn (capacity s) (contents s @ [x])"
    and push_capacity: "capacity (push s x) = capacity s"
    and pop_empty: "contents s = [] \<Longrightarrow> pop s = (None, s)"
    and pop_nonempty: "contents s = x # xs \<Longrightarrow> \<exists>s'. pop s = (Some x, s') \<and> contents s' = xs"
    and pop_capacity: "capacity (snd (pop s)) = capacity s"
begin

definition bounded :: "'s \<Rightarrow> bool" where
  "bounded s \<longleftrightarrow> length (contents s) \<le> capacity s"

lemma push_bounded: "bounded s \<Longrightarrow> bounded (push s x)"
  by (simp add: bounded_def push_contents push_capacity)

lemma pop_bounded: "bounded s \<Longrightarrow> bounded (snd (pop s))"
  by (cases "contents s") (use pop_nonempty pop_capacity in \<open>fastforce simp: bounded_def pop_empty\<close>)+

lemma pop_length: "length (contents (snd (pop s))) = length (contents s) - 1"
  by (cases "contents s") (use pop_nonempty in \<open>fastforce simp: pop_empty\<close>)+

text \<open>After any number of insertions the queue holds the most recent elements, in order.\<close>

lemma foldl_push_capacity: "capacity (foldl push s xs) = capacity s"
  by (induction xs arbitrary: s) (simp_all add: push_capacity)

lemma foldl_push:
  "bounded s \<Longrightarrow> contents (foldl push s xs) = lastn (capacity s) (contents s @ xs)"
proof (induction xs arbitrary: s)
  case Nil
  then show ?case by (simp add: bounded_def)
next
  case (Cons x xs)
  then show ?case
    by (simp add: push_bounded push_capacity push_contents bounded_def)
qed

end

definition store_push :: "RouterStore \<Rightarrow> QuePacket \<Rightarrow> RouterStore" where
  "store_push s q = snd (store_waiting_packet s (qp_packet q) (qp_received q))"

lemma store_push_waiting:
  assumes "length (waiting_packets s) \<le> unat (max_packets s)"
  shows "waiting_packets (store_push s q) = lastn (unat (max_packets s)) (waiting_packets s @ [q])"
proof -
  have "snd (pop_front (xs @ [y])) = tl (xs @ [y])" for xs and y :: QuePacket by (cases xs) auto
  moreover have "tl (xs @ [y]) = lastn (length xs) (xs @ [y])" for xs and y :: QuePacket
    by (cases xs) (simp_all add: lastn_def)
  ultimately show ?thesis
    using assms by (cases q; cases "length (waiting_packets s) = unat (max_packets s)")
      (auto simp: store_push_def store_waiting_packet_def waiting_packets_len_def Let_def)
qed

interpretation rs: bounded_queue waiting_packets "\<lambda>s. unat (max_packets s)" store_push pop_waiting_packet
proof (unfold_locales, goal_cases)
  case (1 s x) then show ?case by (rule store_push_waiting)
next
  case (2 s x) then show ?case by (simp add: store_push_def store_waiting_packet_def Let_def)
next
  case (3 s) then show ?case by (simp add: pop_waiting_packet_def)
next
  case (4 s x xs) then show ?case by (simp add: pop_waiting_packet_def)
next
  case (5 s) then show ?case by (simp add: pop_waiting_packet_def case_prod_beta)
qed

lemma store_waiting_packet_eq:
  "store_waiting_packet s p t = (Ok (), store_push s \<lparr>qp_received = t, qp_packet = p\<rparr>)"
  by (simp add: store_push_def store_waiting_packet_def Let_def)

lemma gc_bounded: "rs.bounded s \<Longrightarrow> rs.bounded (snd (gc_waiting_packets s now d))"
  by (simp add: rs.bounded_def gc_waiting_packets_def Let_def le_trans [OF length_filter_le])

text \<open>
  C4. A store that starts empty and receives any sequence of packets holds the most recent
  ones, up to its maximum, in the order they arrived.
\<close>

theorem store_keeps_most_recent:
  "waiting_packets (foldl (\<lambda>s (p, t). snd (store_waiting_packet s p t)) (RouterStore_new m) arrivals) =
     lastn (unat m) (map (\<lambda>(p, t). \<lparr>qp_received = t, qp_packet = p\<rparr>) arrivals)"
proof -
  have "foldl (\<lambda>s (p, t). snd (store_waiting_packet s p t)) s arrivals =
      foldl store_push s (map (\<lambda>(p, t). \<lparr>qp_received = t, qp_packet = p\<rparr>) arrivals)" for s
    by (induction arrivals arbitrary: s) (auto simp: store_waiting_packet_eq)
  then show ?thesis
    using rs.foldl_push [of "RouterStore_new m"] by (simp add: RouterStore_new_def rs.bounded_def)
qed

text \<open>
  Collecting garbage removes exactly the packets held longer than the given duration,
  keeps the others in order, and returns how many it removed.
\<close>

theorem gc_removes_expired:
  assumes "gc_waiting_packets s now d = (n, s')"
  shows "waiting_packets s' = filter (\<lambda>q. hold_time now q \<le> d) (waiting_packets s) \<and>
    n = length (filter (\<lambda>q. d < hold_time now q) (waiting_packets s)) \<and>
    max_packets s' = max_packets s"
proof -
  have "length (filter (\<lambda>q. \<not> P q) xs) = length xs - length (filter P xs)" for P and xs :: "QuePacket list"
    using sum_length_filter_compl [of P xs] by simp
  then show ?thesis
    using assms by (auto simp: gc_waiting_packets_def Let_def hold_time_def not_le [symmetric])
qed

definition sample_packet :: "u64 \<Rightarrow> Packet" where
  "sample_packet t = \<lparr>p_oui = 0, p_type = 1, p_payload = [0x40], p_timestamp = t,
     p_signal_strength = FFin True 112, p_frequency = FFin False 904, p_datarate = ''SF7BW125'',
     p_snr = FFin False 5, p_routing = None, p_rx2_window = None\<rparr>"

definition sample_store :: RouterStore where
  "sample_store = \<lparr>waiting_packets = [\<lparr>qp_received = 5, qp_packet = sample_packet 1\<rparr>,
     \<lparr>qp_received = 50, qp_packet = sample_packet 2\<rparr>], max_packets = 2\<rparr>"

end
