(* ===== verification/Regions.thy ===== *)
theory Regions
  imports Complex_Main Errors
begin

text \<open>
  Regions and their radio parameters (\<^verbatim>\<open>src/region.rs\<close>). A region is the number of the
  protobuf enumeration; which numbers and names are regions is a parameter, and so is decimal
  arithmetic (\<^verbatim>\<open>rust_decimal\<close>). The decimals of this module are all made by
  \<^verbatim>\<open>Decimal::new(n, 1)\<close> and kept as \<open>n\<close>, in tenths of a decibel.
\<close>

datatype Region = Region i32

record region_codec =
  region_from_i32 :: "i32 \<Rightarrow> i32 option"
  region_from_str :: "string \<Rightarrow> i32 option"
  region_print :: "i32 \<Rightarrow> string"
  i32_print :: "i32 \<Rightarrow> string"

record 'd decimal_ops =
  dec_new :: "i64 \<Rightarrow> nat \<Rightarrow> 'd"
  dec_sub :: "'d \<Rightarrow> 'd \<Rightarrow> 'd"
  dec_trunc :: "'d \<Rightarrow> 'd"
  dec_to_u32 :: "'d \<Rightarrow> u32 option"

record RegionParam =
  channel_frequency :: u64
  max_eirp_tenths :: u32

record RegionParams =
  gain :: i64
  region :: Region
  params :: "RegionParam list"

record RegionParamsStreamedResp =
  rps_region :: i32
  rps_gain :: i32
  rps_params :: "RegionParam list option"

record RegionParamsResp =
  rpr_region :: i32
  rpr_gain :: i32
  rpr_params :: "RegionParam list option"

fun i32_from_Region :: "Region \<Rightarrow> i32" where
  "i32_from_Region (Region r) = r"

definition Region_deserialize :: "region_codec \<Rightarrow> string \<Rightarrow> string + Region" where
  "Region_deserialize G value =
     (case region_from_str G value of
        Some r \<Rightarrow> Inr (Region r)
      | None \<Rightarrow> Inl (''unsupported region: '' @ value))"

definition Region_from_i32 :: "region_codec \<Rightarrow> i32 \<Rightarrow> Region gw_result" where
  "Region_from_i32 G v =
     (case region_from_i32 G v of
        Some r \<Rightarrow> Ok (Region r)
      | None \<Rightarrow> Err (error_custom (''unsupported region '' @ i32_print G v)))"

fun Region_display :: "region_codec \<Rightarrow> Region \<Rightarrow> string" where
  "Region_display G (Region r) = region_print G r"

definition RegionParams_from_streamed :: "region_codec \<Rightarrow> RegionParamsStreamedResp \<Rightarrow> RegionParams gw_result" where
  "RegionParams_from_streamed G value =
     bind_r (Region_from_i32 G (rps_region value)) (\<lambda>rg.
     case rps_params value of
       Some ps \<Rightarrow> Ok \<lparr>gain = scast (rps_gain value), region = rg, params = ps\<rparr>
     | None \<Rightarrow> Err no_region_params)"

definition RegionParams_from_resp :: "region_codec \<Rightarrow> RegionParamsResp \<Rightarrow> RegionParams gw_result" where
  "RegionParams_from_resp G value =
     bind_r (Region_from_i32 G (rpr_region value)) (\<lambda>rg.
     case rpr_params value of
       Some ps \<Rightarrow> Ok \<lparr>gain = scast (rpr_gain value), region = rg, params = ps\<rparr>
     | None \<Rightarrow> Err no_region_params)"

text \<open>\<^verbatim>\<open>Iterator::max_by_key\<close>: the last of the elements with the largest key.\<close>

primrec max_by_key :: "('a \<Rightarrow> 'k::linorder) \<Rightarrow> 'a list \<Rightarrow> 'a option" where
  "max_by_key k [] = None"
| "max_by_key k (x # xs) =
     (case max_by_key k xs of None \<Rightarrow> Some x | Some y \<Rightarrow> Some (if k y < k x then x else y))"

definition max_eirp :: "RegionParams \<Rightarrow> i64 option" where
  "max_eirp rp = map_option (\<lambda>v. ucast (max_eirp_tenths v)) (max_by_key max_eirp_tenths (params rp))"

definition tx_power :: "'d decimal_ops \<Rightarrow> RegionParams \<Rightarrow> u32 option" where
  "tx_power D rp =
     (case max_eirp rp of
        None \<Rightarrow> None
      | Some e \<Rightarrow> dec_to_u32 D (dec_trunc D (dec_sub D (dec_new D e 1) (dec_new D (gain rp) 1))))"

definition RegionParams_to_string :: "region_codec \<Rightarrow> RegionParams option \<Rightarrow> string" where
  "RegionParams_to_string G v =
     (case v of None \<Rightarrow> ''none'' | Some ps \<Rightarrow> Region_display G (region ps))"

section \<open>Transmit power\<close>

text \<open>
  What is relied on of the decimal library: a decimal has a value, new and subtraction are
  exact on it, and truncating then converting gives the integer part of a non-negative value
  that fits and nothing for a value of minus one or less.
\<close>

definition decimal_exact :: "'d decimal_ops \<Rightarrow> ('d \<Rightarrow> rat) \<Rightarrow> bool" where
  "decimal_exact D val \<longleftrightarrow>
     (\<forall>n s. val (dec_new D n s) = of_int (sint n) / 10 ^ s) \<and>
     (\<forall>a b. val (dec_sub D a b) = val a - val b) \<and>
     (\<forall>a. 0 \<le> val a \<and> val a < 2 ^ 32 \<longrightarrow> dec_to_u32 D (dec_trunc D a) = Some (of_int \<lfloor>val a\<rfloor>)) \<and>
     (\<forall>a. val a \<le> - 1 \<longrightarrow> dec_to_u32 D (dec_trunc D a) = None)"

lemma max_by_key_Some:
  "xs \<noteq> [] \<Longrightarrow> \<exists>y. max_by_key k xs = Some y \<and> y \<in> set xs \<and> k y = Max (k ` set xs)"
proof (induction xs)
  case Nil
  then show ?case by simp
next
  case (Cons x xs)
  show ?case
  proof (cases "xs = []")
    case False
    with Cons obtain y where y: "max_by_key k xs = Some y" "y \<in> set xs" "k y = Max (k ` set xs)" by auto
    have "Max (k ` set (x # xs)) = max (k x) (k y)" using False by (simp add: y(3))
    with y show ?thesis by (auto simp: max_def)
  qed simp
qed

text \<open>The largest permitted power of the plan, in tenths.\<close>

definition plan_eirp :: "RegionParams \<Rightarrow> int" where
  "plan_eirp rp = int (Max ((\<lambda>p. unat (max_eirp_tenths p)) ` set (params rp)))"

lemma sint_ucast_u32: "sint (ucast w :: i64) = int (unat w)" for w :: u32
proof -
  have "uint w < 2 ^ 32" "0 \<le> uint w" using unsigned_less [of w] by simp_all
  then show ?thesis
    by (simp add: signed_ucast_eq signed_take_bit_int_eq_self_iff order_trans [of _ 0])
qed

lemma max_eirp_eq:
  assumes "params rp \<noteq> []"
  shows "\<exists>e. max_eirp rp = Some e \<and> sint e = plan_eirp rp"
proof -
  obtain y where y: "max_by_key max_eirp_tenths (params rp) = Some y" "y \<in> set (params rp)"
    "max_eirp_tenths y = Max (max_eirp_tenths ` set (params rp))"
    using max_by_key_Some [OF assms] by blast
  have "mono (unat :: u32 \<Rightarrow> nat)" by (rule monoI) (simp add: word_le_nat_alt)
  then have "unat (max_eirp_tenths y) = Max (unat ` max_eirp_tenths ` set (params rp))"
    using assms by (simp add: y(3) mono_Max_commute)
  then have "int (unat (max_eirp_tenths y)) = plan_eirp rp" by (simp add: plan_eirp_def image_image)
  moreover have "sint (ucast (max_eirp_tenths y) :: i64) = int (unat (max_eirp_tenths y))"
    by (rule sint_ucast_u32)
  ultimately show ?thesis using y(1) by (simp add: max_eirp_def)
qed


text \<open>
  The transmit power is the largest permitted power of the region's channels less the
  antenna gain, in whole decibels: it is undefined for a plan without channels and when the
  gain exceeds that power by a decibel or more, and otherwise, for a non-negative difference,
  it is the difference rounded down.
\<close>

theorem tx_power_value:
  assumes "decimal_exact D val"
  shows "(params rp = [] \<longrightarrow> tx_power D rp = None) \<and>
    (params rp \<noteq> [] \<and> 10 \<le> sint (gain rp) - plan_eirp rp \<longrightarrow> tx_power D rp = None) \<and>
    (params rp \<noteq> [] \<and> sint (gain rp) \<le> plan_eirp rp \<and> plan_eirp rp - sint (gain rp) < 2 ^ 32 \<longrightarrow>
       tx_power D rp = Some (of_int ((plan_eirp rp - sint (gain rp)) div 10)))"
proof (cases "params rp = []")
  case True
  then show ?thesis by (simp add: tx_power_def max_eirp_def)
next
  case False
  then obtain e where e: "max_eirp rp = Some e" "sint e = plan_eirp rp" using max_eirp_eq by blast
  let ?d = "dec_sub D (dec_new D e 1) (dec_new D (gain rp) 1)"
  have v: "val ?d = of_int (plan_eirp rp - sint (gain rp)) / 10"
    using assms unfolding decimal_exact_def
    by (simp only: e(2) of_int_diff diff_divide_distrib power_one_right)
  have t: "tx_power D rp = dec_to_u32 D (dec_trunc D ?d)" by (simp add: tx_power_def e(1))
  have 1: "val ?d \<le> - 1 \<Longrightarrow> tx_power D rp = None"
    and 2: "0 \<le> val ?d \<Longrightarrow> val ?d < 2 ^ 32 \<Longrightarrow> tx_power D rp = Some (of_int \<lfloor>val ?d\<rfloor>)"
    using assms unfolding t decimal_exact_def by blast+
  define k where "k = plan_eirp rp - sint (gain rp)"
  note v = v [folded k_def]
  have "\<lfloor>val ?d\<rfloor> = k div 10" unfolding v using floor_divide_of_int_eq [of k 10] by simp
  moreover have "k \<le> - 10 \<Longrightarrow> val ?d \<le> - 1" unfolding v by simp
  moreover have "0 \<le> k \<Longrightarrow> k < 2 ^ 32 \<Longrightarrow> 0 \<le> val ?d \<and> val ?d < 2 ^ 32" unfolding v by simp
  ultimately have "k \<le> - 10 \<Longrightarrow> tx_power D rp = None"
    "0 \<le> k \<Longrightarrow> k < 2 ^ 32 \<Longrightarrow> tx_power D rp = Some (of_int (k div 10))" using 1 2 by auto
  then show ?thesis using False by (auto simp: k_def)
qed

definition rat_decimal :: "rat decimal_ops" where
  "rat_decimal = \<lparr>dec_new = (\<lambda>n s. of_int (sint n) / 10 ^ s), dec_sub = (-),
     dec_trunc = (\<lambda>a. of_int \<lfloor>a\<rfloor>),
     dec_to_u32 = (\<lambda>a. if 0 \<le> a \<and> a < 2 ^ 32 then Some (of_int \<lfloor>a\<rfloor>) else None)\<rparr>"

lemma rat_decimal_exact: "decimal_exact rat_decimal id"
proof -
  have "\<lfloor>a\<rfloor> < 2 ^ 32" if "a < 2 ^ 32" for a :: rat using that by (simp add: floor_less_iff)
  then have "(of_int \<lfloor>a\<rfloor> :: rat) < 2 ^ 32" if "a < 2 ^ 32" for a :: rat
    using that by (metis le_less_trans of_int_floor_le)
  moreover have "\<not> (0 :: rat) \<le> of_int \<lfloor>a\<rfloor>" if "a \<le> - 1" for a :: rat
    using that by (metis le_less_trans not_less of_int_floor_le order_trans neg_less_0_iff_less zero_less_one)
  ultimately show ?thesis by (auto simp: decimal_exact_def rat_decimal_def)
qed

definition sample_region_params :: RegionParams where
  "sample_region_params = \<lparr>gain = 12, region = Region 0,
     params = [\<lparr>channel_frequency = 903900000, max_eirp_tenths = 360\<rparr>]\<rparr>"

end
