(* ===== verification/State_Channel.thy ===== *)
theory State_Channel
  imports Router_Store Regions
begin

text \<open>
  State channel messages (\<^verbatim>\<open>src/state_channel/message.rs\<close>) and the signing and
  verification of messages (\<^verbatim>\<open>src/traits/msg_sign.rs\<close>, \<^verbatim>\<open>src/traits/msg_verify.rs\<close>).
  A key pair is its public key and its signing function; the protobuf encoder and signature
  verification are parameters. Encoding into a vector does not fail. Messages the gateway
  never looks into are kept as their bytes.
\<close>

record Keypair =
  kp_public :: pubkey
  kp_sign :: "bytes \<Rightarrow> foreign + bytes"

type_synonym verifier = "pubkey \<Rightarrow> bytes \<Rightarrow> bytes \<Rightarrow> foreign + unit"

record SCResponse =
  scr_downlink :: "Packet option"

record SCPacket =
  scp_packet :: "Packet option"
  scp_hotspot :: bytes
  scp_signature :: bytes
  scp_region :: i32
  scp_hold_time :: u64

datatype Msg =
    Msg_Response SCResponse
  | Msg_Packet SCPacket
  | Msg_Offer bytes
  | Msg_Purchase bytes
  | Msg_Banner bytes
  | Msg_Reject bytes

record SCMessage =
  scm_msg :: "Msg option"

datatype StateChannelMessage = StateChannelMessage Msg

section \<open>Signing and verifying\<close>

text \<open>
  The two macros: the signature fields are cleared, the message is encoded and the bytes are
  signed, or checked against the message's signature.
\<close>

definition msg_sign :: "('m \<Rightarrow> 'm) \<Rightarrow> ('m \<Rightarrow> bytes) \<Rightarrow> Keypair \<Rightarrow> 'm \<Rightarrow> bytes gw_result" where
  "msg_sign clear enc keypair m =
     (let txn = clear m; buf = enc txn in foreign_r Error_CryptoError (kp_sign keypair buf))"

definition msg_verify :: "('m \<Rightarrow> 'm) \<Rightarrow> ('m \<Rightarrow> bytes) \<Rightarrow> ('m \<Rightarrow> bytes) \<Rightarrow> verifier \<Rightarrow> pubkey \<Rightarrow> 'm \<Rightarrow> unit gw_result" where
  "msg_verify clear sig enc V verifier_key m =
     (let msg = clear m; buf = enc msg in foreign_r Error_CryptoError (V verifier_key buf (sig m)))"

definition SCPacket_clear :: "SCPacket \<Rightarrow> SCPacket" where
  "SCPacket_clear p = p\<lparr>scp_signature := []\<rparr>"

definition SCPacket_sign :: "(SCPacket \<Rightarrow> bytes) \<Rightarrow> Keypair \<Rightarrow> SCPacket \<Rightarrow> bytes gw_result" where
  "SCPacket_sign enc = msg_sign SCPacket_clear enc"

definition SCPacket_verify :: "(SCPacket \<Rightarrow> bytes) \<Rightarrow> verifier \<Rightarrow> pubkey \<Rightarrow> SCPacket \<Rightarrow> unit gw_result" where
  "SCPacket_verify enc = msg_verify SCPacket_clear scp_signature enc"

definition SCMessage_verify :: "(SCPacket \<Rightarrow> bytes) \<Rightarrow> verifier \<Rightarrow> pubkey \<Rightarrow> SCMessage \<Rightarrow> unit gw_result" where
  "SCMessage_verify enc V key m =
     (case scm_msg m of
        Some (Msg_Response _) \<Rightarrow> Ok ()
      | Some (Msg_Packet p) \<Rightarrow> SCPacket_verify enc V key p
      | Some (Msg_Offer _) \<Rightarrow> Ok ()
      | Some (Msg_Purchase _) \<Rightarrow> Ok ()
      | Some (Msg_Banner _) \<Rightarrow> Ok ()
      | Some (Msg_Reject _) \<Rightarrow> Ok ()
      | None \<Rightarrow> Err (error_custom ''unexpected empty state channel message''))"

section \<open>State channel messages\<close>

definition StateChannelMessage_packet ::
  "(SCPacket \<Rightarrow> bytes) \<Rightarrow> Packet \<Rightarrow> Keypair \<Rightarrow> Region \<Rightarrow> u64 \<Rightarrow> StateChannelMessage gw_result" where
  "StateChannelMessage_packet enc packet keypair rg hold =
     (let p = \<lparr>scp_packet = Some packet, scp_hotspot = kp_public keypair, scp_signature = [],
               scp_region = i32_from_Region rg, scp_hold_time = hold\<rparr> in
      bind_r (SCPacket_sign enc keypair p) (\<lambda>sig.
      Ok (StateChannelMessage (Msg_Packet (p\<lparr>scp_signature := sig\<rparr>)))))"

fun to_message :: "StateChannelMessage \<Rightarrow> SCMessage" where
  "to_message (StateChannelMessage m) = \<lparr>scm_msg = Some m\<rparr>"

definition from_state_channel_response :: "SCResponse \<Rightarrow> Packet option" where
  "from_state_channel_response response = scr_downlink response"

fun to_downlink :: "StateChannelMessage \<Rightarrow> Packet option gw_result" where
  "to_downlink (StateChannelMessage (Msg_Response response)) = Ok (from_state_channel_response response)"
| "to_downlink (StateChannelMessage _) =
     Err (error_custom ''state channel message not a downlink packet'')"

definition from_message :: "SCMessage \<Rightarrow> StateChannelMessage option" where
  "from_message m = map_option StateChannelMessage (scm_msg m)"

fun SCPacket_from_message :: "StateChannelMessage \<Rightarrow> ('e, SCPacket) rresult" where
  "SCPacket_from_message (StateChannelMessage (Msg_Packet inner)) = Ok inner"
| "SCPacket_from_message (StateChannelMessage _) = Panic"

lemma from_message_to_message: "from_message (to_message m) = Some m"
  by (cases m) (simp add: from_message_def)

text \<open>What is relied on of the signature scheme.\<close>

definition verifies :: "verifier \<Rightarrow> Keypair \<Rightarrow> bool" where
  "verifies V kp \<longleftrightarrow> (\<forall>buf sig. kp_sign kp buf = Inr sig \<longrightarrow> V (kp_public kp) buf sig = Inr ())"

text \<open>
  The message built for an uplink packet carries that packet, the gateway's public key,
  the region and the hold time, is turned into a wire message and back unchanged, and, when
  the key pair's signatures verify under its public key, passes the verification of state
  channel messages; it is refused as a downlink.
\<close>

theorem packet_message_verifies:
  assumes "StateChannelMessage_packet enc packet kp rg hold = Ok m" and "verifies V kp"
  shows "SCMessage_verify enc V (kp_public kp) (to_message m) = Ok () \<and>
    from_message (to_message m) = Some m \<and>
    (\<exists>sig. SCPacket_from_message m =
       (Ok \<lparr>scp_packet = Some packet, scp_hotspot = kp_public kp, scp_signature = sig,
            scp_region = i32_from_Region rg, scp_hold_time = hold\<rparr> :: (unit, SCPacket) rresult)) \<and>
    to_downlink m = Err (error_custom ''state channel message not a downlink packet'')"
proof -
  let ?p = "\<lparr>scp_packet = Some packet, scp_hotspot = kp_public kp, scp_signature = [],
             scp_region = i32_from_Region rg, scp_hold_time = hold\<rparr>"
  obtain sig where s: "kp_sign kp (enc ?p) = Inr sig"
    and m: "m = StateChannelMessage (Msg_Packet (?p\<lparr>scp_signature := sig\<rparr>))"
    using assms(1)
    by (cases "kp_sign kp (enc ?p)")
      (auto simp: StateChannelMessage_packet_def SCPacket_sign_def msg_sign_def SCPacket_clear_def)
  from s assms(2) have "V (kp_public kp) (enc ?p) sig = Inr ()" by (simp add: verifies_def)
  then show ?thesis
    by (simp add: m SCMessage_verify_def SCPacket_verify_def msg_verify_def SCPacket_clear_def
        from_message_def)
qed

definition sample_keypair :: Keypair where
  "sample_keypair = \<lparr>kp_public = [7], kp_sign = (\<lambda>buf. Inr (42 # buf))\<rparr>"

definition sample_verifier :: verifier where
  "sample_verifier = (\<lambda>key buf sig. if sig = 42 # buf then Inr () else Inl ''signature error'')"

definition sample_encode :: "SCPacket \<Rightarrow> bytes" where
  "sample_encode p = scp_hotspot p @ [of_nat (length (scp_signature p))]"

lemma sample_verifies: "verifies sample_verifier sample_keypair"
  by (simp add: verifies_def sample_verifier_def sample_keypair_def)

end
