(* ===== verification/Gateway_Service.thy ===== *)
theory Gateway_Service
  imports State_Channel
begin

text \<open>
  The client of a validator's gateway service (\<^verbatim>\<open>src/service/gateway.rs\<close>,
  \<^verbatim>\<open>src/service/version.rs\<close>). The remote calls, the random choice and the printing of
  messages for errors are parameters that act on a state of the world; every function below is
  the code around one call.
\<close>

record BlockchainVar =
  bv_name :: string
  bv_type :: string
  bv_value :: bytes

record IsActiveResp =
  ia_sc_id :: bytes
  ia_sc_owner :: bytes
  ia_active :: bool

datatype GwMsg =
    GM_RoutingStreamed "ProtoRouting list"
  | GM_RegionParamsStreamed RegionParamsStreamedResp
  | GM_RegionParams RegionParamsResp
  | GM_IsActive IsActiveResp
  | GM_Config "BlockchainVar list"
  | GM_Validators "RoutingAddress list"
  | GM_Version u64
  | GM_Other bytes

record GatewayResp =
  gr_height :: u64
  gr_block_age :: u64
  gr_signature :: bytes
  gr_msg :: "GwMsg option"

record RegionParamsUpdateReq =
  rpu_address :: bytes
  rpu_signature :: bytes

record RegionParamsReq =
  rpq_address :: bytes
  rpq_signature :: bytes
  rpq_region :: i32

record GatewayService =
  gs_uri :: KeyedUri

record Streaming =
  st_id :: nat
  st_verifier :: pubkey

record 'w gw_ext =
  rpc_routing :: "KeyedUri \<Rightarrow> u64 \<Rightarrow> 'w \<Rightarrow> (foreign + nat) \<times> 'w"
  rpc_params_update :: "KeyedUri \<Rightarrow> RegionParamsUpdateReq \<Rightarrow> 'w \<Rightarrow> (foreign + nat) \<times> 'w"
  rpc_region_params :: "KeyedUri \<Rightarrow> RegionParamsReq \<Rightarrow> 'w \<Rightarrow> (foreign + GatewayResp) \<times> 'w"
  rpc_is_active_sc :: "KeyedUri \<Rightarrow> bytes \<Rightarrow> bytes \<Rightarrow> 'w \<Rightarrow> (foreign + GatewayResp) \<times> 'w"
  rpc_config :: "KeyedUri \<Rightarrow> string list \<Rightarrow> 'w \<Rightarrow> (foreign + GatewayResp) \<times> 'w"
  rpc_validators :: "KeyedUri \<Rightarrow> u32 \<Rightarrow> 'w \<Rightarrow> (foreign + GatewayResp) \<times> 'w"
  rpc_version :: "KeyedUri \<Rightarrow> 'w \<Rightarrow> (foreign + GatewayResp) \<times> 'w"
  pick_uri :: "KeyedUri list \<Rightarrow> 'w \<Rightarrow> KeyedUri option \<times> 'w"
  verify_sig :: verifier
  encode_resp :: "GatewayResp \<Rightarrow> bytes"
  encode_update_req :: "RegionParamsUpdateReq \<Rightarrow> bytes"
  encode_params_req :: "RegionParamsReq \<Rightarrow> bytes"
  debug_msg :: "GwMsg option \<Rightarrow> string"
  addr :: addr_codec
  regions :: region_codec

section \<open>Responses\<close>

definition GatewayResp_verify :: "'w gw_ext \<Rightarrow> pubkey \<Rightarrow> GatewayResp \<Rightarrow> unit gw_result" where
  "GatewayResp_verify X =
     msg_verify (\<lambda>m. m\<lparr>gr_signature := []\<rparr>) gr_signature (encode_resp X) (verify_sig X)"

text \<open>
  \<^verbatim>\<open>poll_next\<close> on one item of the transport's stream: an item is passed on only with a good
  signature. \<open>None\<close> is the end of the stream.
\<close>

definition Streaming_poll_next ::
  "'w gw_ext \<Rightarrow> Streaming \<Rightarrow> (foreign + GatewayResp) option \<Rightarrow> GatewayResp gw_result option" where
  "Streaming_poll_next X s item =
     (case item of
        Some (Inr response) \<Rightarrow> Some (map_ok (\<lambda>_. response) (GatewayResp_verify X (st_verifier s) response))
      | Some (Inl err) \<Rightarrow> Some (Err (from_status err))
      | None \<Rightarrow> None)"

definition response_routings :: "'w gw_ext \<Rightarrow> GatewayResp \<Rightarrow> ProtoRouting list gw_result" where
  "response_routings X r =
     (case gr_msg r of
        Some (GM_RoutingStreamed routings) \<Rightarrow> Ok routings
      | msg \<Rightarrow> Err (error_custom (''Unexpected gateway message '' @ debug_msg X msg)))"

definition response_region_params :: "'w gw_ext \<Rightarrow> GatewayResp \<Rightarrow> RegionParams gw_result" where
  "response_region_params X r =
     (case gr_msg r of
        Some (GM_RegionParamsStreamed ps) \<Rightarrow> RegionParams_from_streamed (regions X) ps
      | Some (GM_RegionParams ps) \<Rightarrow> RegionParams_from_resp (regions X) ps
      | msg \<Rightarrow> Err (error_custom (''Unexpected gateway message '' @ debug_msg X msg)))"

section \<open>Calls\<close>

definition GatewayService_new :: "KeyedUri \<Rightarrow> GatewayService gw_result" where
  "GatewayService_new keyed_uri = Ok \<lparr>gs_uri = keyed_uri\<rparr>"

definition select_seed :: "'w gw_ext \<Rightarrow> KeyedUri list \<Rightarrow> 'w \<Rightarrow> GatewayService gw_result \<times> 'w" where
  "select_seed X seed_uris w =
     (let (u, w) = pick_uri X seed_uris w
      in (bind_r (ok_or (error_custom ''empty uri list'') u) GatewayService_new, w))"

definition gs_routing :: "'w gw_ext \<Rightarrow> GatewayService \<Rightarrow> u64 \<Rightarrow> 'w \<Rightarrow> Streaming gw_result \<times> 'w" where
  "gs_routing X g height w =
     (let (r, w) = rpc_routing X (gs_uri g) height w
      in (map_ok (\<lambda>i. \<lparr>st_id = i, st_verifier = ku_pubkey (gs_uri g)\<rparr>) (foreign_r from_status r), w))"

definition gs_region_params :: "'w gw_ext \<Rightarrow> GatewayService \<Rightarrow> Keypair \<Rightarrow> 'w \<Rightarrow> Streaming gw_result \<times> 'w" where
  "gs_region_params X g keypair w =
     (let req = \<lparr>rpu_address = kp_public keypair, rpu_signature = []\<rparr> in
      case msg_sign (\<lambda>m. m\<lparr>rpu_signature := []\<rparr>) (encode_update_req X) keypair req of
        Ok sig \<Rightarrow>
          (let (r, w) = rpc_params_update X (gs_uri g) (req\<lparr>rpu_signature := sig\<rparr>) w
           in (map_ok (\<lambda>i. \<lparr>st_id = i, st_verifier = ku_pubkey (gs_uri g)\<rparr>) (foreign_r from_status r), w))
      | Err e \<Rightarrow> (Err e, w)
      | Panic \<Rightarrow> (Panic, w))"

definition region_params_for ::
  "'w gw_ext \<Rightarrow> GatewayService \<Rightarrow> Region \<Rightarrow> Keypair \<Rightarrow> 'w \<Rightarrow> RegionParams gw_result \<times> 'w" where
  "region_params_for X g rg keypair w =
     (let req = \<lparr>rpq_address = kp_public keypair, rpq_signature = [], rpq_region = i32_from_Region rg\<rparr> in
      case msg_sign (\<lambda>m. m\<lparr>rpq_signature := []\<rparr>) (encode_params_req X) keypair req of
        Ok sig \<Rightarrow>
          (let (r, w) = rpc_region_params X (gs_uri g) (req\<lparr>rpq_signature := sig\<rparr>) w
           in (bind_r (foreign_r from_status r) (response_region_params X), w))
      | Err e \<Rightarrow> (Err e, w)
      | Panic \<Rightarrow> (Panic, w))"

text \<open>\<^verbatim>\<open>.await?.into_inner()\<close> followed by \<^verbatim>\<open>resp.verify(&self.uri.pubkey)?\<close>.\<close>

definition verified :: "'w gw_ext \<Rightarrow> GatewayService \<Rightarrow> foreign + GatewayResp \<Rightarrow> GatewayResp gw_result" where
  "verified X g r =
     bind_r (foreign_r from_status r) (\<lambda>resp.
     bind_r (GatewayResp_verify X (ku_pubkey (gs_uri g)) resp) (\<lambda>_. Ok resp))"

definition is_active_sc ::
  "'w gw_ext \<Rightarrow> GatewayService \<Rightarrow> bytes \<Rightarrow> bytes \<Rightarrow> 'w \<Rightarrow> IsActiveResp gw_result \<times> 'w" where
  "is_active_sc X g sid owner w =
     (let (r, w) = rpc_is_active_sc X (gs_uri g) sid owner w
      in (bind_r (verified X g r) (\<lambda>resp.
          case gr_msg resp of
            Some (GM_IsActive a) \<Rightarrow>
              if ia_sc_id a = sid \<and> ia_sc_owner a = owner then Ok a
              else Err (error_custom ''mismatched state channel id and owner'')
          | Some other \<Rightarrow> Err (error_custom (''invalid is_active response '' @ debug_msg X (Some other)))
          | None \<Rightarrow> Err (error_custom ''empty is_active response'')), w))"

definition get_config :: "'w gw_ext \<Rightarrow> GatewayService \<Rightarrow> string list \<Rightarrow> 'w \<Rightarrow> GatewayResp gw_result \<times> 'w" where
  "get_config X g keys w = (let (r, w) = rpc_config X (gs_uri g) keys w in (verified X g r, w))"

definition gs_config :: "'w gw_ext \<Rightarrow> GatewayService \<Rightarrow> string list \<Rightarrow> 'w \<Rightarrow> BlockchainVar list gw_result \<times> 'w" where
  "gs_config X g keys w =
     (let (r, w) = get_config X g keys w
      in (bind_r r (\<lambda>resp.
          case gr_msg resp of
            Some (GM_Config result) \<Rightarrow> Ok result
          | Some other \<Rightarrow> Err (error_custom (''invalid config response '' @ debug_msg X (Some other)))
          | None \<Rightarrow> Err (error_custom ''empty config response'')), w))"

definition gs_height :: "'w gw_ext \<Rightarrow> GatewayService \<Rightarrow> 'w \<Rightarrow> (u64 \<times> u64) gw_result \<times> 'w" where
  "gs_height X g w =
     (let (r, w) = get_config X g [] w in (map_ok (\<lambda>resp. (gr_height resp, gr_block_age resp)) r, w))"

definition validators :: "'w gw_ext \<Rightarrow> GatewayService \<Rightarrow> u32 \<Rightarrow> 'w \<Rightarrow> KeyedUri list gw_result \<times> 'w" where
  "validators X g quantity w =
     (let (r, w) = rpc_validators X (gs_uri g) quantity w
      in (bind_r (verified X g r) (\<lambda>resp.
          case gr_msg resp of
            Some (GM_Validators result) \<Rightarrow> mapM_r (KeyedUri_from_address (addr X)) result
          | Some other \<Rightarrow> Err (error_custom (''invalid validator response '' @ debug_msg X (Some other)))
          | None \<Rightarrow> Err (error_custom ''empty validator response'')), w))"

definition gs_version :: "'w gw_ext \<Rightarrow> GatewayService \<Rightarrow> 'w \<Rightarrow> u64 gw_result \<times> 'w" where
  "gs_version X g w =
     (let (r, w) = rpc_version X (gs_uri g) w
      in (bind_r (verified X g r) (\<lambda>resp.
          case gr_msg resp of
            Some (GM_Version v) \<Rightarrow> Ok v
          | Some other \<Rightarrow> Err (error_custom (''invalid validator response '' @ debug_msg X (Some other)))
          | None \<Rightarrow> Err (error_custom ''empty version response'')), w))"

text \<open>\<open>cancelled\<close> tells that the shutdown trigger won the \<^verbatim>\<open>select!\<close>.\<close>

definition random_new ::
  "'w gw_ext \<Rightarrow> GatewayService \<Rightarrow> u8 \<Rightarrow> bool \<Rightarrow> 'w \<Rightarrow> GatewayService option gw_result \<times> 'w" where
  "random_new X g fetch_count cancelled w =
     (if cancelled then (Ok None, w)
      else case validators X g (ucast fetch_count) w of
        (Ok gateways, w) \<Rightarrow>
          (let (u, w) = pick_uri X gateways w
           in (map_ok Some (bind_r (ok_or (error_custom ''empty gateway list'') u) GatewayService_new), w))
      | (Err e, w) \<Rightarrow> (Err e, w)
      | (Panic, w) \<Rightarrow> (Panic, w))"

section \<open>Versions\<close>

record GatewayVersion =
  v_major :: u16
  v_minor :: u16
  v_patch :: u16

definition GatewayVersion_from_u64 :: "u64 \<Rightarrow> GatewayVersion" where
  "GatewayVersion_from_u64 v =
     (let pat = ucast (v mod 10000) :: u16;
          mnr = ucast ((v div 10000) mod 1000) :: u16;
          mjr = ucast ((v div 10000000) mod 1000) :: u16
      in \<lparr>v_major = mjr, v_minor = mnr, v_patch = pat\<rparr>)"

lemma verified_Ok_iff:
  "verified X g r = Ok resp \<longleftrightarrow> r = Inr resp \<and> GatewayResp_verify X (ku_pubkey (gs_uri g)) resp = Ok ()"
  by (cases r) (auto simp: verified_def bind_r_Ok_iff)

text \<open>
  The parameters of the configured region are taken from the answer whatever its signature is,
  unlike every other answer.
\<close>

lemma region_params_for_unverified:
  assumes "\<forall>req. rpc_region_params X (gs_uri g) req w = (Inr resp, w')"
    and "response_region_params X resp = Ok rp" and "\<forall>buf. \<exists>sig. kp_sign kp buf = Inr sig"
  shows "region_params_for X g rg kp w = (Ok rp, w')"
proof -
  obtain sig where "kp_sign kp (encode_params_req X \<lparr>rpq_address = kp_public kp, rpq_signature = [],
      rpq_region = i32_from_Region rg\<rparr>) = Inr sig" using assms(3) by blast
  then show ?thesis using assms(1,2) by (simp add: region_params_for_def msg_sign_def)
qed

lemma validators_Ok:
  assumes "fst (validators X g n w) = Ok us"
  shows "\<exists>resp. fst (rpc_validators X (gs_uri g) n w) = Inr resp \<and>
    GatewayResp_verify X (ku_pubkey (gs_uri g)) resp = Ok ()"
  using assms unfolding validators_def Let_def case_prod_beta fst_conv bind_r_Ok_iff verified_Ok_iff by blast

lemma gs_config_Ok:
  assumes "fst (gs_config X g keys w) = Ok vars"
  shows "\<exists>resp. fst (rpc_config X (gs_uri g) keys w) = Inr resp \<and> gr_msg resp = Some (GM_Config vars) \<and>
    GatewayResp_verify X (ku_pubkey (gs_uri g)) resp = Ok ()"
proof -
  obtain resp where "fst (rpc_config X (gs_uri g) keys w) = Inr resp"
    "GatewayResp_verify X (ku_pubkey (gs_uri g)) resp = Ok ()"
    "(case gr_msg resp of Some (GM_Config result) \<Rightarrow> Ok result
      | Some other \<Rightarrow> Err (error_custom (''invalid config response '' @ debug_msg X (Some other)))
      | None \<Rightarrow> Err (error_custom ''empty config response'')) = Ok vars"
    using assms unfolding gs_config_def get_config_def Let_def case_prod_beta fst_conv snd_conv bind_r_Ok_iff verified_Ok_iff
    by blast
  then show ?thesis by (auto split: option.splits GwMsg.splits)
qed

lemma gs_height_Ok:
  assumes "fst (gs_height X g w) = Ok (h, age)"
  shows "\<exists>resp. fst (rpc_config X (gs_uri g) [] w) = Inr resp \<and> gr_height resp = h \<and> gr_block_age resp = age \<and>
    GatewayResp_verify X (ku_pubkey (gs_uri g)) resp = Ok ()"
  using assms unfolding gs_height_def get_config_def Let_def case_prod_beta fst_conv snd_conv map_ok_Ok_iff
    verified_Ok_iff prod.inject by blast

lemma gs_version_Ok:
  assumes "fst (gs_version X g w) = Ok v"
  shows "\<exists>resp. fst (rpc_version X (gs_uri g) w) = Inr resp \<and> gr_msg resp = Some (GM_Version v) \<and>
    GatewayResp_verify X (ku_pubkey (gs_uri g)) resp = Ok ()"
proof -
  obtain resp where "fst (rpc_version X (gs_uri g) w) = Inr resp"
    "GatewayResp_verify X (ku_pubkey (gs_uri g)) resp = Ok ()"
    "(case gr_msg resp of Some (GM_Version v) \<Rightarrow> Ok v
      | Some other \<Rightarrow> Err (error_custom (''invalid validator response '' @ debug_msg X (Some other)))
      | None \<Rightarrow> Err (error_custom ''empty version response'')) = Ok v"
    using assms unfolding gs_version_def Let_def case_prod_beta fst_conv bind_r_Ok_iff verified_Ok_iff
    by blast
  then show ?thesis by (auto split: option.splits GwMsg.splits)
qed

lemma is_active_sc_Ok:
  assumes "fst (is_active_sc X g sid owner w) = Ok a"
  shows "ia_sc_id a = sid \<and> ia_sc_owner a = owner \<and>
    (\<exists>resp. fst (rpc_is_active_sc X (gs_uri g) sid owner w) = Inr resp \<and> gr_msg resp = Some (GM_IsActive a) \<and>
       GatewayResp_verify X (ku_pubkey (gs_uri g)) resp = Ok ())"
proof -
  obtain resp where "fst (rpc_is_active_sc X (gs_uri g) sid owner w) = Inr resp"
    "GatewayResp_verify X (ku_pubkey (gs_uri g)) resp = Ok ()"
    "(case gr_msg resp of
        Some (GM_IsActive a) \<Rightarrow>
          if ia_sc_id a = sid \<and> ia_sc_owner a = owner then Ok a
          else Err (error_custom ''mismatched state channel id and owner'')
      | Some other \<Rightarrow> Err (error_custom (''invalid is_active response '' @ debug_msg X (Some other)))
      | None \<Rightarrow> Err (error_custom ''empty is_active response'')) = Ok a"
    using assms unfolding is_active_sc_def Let_def case_prod_beta fst_conv bind_r_Ok_iff verified_Ok_iff
    by blast
  then show ?thesis by (auto split: option.splits GwMsg.splits if_splits)
qed

lemma Streaming_poll_next_Ok:
  "Streaming_poll_next X s item = Some (Ok resp) \<Longrightarrow>
   item = Some (Inr resp) \<and> GatewayResp_verify X (st_verifier s) resp = Ok ()"
  by (auto simp: Streaming_poll_next_def map_ok_Ok_iff split: option.splits sum.splits)

section \<open>Properties\<close>

text \<open>
  C14. Answers of a validator are used only after their signature has been checked: a list of
  validators, configuration variables, a height, a version, the state of a state channel, and
  an item of a stream are returned only when they come from a response that verifies under the
  validator's own key; the state channel returned is the one asked for. The one exception are
  the parameters of the configured region, which are returned whatever the signature is.
\<close>

theorem service_results_verified:
  "(fst (validators X g n w) = Ok us \<longrightarrow>
      (\<exists>resp. fst (rpc_validators X (gs_uri g) n w) = Inr resp \<and>
         GatewayResp_verify X (ku_pubkey (gs_uri g)) resp = Ok ())) \<and>
   (fst (gs_config X g keys w) = Ok vars \<longrightarrow>
      (\<exists>resp. fst (rpc_config X (gs_uri g) keys w) = Inr resp \<and> gr_msg resp = Some (GM_Config vars) \<and>
         GatewayResp_verify X (ku_pubkey (gs_uri g)) resp = Ok ())) \<and>
   (fst (gs_height X g w) = Ok (h, age) \<longrightarrow>
      (\<exists>resp. fst (rpc_config X (gs_uri g) [] w) = Inr resp \<and> gr_height resp = h \<and> gr_block_age resp = age \<and>
         GatewayResp_verify X (ku_pubkey (gs_uri g)) resp = Ok ())) \<and>
   (fst (gs_version X g w) = Ok v \<longrightarrow>
      (\<exists>resp. fst (rpc_version X (gs_uri g) w) = Inr resp \<and> gr_msg resp = Some (GM_Version v) \<and>
         GatewayResp_verify X (ku_pubkey (gs_uri g)) resp = Ok ())) \<and>
   (fst (is_active_sc X g sid owner w) = Ok a \<longrightarrow>
      ia_sc_id a = sid \<and> ia_sc_owner a = owner \<and>
      (\<exists>resp. fst (rpc_is_active_sc X (gs_uri g) sid owner w) = Inr resp \<and> gr_msg resp = Some (GM_IsActive a) \<and>
         GatewayResp_verify X (ku_pubkey (gs_uri g)) resp = Ok ())) \<and>
   (Streaming_poll_next X s item = Some (Ok resp) \<longrightarrow>
      item = Some (Inr resp) \<and> GatewayResp_verify X (st_verifier s) resp = Ok ()) \<and>
   ((\<forall>req. rpc_region_params X (gs_uri g) req w = (Inr answer, w')) \<and>
    response_region_params X answer = Ok rp \<and> (\<forall>buf. \<exists>sig. kp_sign kp buf = Inr sig) \<longrightarrow>
      fst (region_params_for X g rg kp w) = Ok rp)"
proof -
  have rp: "fst (region_params_for X g rg kp w) = Ok rp"
    if "(\<forall>req. rpc_region_params X (gs_uri g) req w = (Inr answer, w')) \<and>
      response_region_params X answer = Ok rp \<and> (\<forall>buf. \<exists>sig. kp_sign kp buf = Inr sig)"
    using that region_params_for_unverified [of X g w answer w' rp kp rg] by simp
  show ?thesis
    by (intro conjI impI)
      (erule rp | simp only: validators_Ok gs_config_Ok gs_height_Ok gs_version_Ok is_active_sc_Ok
         Streaming_poll_next_Ok)+
qed

definition sample_resp :: GatewayResp where
  "sample_resp = \<lparr>gr_height = 10, gr_block_age = 60, gr_signature = [42], gr_msg = Some (GM_Version 10110000)\<rparr>"

definition sample_regions :: region_codec where
  "sample_regions = \<lparr>region_from_i32 = (\<lambda>i. if i \<le> 20 then Some i else None),
     region_from_str = (\<lambda>s. if s = ''US915'' then Some 0 else None),
     region_print = (\<lambda>_. ''US915''), i32_print = (\<lambda>_. ''?'')\<rparr>"

definition sample_gw :: "unit gw_ext" where
  "sample_gw = \<lparr>rpc_routing = (\<lambda>u h w. (Inr 1, w)), rpc_params_update = (\<lambda>u r w. (Inr 2, w)),
     rpc_region_params = (\<lambda>u r w. (Inr sample_resp, w)), rpc_is_active_sc = (\<lambda>u i o' w. (Inr sample_resp, w)),
     rpc_config = (\<lambda>u k w. (Inr sample_resp, w)), rpc_validators = (\<lambda>u n w. (Inr sample_resp, w)),
     rpc_version = (\<lambda>u w. (Inr sample_resp, w)),
     pick_uri = (\<lambda>us w. (case us of [] \<Rightarrow> None | u # _ \<Rightarrow> Some u, w)),
     verify_sig = sample_verifier, encode_resp = (\<lambda>_. []), encode_update_req = (\<lambda>_. []),
     encode_params_req = (\<lambda>_. []), debug_msg = (\<lambda>_. ''msg''), addr = sample_codec, regions = sample_regions\<rparr>"

definition sample_service :: GatewayService where
  "sample_service = \<lparr>gs_uri = \<lparr>ku_uri = [1], ku_pubkey = [2]\<rparr>\<rparr>"

theorem service_results_verified_witness:
  "fst (gs_version sample_gw sample_service ()) = Ok 10110000 \<and>
   (\<exists>resp. fst (rpc_version sample_gw (gs_uri sample_service) ()) = Inr resp \<and>
      gr_msg resp = Some (GM_Version 10110000) \<and> GatewayResp_verify sample_gw [2] resp = Ok ())"
proof -
  have v: "fst (gs_version sample_gw sample_service ()) = Ok 10110000"
    by (simp add: gs_version_def sample_gw_def verified_def GatewayResp_verify_def msg_verify_def
        sample_verifier_def sample_resp_def)
  have k: "ku_pubkey (gs_uri sample_service) = [2]" by (simp add: sample_service_def)
  show ?thesis
    using v service_results_verified [where X = sample_gw and g = sample_service and w = "()" and v = 10110000]
    unfolding k by blast
qed

lemma unat_numeral_u64:
  "unat (10000 :: u64) = 10000" "unat (1000 :: u64) = 1000" "unat (10000000 :: u64) = 10000000"
  by simp_all

text \<open>
  The version number of a validator packs three decimal fields; every triple of a major
  and minor number below 1000 and a patch number below 10000 is read back from its number.
\<close>

theorem version_fields:
  assumes "major < 1000" and "minor < 1000" and "patch < 10000"
  shows "GatewayVersion_from_u64 (of_nat (major * 10000000 + minor * 10000 + patch)) =
    \<lparr>v_major = of_nat major, v_minor = of_nat minor, v_patch = of_nat patch\<rparr>"
proof -
  let ?n = "major * 10000000 + minor * 10000 + patch"
  have n: "?n = patch + (minor + major * 1000) * 10000" by simp
  have "?n < 2 ^ 64" using assms by simp
  then have u: "unat (of_nat ?n :: u64) = ?n"
    by (simp only: unat_of_nat take_bit_nat_eq_self_iff len_of_numeral_defs) simp
  have c: "(ucast w :: u16) = of_nat (unat w)" for w :: u64 by simp
  have d1: "?n mod 10000 = patch" unfolding n using assms by (simp only: mod_mult_self1 mod_less)
  have d2: "?n div 10000 = minor + major * 1000" unfolding n using assms by (simp only: div_mult_self1)
  have "?n div 10000000 = ?n div 10000 div 1000" by (simp only: div_mult2_eq [symmetric]) simp
  also have "\<dots> = major" unfolding d2 using assms by simp
  finally have d3: "?n div 10000000 = major" .
  have m: "(minor + major * 1000) mod 1000 = minor" using assms by (simp only: mod_mult_self1 mod_less)
  have "unat ((of_nat ?n :: u64) mod 10000) = patch"
    "unat ((of_nat ?n :: u64) div 10000 mod 1000) = minor"
    "unat ((of_nat ?n :: u64) div 10000000 mod 1000) = major"
    using assms by (simp_all only: unat_mod unat_div u unat_numeral_u64 d1 d2 d3 m mod_less)
  then show ?thesis
    by (simp only: GatewayVersion_from_u64_def Let_def c)
qed

end
