(* ===== verification/Txn_Fee.thy ===== *)
theory Txn_Fee
  imports Strings Gateway_Service
begin

text \<open>
  Staking modes (\<^verbatim>\<open>src/settings.rs\<close>), transactions in envelopes
  (\<^verbatim>\<open>src/traits/txn_envelope.rs\<close>) and transaction fees
  (\<^verbatim>\<open>src/traits/txn_fee.rs\<close>). The protobuf codec of envelopes is a parameter; encoding into a
  vector does not fail. Fees are 64 bit numbers and their product wraps, as in a release build.
\<close>

section \<open>Staking modes\<close>

datatype StakingMode = DataOnly | Light | Full

datatype GatewayStakingMode = GSM_Dataonly | GSM_Full | GSM_Light

fun StakingMode_from :: "GatewayStakingMode \<Rightarrow> StakingMode" where
  "StakingMode_from GSM_Dataonly = DataOnly"
| "StakingMode_from GSM_Full = Full"
| "StakingMode_from GSM_Light = Light"

fun GatewayStakingMode_from :: "StakingMode \<Rightarrow> GatewayStakingMode" where
  "GatewayStakingMode_from DataOnly = GSM_Dataonly"
| "GatewayStakingMode_from Full = GSM_Full"
| "GatewayStakingMode_from Light = GSM_Light"

fun StakingMode_display :: "StakingMode \<Rightarrow> string" where
  "StakingMode_display DataOnly = ''dataonly''"
| "StakingMode_display Full = ''full''"
| "StakingMode_display Light = ''light''"

definition StakingMode_from_str :: "string \<Rightarrow> StakingMode gw_result" where
  "StakingMode_from_str v =
     (let s = to_lowercase v in
      if s = ''light'' then Ok Light
      else if s = ''full'' then Ok Full
      else if s = ''dataonly'' then Ok DataOnly
      else Err (error_custom (''invalid staking mode '' @ v)))"

lemma staking_mode_conversions [simp]:
  "StakingMode_from (GatewayStakingMode_from m) = m" "GatewayStakingMode_from (StakingMode_from g) = g"
  by (cases m; simp) (cases g; simp)

lemma StakingMode_display_parse: "StakingMode_from_str (StakingMode_display m) = Ok m"
  by (cases m) (simp_all add: StakingMode_from_str_def to_lowercase_def ascii_lower_def of_char_def)

section \<open>Transactions\<close>

record AddGatewayTxn =
  ag_owner :: bytes
  ag_gateway :: bytes
  ag_owner_signature :: bytes
  ag_gateway_signature :: bytes
  ag_payer :: bytes
  ag_payer_signature :: bytes
  ag_staking_fee :: u64
  ag_fee :: u64

text \<open>The other fields of a state channel closing transaction are kept together.\<close>

record StateChannelCloseTxn =
  scc_signature :: bytes
  scc_fee :: u64
  scc_rest :: bytes

datatype Txn =
    Txn_AddGateway AddGatewayTxn
  | Txn_StateChannelClose StateChannelCloseTxn
  | Txn_Other bytes

record BlockchainTxn =
  bt_txn :: "Txn option"

record txn_codec =
  txn_encode :: "BlockchainTxn \<Rightarrow> bytes"
  txn_decode :: "bytes \<Rightarrow> foreign + BlockchainTxn"

definition from_prost_decode :: "foreign \<Rightarrow> gw_error" where
  "from_prost_decode e = Error_Decode (DE_Prost e)"

definition in_envelope :: "AddGatewayTxn \<Rightarrow> BlockchainTxn" where
  "in_envelope t = \<lparr>bt_txn = Some (Txn_AddGateway t)\<rparr>"

definition in_envelope_vec :: "txn_codec \<Rightarrow> AddGatewayTxn \<Rightarrow> bytes gw_result" where
  "in_envelope_vec T t = Ok (txn_encode T (in_envelope t))"

definition from_envelope :: "BlockchainTxn \<Rightarrow> AddGatewayTxn gw_result" where
  "from_envelope envelope =
     (case bt_txn envelope of
        Some (Txn_AddGateway result) \<Rightarrow> Ok result
      | _ \<Rightarrow> Err invalid_envelope)"

definition from_envelope_vec :: "txn_codec \<Rightarrow> bytes \<Rightarrow> AddGatewayTxn gw_result" where
  "from_envelope_vec T buf = bind_r (foreign_r from_prost_decode (txn_decode T buf)) from_envelope"

definition scc_in_envelope :: "StateChannelCloseTxn \<Rightarrow> BlockchainTxn" where
  "scc_in_envelope t = \<lparr>bt_txn = Some (Txn_StateChannelClose t)\<rparr>"

definition scc_from_envelope :: "BlockchainTxn \<Rightarrow> StateChannelCloseTxn gw_result" where
  "scc_from_envelope envelope =
     (case bt_txn envelope of
        Some (Txn_StateChannelClose result) \<Rightarrow> Ok result
      | _ \<Rightarrow> Err invalid_envelope)"

text \<open>What is relied on of the codec.\<close>

definition txn_codec_ok :: "txn_codec \<Rightarrow> bool" where
  "txn_codec_ok T \<longleftrightarrow> (\<forall>t. txn_decode T (txn_encode T t) = Inr t)"

lemma from_envelope_in_envelope [simp]:
  "from_envelope (in_envelope t) = Ok t" "scc_from_envelope (scc_in_envelope c) = Ok c"
  "from_envelope (scc_in_envelope c) = Err invalid_envelope"
  "scc_from_envelope (in_envelope t) = Err invalid_envelope"
  by (simp_all add: from_envelope_def in_envelope_def scc_from_envelope_def scc_in_envelope_def)

lemma from_envelope_vec_encode:
  "txn_codec_ok T \<Longrightarrow> in_envelope_vec T t = Ok buf \<Longrightarrow> from_envelope_vec T buf = Ok t"
  by (auto simp: txn_codec_ok_def in_envelope_vec_def from_envelope_vec_def)

section \<open>Fees\<close>

definition TXN_FEE_SIGNATURE_SIZE :: nat where "TXN_FEE_SIGNATURE_SIZE = 64"
definition TXN_FEE_MULTIPLIER :: u64 where "TXN_FEE_MULTIPLIER = 5000"

definition CONFIG_FEE_KEYS :: "string list" where
  "CONFIG_FEE_KEYS =
     [''txn_fees'', ''txn_fee_multiplier'', ''staking_fee_txn_add_gateway_v1'',
      ''staking_fee_txn_add_light_gateway_v1'', ''staking_fee_txn_add_dataonly_gateway_v1'']"

record TxnFeeConfig =
  txn_fees :: bool
  txn_fee_multiplier :: u64
  staking_fee_txn_add_gateway_v1 :: u64
  staking_fee_txn_add_light_gateway_v1 :: u64
  staking_fee_txn_add_dataonly_gateway_v1 :: u64

definition default_full_staking_fee :: u64 where "default_full_staking_fee = 4000000"
definition default_dataonly_staking_fee :: u64 where "default_dataonly_staking_fee = 1000000"
definition default_light_staking_fee :: u64 where "default_light_staking_fee = 4000000"

definition TxnFeeConfig_default :: TxnFeeConfig where
  "TxnFeeConfig_default =
     \<lparr>txn_fees = True, txn_fee_multiplier = TXN_FEE_MULTIPLIER,
      staking_fee_txn_add_gateway_v1 = default_full_staking_fee,
      staking_fee_txn_add_light_gateway_v1 = default_light_staking_fee,
      staking_fee_txn_add_dataonly_gateway_v1 = default_dataonly_staking_fee\<rparr>"

fun get_staking_fee :: "TxnFeeConfig \<Rightarrow> StakingMode \<Rightarrow> u64" where
  "get_staking_fee c Full = staking_fee_txn_add_gateway_v1 c"
| "get_staking_fee c DataOnly = staking_fee_txn_add_dataonly_gateway_v1 c"
| "get_staking_fee c Light = staking_fee_txn_add_light_gateway_v1 c"

text \<open>Sizes are \<^verbatim>\<open>usize\<close>, 64 bits wide, and their sum wraps around.\<close>

definition get_txn_fee :: "TxnFeeConfig \<Rightarrow> u64 \<Rightarrow> u64" where
  "get_txn_fee c payload_size =
     (let dc_payload_size = (if txn_fees c then 24 else 1);
          fee = (if payload_size \<le> dc_payload_size then 1
                 else (payload_size + dc_payload_size - 1) div dc_payload_size)
      in fee * txn_fee_multiplier c)"

text \<open>The payer signature counts only when there is a payer.\<close>

definition payer_sig_clear :: "AddGatewayTxn \<Rightarrow> AddGatewayTxn" where
  "payer_sig_clear t =
     (if ag_payer t = [] then t\<lparr>ag_payer_signature := []\<rparr>
      else t\<lparr>ag_payer_signature := replicate TXN_FEE_SIGNATURE_SIZE 0\<rparr>)"

definition add_gateway_txn_fee :: "txn_codec \<Rightarrow> TxnFeeConfig \<Rightarrow> AddGatewayTxn \<Rightarrow> u64 gw_result" where
  "add_gateway_txn_fee T c txn =
     (let txn = txn\<lparr>ag_fee := 0\<rparr>;
          txn = txn\<lparr>ag_owner_signature := replicate TXN_FEE_SIGNATURE_SIZE 0\<rparr>;
          txn = txn\<lparr>ag_gateway_signature := replicate TXN_FEE_SIGNATURE_SIZE 0\<rparr>;
          txn = payer_sig_clear txn;
          buf = txn_encode T (in_envelope txn)
      in Ok (get_txn_fee c (of_nat (length buf))))"

definition sc_close_txn_fee :: "txn_codec \<Rightarrow> TxnFeeConfig \<Rightarrow> StateChannelCloseTxn \<Rightarrow> u64 gw_result" where
  "sc_close_txn_fee T c txn =
     (let txn = txn\<lparr>scc_fee := 0\<rparr>;
          txn = txn\<lparr>scc_signature := replicate TXN_FEE_SIGNATURE_SIZE 0\<rparr>;
          buf = txn_encode T (scc_in_envelope txn)
      in Ok (get_txn_fee c (of_nat (length buf))))"

section \<open>The fee configuration of the chain\<close>

record ConfigValue =
  cv_name :: string
  cv_type :: string
  cv_value :: bytes

definition to_value_bool :: "ConfigValue \<Rightarrow> bool gw_result" where
  "to_value_bool v =
     (if cv_type v \<noteq> ''atom'' then Err (error_custom (''not a boolean variable: '' @ cv_name v))
      else if \<not> utf8_valid (cv_value v) then Err (error_custom (''not a boolean value: '' @ cv_name v))
      else Ok (cv_value v = str_bytes ''true''))"

definition to_value_u64 :: "ConfigValue \<Rightarrow> u64 gw_result" where
  "to_value_u64 v =
     (if cv_type v \<noteq> ''int'' then Err (error_custom (''not an int variable: '' @ cv_name v))
      else if \<not> utf8_valid (cv_value v) then Err (error_custom (''not an valid value: '' @ cv_name v))
      else ok_or (error_custom (''not a valid int value: '' @ cv_name v)) (parse_u64 (cv_value v)))"

text \<open>The body of the loop over the variables.\<close>

definition set_config_value :: "TxnFeeConfig \<Rightarrow> ConfigValue \<Rightarrow> TxnFeeConfig gw_result" where
  "set_config_value result v =
     (if cv_name v = ''txn_fees'' then map_ok (\<lambda>x. result\<lparr>txn_fees := x\<rparr>) (to_value_bool v)
      else if cv_name v = ''txn_fee_multiplier'' then
        map_ok (\<lambda>x. result\<lparr>txn_fee_multiplier := x\<rparr>) (to_value_u64 v)
      else if cv_name v = ''staking_fee_txn_add_gateway_v1'' then
        map_ok (\<lambda>x. result\<lparr>staking_fee_txn_add_gateway_v1 := x\<rparr>) (to_value_u64 v)
      else if cv_name v = ''staking_fee_txn_add_light_gateway_v1'' then
        map_ok (\<lambda>x. result\<lparr>staking_fee_txn_add_light_gateway_v1 := x\<rparr>) (to_value_u64 v)
      else if cv_name v = ''staking_fee_txn_add_dataonly_gateway_v1'' then
        map_ok (\<lambda>x. result\<lparr>staking_fee_txn_add_dataonly_gateway_v1 := x\<rparr>) (to_value_u64 v)
      else Ok result)"

primrec set_config_values :: "TxnFeeConfig \<Rightarrow> ConfigValue list \<Rightarrow> TxnFeeConfig gw_result" where
  "set_config_values result [] = Ok result"
| "set_config_values result (v # vs) =
     bind_r (set_config_value result v) (\<lambda>result. set_config_values result vs)"

definition TxnFeeConfig_try_from :: "ConfigValue list \<Rightarrow> TxnFeeConfig gw_result" where
  "TxnFeeConfig_try_from v = set_config_values TxnFeeConfig_default v"

section \<open>Fees\<close>

text \<open>The number of fee units of a payload, and the sz of a unit.\<close>

definition unit_size :: "TxnFeeConfig \<Rightarrow> nat" where
  "unit_size c = (if txn_fees c then 24 else 1)"

definition least_units :: "nat \<Rightarrow> nat \<Rightarrow> nat \<Rightarrow> bool" where
  "least_units u sz n \<longleftrightarrow> 1 \<le> n \<and> sz \<le> u * n \<and> (1 < n \<longrightarrow> u * (n - 1) < sz)"

lemma least_units_div:
  assumes "0 < u" shows "least_units u sz (if sz \<le> u then 1 else (sz + u - 1) div u)"
proof (cases "sz \<le> u")
  case False
  define q where "q = (sz + u - 1) div u"
  have "u \<le> sz + u - 1" using assms False by simp
  then have q: "1 \<le> q" unfolding q_def using assms by (simp add: div_greater_zero_iff Suc_le_eq)
  have "u * q + (sz + u - 1) mod u = sz + u - 1" unfolding q_def by (rule mult_div_mod_eq)
  moreover have "(sz + u - 1) mod u < u" using assms by simp
  ultimately have lo: "sz \<le> u * q" and hi: "u * q \<le> sz + u - 1" by linarith+
  have "u * (q - 1) = u * q - u" by (simp add: diff_mult_distrib2)
  then have "u * (q - 1) < sz" using hi assms False by linarith
  with q lo False show ?thesis by (simp add: least_units_def q_def)
qed (simp add: least_units_def)

lemma least_units_unique: "least_units u sz n \<Longrightarrow> least_units u sz m \<Longrightarrow> 0 < u \<Longrightarrow> n = m"
proof (rule ccontr)
  assume a: "least_units u sz n" "least_units u sz m" "0 < u" "n \<noteq> m"
  have "False" if "a < b" "least_units u sz a" "least_units u sz b" for a b
  proof -
    have "a \<le> b - 1" using that(1) by simp
    then have "u * a \<le> u * (b - 1)" by (rule mult_le_mono2)
    moreover have "u * (b - 1) < sz" "sz \<le> u * a" using that by (auto simp: least_units_def)
    ultimately show False by linarith
  qed
  then show False using a by (metis linorder_neqE_nat)
qed

lemma rounded_units: "(sz + 24 - 1) div 24 = of_nat (unat (sz + 23) div 24)" for sz :: u64
proof -
  have "unat (24 :: u64) = 24" "sz + 24 - 1 = sz + 23" by simp_all
  then show ?thesis by (simp only: word_arith_nat_div)
qed

lemma get_txn_fee_units:
  assumes "txn_fees c \<longrightarrow> unat sz \<le> 2 ^ 64 - 24"
  shows "\<exists>n. least_units (unit_size c) (unat sz) n \<and> get_txn_fee c sz = of_nat n * txn_fee_multiplier c"
proof (intro exI conjI)
  let ?n = "if unat sz \<le> unit_size c then 1 else (unat sz + unit_size c - 1) div unit_size c"
  show "least_units (unit_size c) (unat sz) ?n" by (rule least_units_div) (simp add: unit_size_def)
  have "(sz + 24 - 1) div 24 = of_nat ((23 + unat sz) div 24)" if "txn_fees c"
  proof -
    have "unat (sz + 23) = 23 + unat sz" using assms that by (subst unat_add_lem [THEN iffD1]) simp_all
    then show ?thesis by (simp only: rounded_units)
  qed
  then show "get_txn_fee c sz = of_nat ?n * txn_fee_multiplier c"
    by (auto simp: get_txn_fee_def unit_size_def Let_def word_le_nat_alt)
qed

lemma get_txn_fee_wraps:
  assumes "txn_fees c" and "2 ^ 64 - 24 < unat sz"
  shows "get_txn_fee c sz = 0"
proof -
  have "unat sz < 2 ^ 64" using unsigned_less [of sz, where 'a = nat] by simp
  then have "unat (sz + 23) = unat sz + 23 - 2 ^ 64" using assms(2) by (simp add: unat_word_ariths mod_if)
  then have "unat (sz + 23) < 24" using \<open>unat sz < 2 ^ 64\<close> by simp
  then have e: "unat (sz + 23) div 24 = 0" by (rule div_less)
  have "of_nat (unat (sz + 23) div 24) = (0 :: u64)" unfolding e by simp
  with rounded_units have "(sz + 24 - 1) div 24 = 0" by (rule trans)
  then show ?thesis using assms by (simp add: get_txn_fee_def word_le_nat_alt)
qed

lemma fee_no_wrap:
  "n * unat m < 2 ^ 64 \<Longrightarrow> unat (of_nat n * m :: u64) = n * unat m"
proof -
  assume a: "n * unat m < 2 ^ 64"
  have "(of_nat n * m :: u64) = of_nat (n * unat m)" by simp
  also have "unat \<dots> = n * unat m" using a by (subst unat_of_nat) simp
  finally show ?thesis .
qed

section \<open>The fee configuration of the chain\<close>

text \<open>
  The variable that decides a field: the last one of its name. A variable that is read and does
  not have the type and form of its field is an error.
\<close>

definition last_var :: "string \<Rightarrow> ConfigValue list \<Rightarrow> ConfigValue option" where
  "last_var name vs = (case rev (filter (\<lambda>v. cv_name v = name) vs) of [] \<Rightarrow> None | v # _ \<Rightarrow> Some v)"

definition last_value :: "(ConfigValue \<Rightarrow> 'a gw_result) \<Rightarrow> string \<Rightarrow> 'a \<Rightarrow> ConfigValue list \<Rightarrow> 'a" where
  "last_value f name d vs =
     (case last_var name vs of None \<Rightarrow> d | Some v \<Rightarrow> (case f v of Ok x \<Rightarrow> x | _ \<Rightarrow> d))"

definition value_error :: "ConfigValue \<Rightarrow> gw_error option" where
  "value_error v =
     (if cv_name v = ''txn_fees'' then (case to_value_bool v of Err e \<Rightarrow> Some e | _ \<Rightarrow> None)
      else if cv_name v \<in> set CONFIG_FEE_KEYS then (case to_value_u64 v of Err e \<Rightarrow> Some e | _ \<Rightarrow> None)
      else None)"

primrec first_error :: "ConfigValue list \<Rightarrow> gw_error option" where
  "first_error [] = None"
| "first_error (v # vs) = (case value_error v of Some e \<Rightarrow> Some e | None \<Rightarrow> first_error vs)"

definition config_of :: "TxnFeeConfig \<Rightarrow> ConfigValue list \<Rightarrow> TxnFeeConfig" where
  "config_of d vs =
     \<lparr>txn_fees = last_value to_value_bool ''txn_fees'' (txn_fees d) vs,
      txn_fee_multiplier = last_value to_value_u64 ''txn_fee_multiplier'' (txn_fee_multiplier d) vs,
      staking_fee_txn_add_gateway_v1 =
        last_value to_value_u64 ''staking_fee_txn_add_gateway_v1'' (staking_fee_txn_add_gateway_v1 d) vs,
      staking_fee_txn_add_light_gateway_v1 =
        last_value to_value_u64 ''staking_fee_txn_add_light_gateway_v1'' (staking_fee_txn_add_light_gateway_v1 d) vs,
      staking_fee_txn_add_dataonly_gateway_v1 =
        last_value to_value_u64 ''staking_fee_txn_add_dataonly_gateway_v1'' (staking_fee_txn_add_dataonly_gateway_v1 d) vs\<rparr>"

lemma last_value_Nil [simp]: "last_value f name d [] = d"
  by (simp add: last_value_def last_var_def)

lemma last_value_other: "cv_name v \<noteq> name \<Longrightarrow> last_value f name d (v # vs) = last_value f name d vs"
  by (simp add: last_value_def last_var_def)

lemma last_value_same:
  assumes "cv_name v = name" and "f v = Ok x" and "\<And>w. w \<in> set vs \<Longrightarrow> cv_name w = name \<Longrightarrow> \<exists>y. f w = Ok y"
  shows "last_value f name d (v # vs) = last_value f name x vs"
proof (cases "rev (filter (\<lambda>v. cv_name v = name) vs)")
  case (Cons w ws)
  then have "w \<in> set vs" "cv_name w = name" by (metis (mono_tags, lifting) list.set_intros(1) mem_Collect_eq set_filter set_rev)+
  then obtain y where "f w = Ok y" using assms(3) by blast
  with Cons assms(1) show ?thesis by (simp add: last_value_def last_var_def)
qed (use assms in \<open>simp add: last_value_def last_var_def\<close>)

lemma to_value_not_Panic [simp]: "to_value_bool v \<noteq> Panic" "to_value_u64 v \<noteq> Panic"
  by (simp_all add: to_value_bool_def to_value_u64_def ok_or_def split: option.splits)

lemma value_error_None:
  "value_error v = None \<longleftrightarrow>
     (cv_name v = ''txn_fees'' \<longrightarrow> (\<exists>x. to_value_bool v = Ok x)) \<and>
     (cv_name v \<noteq> ''txn_fees'' \<and> cv_name v \<in> set CONFIG_FEE_KEYS \<longrightarrow> (\<exists>x. to_value_u64 v = Ok x))"
  using to_value_not_Panic [of v] by (auto simp: value_error_def split: rresult.splits)

lemma first_error_None: "first_error vs = None \<longleftrightarrow> (\<forall>v \<in> set vs. value_error v = None)"
  by (induction vs) (auto split: option.splits)

lemma set_config_value_error:
  "value_error v = Some e \<Longrightarrow> set_config_value c v = Err e"
  by (auto simp: value_error_def set_config_value_def CONFIG_FEE_KEYS_def map_ok_def
      split: if_splits rresult.splits)

lemma set_config_value_config_of:
  assumes "value_error v = None" and "first_error vs = None"
  shows "\<exists>c'. set_config_value c v = Ok c' \<and> config_of c' vs = config_of c (v # vs)"
proof -
  have ok: "\<exists>y. to_value_bool w = Ok y" if "w \<in> set vs" "cv_name w = ''txn_fees''" for w
    using assms(2) that by (auto simp: first_error_None value_error_None)
  have ok': "\<exists>y. to_value_u64 w = Ok y" if "w \<in> set vs" "cv_name w \<in> set (tl CONFIG_FEE_KEYS)" for w
    using assms(2) that by (auto simp: first_error_None value_error_None CONFIG_FEE_KEYS_def)
  show ?thesis
  proof (cases "cv_name v \<in> set CONFIG_FEE_KEYS")
    case True
    then consider "cv_name v = ''txn_fees''" | "cv_name v = ''txn_fee_multiplier''"
      | "cv_name v = ''staking_fee_txn_add_gateway_v1''" | "cv_name v = ''staking_fee_txn_add_light_gateway_v1''"
      | "cv_name v = ''staking_fee_txn_add_dataonly_gateway_v1''"
      by (auto simp: CONFIG_FEE_KEYS_def)
    then show ?thesis
    proof cases
      case 1
      then obtain x where "to_value_bool v = Ok x" using assms(1) by (auto simp: value_error_None)
      with 1 ok show ?thesis
        by (auto simp: set_config_value_def map_ok_def config_of_def last_value_other last_value_same [where x = x])
    qed (use assms(1) True ok' in \<open>auto simp: value_error_None set_config_value_def map_ok_def config_of_def
        last_value_other last_value_same CONFIG_FEE_KEYS_def\<close>)
  qed (simp add: set_config_value_def config_of_def last_value_other CONFIG_FEE_KEYS_def)
qed

lemma set_config_values_eq:
  "set_config_values c vs = (case first_error vs of Some e \<Rightarrow> Err e | None \<Rightarrow> Ok (config_of c vs))"
proof (induction vs arbitrary: c)
  case Nil
  then show ?case by (simp add: config_of_def)
next
  case (Cons v vs)
  show ?case
  proof (cases "value_error v")
    case None
    show ?thesis
    proof (cases "first_error vs")
      case F: None
      then show ?thesis using set_config_value_config_of [OF None F, of c] None by (auto simp: Cons.IH)
    next
      case (Some e)
      have "\<exists>c'. set_config_value c v = Ok c'"
        using set_config_value_config_of [OF None, of "[]" c] by auto
      then show ?thesis by (auto simp: Cons.IH None Some)
    qed
  qed (simp add: set_config_value_error)
qed

section \<open>Properties\<close>

text \<open>
  C30. Reading the fee configuration from the chain's variables gives, for every field, the value
  of the last variable of its name and the default where there is none; it fails exactly when some
  variable of one of the five names has another type or a malformed value, with the error of the
  first such variable. Variables of other names have no effect.
\<close>

theorem fee_config_equivalent:
  "TxnFeeConfig_try_from vs =
     (case first_error vs of Some e \<Rightarrow> Err e | None \<Rightarrow> Ok (config_of TxnFeeConfig_default vs))"
  by (simp add: TxnFeeConfig_try_from_def set_config_values_eq)

lemma least_units_one: "least_units 1 sz (max 1 sz)"
  by (auto simp: least_units_def max_def)

lemma least_units_smaller: "least_units u sz n \<Longrightarrow> 0 < u \<Longrightarrow> n \<le> max 1 sz"
proof -
  assume a: "least_units u sz n" "0 < u"
  have "n - 1 < sz" if "1 < n"
  proof -
    have "n - 1 \<le> u * (n - 1)" using a(2) by simp
    also have "\<dots> < sz" using a(1) that by (simp add: least_units_def)
    finally show ?thesis .
  qed
  then show ?thesis by linarith
qed

text \<open>
  C40. The fee of a transaction is the multiplier times the least number of units, at least one,
  that hold its encoding; the product is exact as long as it fits 64 bits. A unit is 24 bytes when
  transaction fees are active and a single byte when they are not, so that switching fees off makes
  the number of units the size itself, and never lowers the fee as long as that product fits 64 bits.
  With fees active the size is rounded up in 64 bits: the 23 largest sizes wrap around and cost nothing.
\<close>

theorem txn_fee_value:
  "(if txn_fees c \<and> 2 ^ 64 - 24 < unat sz then get_txn_fee c sz = 0
    else \<exists>n. least_units (if txn_fees c then 24 else 1) (unat sz) n \<and> get_txn_fee c sz = of_nat n * txn_fee_multiplier c \<and>
      (n * unat (txn_fee_multiplier c) < 2 ^ 64 \<longrightarrow> unat (get_txn_fee c sz) = n * unat (txn_fee_multiplier c))) \<and>
   get_txn_fee (c\<lparr>txn_fees := False\<rparr>) sz = of_nat (max 1 (unat sz)) * txn_fee_multiplier c \<and>
   (max 1 (unat sz) * unat (txn_fee_multiplier c) < 2 ^ 64 \<longrightarrow> get_txn_fee c sz \<le> get_txn_fee (c\<lparr>txn_fees := False\<rparr>) sz)"
proof -
  let ?m = "txn_fee_multiplier c" and ?k = "max 1 (unat sz)"
  have u: "unit_size c = (if txn_fees c then 24 else 1)" "unit_size (c\<lparr>txn_fees := False\<rparr>) = 1" by (simp_all add: unit_size_def)
  from get_txn_fee_units [of "c\<lparr>txn_fees := False\<rparr>" sz] have off: "get_txn_fee (c\<lparr>txn_fees := False\<rparr>) sz = of_nat ?k * ?m"
    using least_units_unique [OF _ least_units_one [of "unat sz"]] by (auto simp: u)
  show ?thesis
  proof (cases "txn_fees c \<and> 2 ^ 64 - 24 < unat sz")
    case True
    then show ?thesis using get_txn_fee_wraps [of c sz] off by simp
  next
    case False
    then obtain n where n: "least_units (unit_size c) (unat sz) n" "get_txn_fee c sz = of_nat n * ?m"
      using get_txn_fee_units [of c sz] by auto
    have le: "n \<le> ?k" using least_units_smaller [OF n(1)] by (simp add: u)
    have "get_txn_fee c sz \<le> of_nat ?k * ?m" if w: "?k * unat ?m < 2 ^ 64"
    proof -
      have "n * unat ?m \<le> ?k * unat ?m" using le by (rule mult_le_mono1)
      then have "unat (of_nat n * ?m) = n * unat ?m" "unat (of_nat ?k * ?m) = ?k * unat ?m"
        using fee_no_wrap [of n ?m] fee_no_wrap [OF w] w by linarith+
      with \<open>n * unat ?m \<le> ?k * unat ?m\<close> show ?thesis by (simp only: n(2) word_le_nat_alt)
    qed
    with False n off u fee_no_wrap [of n ?m] show ?thesis by auto
  qed
qed

theorem txn_fee_value_witness:
  "(\<exists>n. least_units 24 300 n \<and> unat (get_txn_fee TxnFeeConfig_default 300) = n * 5000) \<and>
   get_txn_fee TxnFeeConfig_default 300 \<le> get_txn_fee (TxnFeeConfig_default\<lparr>txn_fees := False\<rparr>) 300"
proof -
  have u: "txn_fees TxnFeeConfig_default" "unat (txn_fee_multiplier TxnFeeConfig_default) = 5000"
    by (simp_all add: TxnFeeConfig_default_def TXN_FEE_MULTIPLIER_def)
  note fee = txn_fee_value [of TxnFeeConfig_default 300]
  from fee obtain n where n: "least_units 24 300 n"
    "n * 5000 < 2 ^ 64 \<longrightarrow> unat (get_txn_fee TxnFeeConfig_default 300) = n * 5000"
    by (auto simp: u)
  have "1 < n \<longrightarrow> 24 * (n - 1) < 300" using n(1) by (auto simp: least_units_def)
  then have "n \<le> 300" by linarith
  with n fee show ?thesis by (auto simp: u)
qed

end
