(* ===== verification/Router_Client.thy ===== *)
theory Router_Client
  imports State_Channel
begin

text \<open>
  The client of one router (\<^verbatim>\<open>src/router/client.rs\<close>, \<^verbatim>\<open>src/service/router.rs\<close>): it
  queues uplinks, sends the queue, hands the router's answers to the gateway as downlinks, and
  collects expired packets. The router, the clock and the gateway's message channel are
  parameters that act on a state of the world; the messages sent and the downlinks handed over
  are also returned as a trace. The arms of the run loop's \<^verbatim>\<open>select!\<close> are its inputs.
\<close>

record 'w router_ext =
  rpc_route :: "SCMessage \<Rightarrow> 'w \<Rightarrow> (foreign + SCMessage) \<times> 'w"
  clock_now :: "'w \<Rightarrow> instant \<times> 'w"
  send_downlink :: "Packet \<Rightarrow> 'w \<Rightarrow> bool \<times> 'w"
  sc_encode :: "SCPacket \<Rightarrow> bytes"

record RouterClient =
  rc_uri :: KeyedUri
  rc_oui :: u32
  rc_region :: Region
  rc_keypair :: Keypair
  rc_store :: RouterStore

datatype rc_event = Ev_Routed SCMessage | Ev_Downlink Packet

datatype rc_message = RM_Uplink Packet instant | RM_RegionChanged Region | RM_Stop

datatype rc_input = RI_Shutdown | RI_Message "rc_message option" | RI_GcTick

datatype 's loop_state = Running 's | Returned "unit gw_result"

definition STORE_GC_INTERVAL :: duration where
  "STORE_GC_INTERVAL = secs 60"

definition RouterClient_new :: "u32 \<Rightarrow> Region \<Rightarrow> KeyedUri \<Rightarrow> Keypair \<Rightarrow> u16 \<Rightarrow> RouterClient gw_result" where
  "RouterClient_new o_ui rg u kp max_pkts =
     Ok \<lparr>rc_uri = u, rc_oui = o_ui, rc_region = rg, rc_keypair = kp, rc_store = RouterStore_new max_pkts\<rparr>"

definition RouterService_route :: "'w router_ext \<Rightarrow> SCMessage \<Rightarrow> 'w \<Rightarrow> SCMessage gw_result \<times> 'w \<times> rc_event list" where
  "RouterService_route E msg w =
     (let (r, w) = rpc_route E msg w in (foreign_r from_status r, w, [Ev_Routed msg]))"

definition send_packet ::
  "'w router_ext \<Rightarrow> RouterClient \<Rightarrow> QuePacket \<Rightarrow> 'w \<Rightarrow>
     StateChannelMessage option gw_result \<times> 'w \<times> rc_event list" where
  "send_packet E c q w =
     (let (now, w) = clock_now E w;
          hold = of_nat (hold_time now q div 1000000)
      in case StateChannelMessage_packet (sc_encode E) (qp_packet q) (rc_keypair c) (rc_region c) hold of
           Ok message \<Rightarrow>
             (let (r, w, ev) = RouterService_route E (to_message message) w
              in (map_ok from_message r, w, ev))
         | Err e \<Rightarrow> (Err e, w, [])
         | Panic \<Rightarrow> (Panic, w, []))"

definition rc_handle_downlink :: "'w router_ext \<Rightarrow> Packet \<Rightarrow> 'w \<Rightarrow> 'w \<times> rc_event list" where
  "rc_handle_downlink E packet w = (let (_, w) = send_downlink E packet w in (w, [Ev_Downlink packet]))"

definition handle_response ::
  "'w router_ext \<Rightarrow> StateChannelMessage option \<Rightarrow> 'w \<Rightarrow> 'w \<times> rc_event list" where
  "handle_response E m w =
     (case m of
        None \<Rightarrow> (w, [])
      | Some message \<Rightarrow> (case to_downlink message of
          Ok (Some packet) \<Rightarrow> rc_handle_downlink E packet w
        | _ \<Rightarrow> (w, [])))"

lemma pop_front_less: "Some x = fst (pop_front xs) \<Longrightarrow> length (snd (pop_front xs)) < length xs"
  by (cases xs) auto

function send_waiting_packets ::
  "'w router_ext \<Rightarrow> RouterClient \<Rightarrow> 'w \<Rightarrow> unit gw_result \<times> RouterClient \<times> 'w \<times> rc_event list" where
  "send_waiting_packets E c w =
     (case pop_waiting_packet (rc_store c) of
        (None, s) \<Rightarrow> (Ok (), c\<lparr>rc_store := s\<rparr>, w, [])
      | (Some q, s) \<Rightarrow>
          (case send_packet E (c\<lparr>rc_store := s\<rparr>) q w of
             (Ok m, w, ev) \<Rightarrow>
               (let (w, ev') = handle_response E m w;
                    (r, c, w, ev'') = send_waiting_packets E (c\<lparr>rc_store := s\<rparr>) w
                in (r, c, w, ev @ ev' @ ev''))
           | (Err e, w, ev) \<Rightarrow> (Err e, c\<lparr>rc_store := s\<rparr>, w, ev)
           | (Panic, w, ev) \<Rightarrow> (Panic, c\<lparr>rc_store := s\<rparr>, w, ev)))"
  by pat_completeness auto
termination
  by (relation "measure (\<lambda>(E, c, w). length (waiting_packets (rc_store c)))")
    (auto simp: pop_waiting_packet_def case_prod_beta intro: pop_front_less)

declare send_waiting_packets.simps [simp del]

definition rc_handle_uplink ::
  "'w router_ext \<Rightarrow> RouterClient \<Rightarrow> Packet \<Rightarrow> instant \<Rightarrow> 'w \<Rightarrow>
     unit gw_result \<times> RouterClient \<times> 'w \<times> rc_event list" where
  "rc_handle_uplink E c uplink received w =
     (case store_waiting_packet (rc_store c) uplink received of
        (Ok _, s) \<Rightarrow> send_waiting_packets E (c\<lparr>rc_store := s\<rparr>) w
      | (Err e, s) \<Rightarrow> (Err e, c\<lparr>rc_store := s\<rparr>, w, [])
      | (Panic, s) \<Rightarrow> (Panic, c\<lparr>rc_store := s\<rparr>, w, []))"

text \<open>One iteration of the run loop; an error of an uplink is logged and ignored.\<close>

definition rc_step ::
  "'w router_ext \<Rightarrow> RouterClient \<Rightarrow> rc_input \<Rightarrow> 'w \<Rightarrow> RouterClient loop_state \<times> 'w \<times> rc_event list" where
  "rc_step E c i w =
     (case i of
        RI_Shutdown \<Rightarrow> (Returned (Ok ()), w, [])
      | RI_Message (Some (RM_Uplink packet received)) \<Rightarrow>
          (case rc_handle_uplink E c packet received w of
             (Panic, c, w, ev) \<Rightarrow> (Returned Panic, w, ev)
           | (_, c, w, ev) \<Rightarrow> (Running c, w, ev))
      | RI_Message (Some (RM_RegionChanged rg)) \<Rightarrow> (Running (c\<lparr>rc_region := rg\<rparr>), w, [])
      | RI_Message (Some RM_Stop) \<Rightarrow> (Returned (Ok ()), w, [])
      | RI_Message None \<Rightarrow> (Running c, w, [])
      | RI_GcTick \<Rightarrow>
          (let (now, w) = clock_now E w;
               (_, s) = gc_waiting_packets (rc_store c) now STORE_GC_INTERVAL
           in (Running (c\<lparr>rc_store := s\<rparr>), w, [])))"

section \<open>Accounting of packets\<close>

definition routed_packet :: "rc_event \<Rightarrow> Packet option" where
  "routed_packet e =
     (case e of
        Ev_Routed m \<Rightarrow> (case scm_msg m of Some (Msg_Packet p) \<Rightarrow> scp_packet p | _ \<Rightarrow> None)
      | Ev_Downlink _ \<Rightarrow> None)"

definition sent_packets :: "rc_event list \<Rightarrow> Packet list" where
  "sent_packets ev = List.map_filter routed_packet ev"

lemma sent_packets_append [simp]: "sent_packets (a @ b) = sent_packets a @ sent_packets b"
  by (simp add: sent_packets_def map_filter_def)

lemma sent_packets_Nil [simp]: "sent_packets [] = []"
  by (simp add: sent_packets_def map_filter_def)

lemma handle_response_sent [simp]: "sent_packets (snd (handle_response E m w)) = []"
  by (auto simp: handle_response_def rc_handle_downlink_def sent_packets_def map_filter_def routed_packet_def
      split: option.splits rresult.splits prod.splits)

text \<open>A packet is either routed or its message could not be signed.\<close>

lemma send_packet_sent:
  assumes "send_packet E c q w = (r, w', ev)"
  shows "r \<noteq> Panic \<and> (sent_packets ev = [qp_packet q] \<or> sent_packets ev = [] \<and> (\<forall>m. r \<noteq> Ok m))"
proof -
  let ?m = "\<lambda>h. StateChannelMessage_packet (sc_encode E) (qp_packet q) (rc_keypair c) (rc_region c) h"
  have "?m h \<noteq> Panic" for h
    by (auto simp: StateChannelMessage_packet_def SCPacket_sign_def msg_sign_def bind_r_Panic_iff)
  moreover have "sent_packets [Ev_Routed (to_message m)] = [qp_packet q]" if "?m h = Ok m" for h m
    using that by (auto simp: StateChannelMessage_packet_def bind_r_Ok_iff sent_packets_def map_filter_def routed_packet_def)
  ultimately show ?thesis
    using assms
    by (auto simp: send_packet_def RouterService_route_def Let_def split: prod.splits rresult.splits)
qed

lemma send_waiting_packets_split:
  "send_waiting_packets E c w = (r, c', w', ev) \<Longrightarrow>
   \<exists>attempted. waiting_packets (rc_store c) = attempted @ waiting_packets (rc_store c') \<and>
     r \<noteq> Panic \<and> c' = c\<lparr>rc_store := rc_store c'\<rparr> \<and> max_packets (rc_store c') = max_packets (rc_store c) \<and>
     (r = Ok () \<longrightarrow> waiting_packets (rc_store c') = [] \<and> sent_packets ev = map qp_packet attempted) \<and>
     (r \<noteq> Ok () \<longrightarrow> attempted \<noteq> [] \<and>
        sent_packets ev \<in> {map qp_packet attempted, map qp_packet (butlast attempted)})"
proof (induction E c w arbitrary: r c' w' ev rule: send_waiting_packets.induct)
  case (1 E c w)
  obtain s where s: "rc_store c = s" by simp
  show ?case
  proof (cases "waiting_packets s")
    case Nil
    then show ?thesis
      using "1.prems" by (auto simp: s send_waiting_packets.simps [of E c] pop_waiting_packet_def)
  next
    case (Cons q qs)
    let ?c = "c\<lparr>rc_store := s\<lparr>waiting_packets := qs\<rparr>\<rparr>"
    have pop: "pop_waiting_packet (rc_store c) = (Some q, s\<lparr>waiting_packets := qs\<rparr>)"
      by (simp add: s pop_waiting_packet_def Cons)
    obtain r0 w0 ev0 where sp: "send_packet E ?c q w = (r0, w0, ev0)" by (metis prod_cases3)
    note sent = send_packet_sent [OF sp]
    show ?thesis
    proof (cases r0)
      case (Ok m)
      obtain w1 ev1 where h: "handle_response E m w0 = (w1, ev1)" by fastforce
      obtain r2 c2 w2 ev2 where rec: "send_waiting_packets E ?c w1 = (r2, c2, w2, ev2)" by (metis prod_cases4)
      have eq: "r = r2" "c' = c2" "ev = ev0 @ ev1 @ ev2"
        using "1.prems" by (simp_all add: send_waiting_packets.simps [of E c] pop sp Ok h rec)
      have e1: "sent_packets ev1 = []" using handle_response_sent [of E m w0] by (simp add: h)
      from "1.IH" [OF pop [symmetric] refl sp [symmetric] Ok refl refl h [symmetric] rec]
      obtain att where att: "qs = att @ waiting_packets (rc_store c2)" "r2 \<noteq> Panic"
        "c2 = c\<lparr>rc_store := rc_store c2\<rparr>" "max_packets (rc_store c2) = max_packets s"
        "r2 = Ok () \<longrightarrow> waiting_packets (rc_store c2) = [] \<and> sent_packets ev2 = map qp_packet att"
        "r2 \<noteq> Ok () \<longrightarrow> att \<noteq> [] \<and> sent_packets ev2 \<in> {map qp_packet att, map qp_packet (butlast att)}"
        by auto
      have "sent_packets ev0 = [qp_packet q]" using sent Ok by auto
      with att e1 show ?thesis
        by (intro exI [of _ "q # att"]) (auto simp: eq s Cons)
    next
      case (Err e)
      then have "r = Err e" "c' = ?c" "ev = ev0"
        using "1.prems" by (simp_all add: send_waiting_packets.simps [of E c] pop sp)
      with sent show ?thesis by (intro exI [of _ "[q]"]) (auto simp: Cons s)
    next
      case Panic
      then show ?thesis using sent by simp
    qed
  qed
qed

text \<open>Sending never fails when every message can be signed and the router always answers.\<close>

definition reliable :: "'w router_ext \<Rightarrow> Keypair \<Rightarrow> bool" where
  "reliable E kp \<longleftrightarrow> (\<forall>buf. \<exists>sig. kp_sign kp buf = Inr sig) \<and>
     (\<forall>m w. \<exists>r w'. rpc_route E m w = (Inr r, w'))"

lemma send_packet_reliable:
  assumes "reliable E (rc_keypair c)"
  shows "\<exists>m w' ev. send_packet E c q w = (Ok m, w', ev)"
proof -
  obtain now w1 where n: "clock_now E w = (now, w1)" by fastforce
  have "\<exists>m. StateChannelMessage_packet (sc_encode E) p (rc_keypair c) rg h = Ok m" for p rg h
    using assms by (auto simp: reliable_def StateChannelMessage_packet_def SCPacket_sign_def msg_sign_def
        Let_def) (metis bind_r.simps(1) foreign_r_simps(2))
  then obtain m where m: "StateChannelMessage_packet (sc_encode E) (qp_packet q) (rc_keypair c) (rc_region c)
     (of_nat (hold_time now q div 1000000)) = Ok m" by blast
  obtain r w2 where r: "rpc_route E (to_message m) w1 = (Inr r, w2)"
    using assms by (auto simp: reliable_def) (metis prod.collapse)
  show ?thesis by (simp add: send_packet_def n m RouterService_route_def r)
qed

lemma send_waiting_packets_reliable:
  "reliable E (rc_keypair c) \<Longrightarrow> fst (send_waiting_packets E c w) = Ok ()"
proof (induction E c w rule: send_waiting_packets.induct)
  case (1 E c w)
  show ?case
  proof (cases "waiting_packets (rc_store c)")
    case Nil
    then show ?thesis by (simp add: send_waiting_packets.simps [of E c] pop_waiting_packet_def)
  next
    case (Cons q qs)
    let ?c = "c\<lparr>rc_store := rc_store c\<lparr>waiting_packets := qs\<rparr>\<rparr>"
    have pop: "pop_waiting_packet (rc_store c) = (Some q, rc_store c\<lparr>waiting_packets := qs\<rparr>)"
      by (simp add: pop_waiting_packet_def Cons)
    obtain m w0 ev0 where sp: "send_packet E ?c q w = (Ok m, w0, ev0)"
      using send_packet_reliable [of E ?c q w] "1.prems" by auto
    obtain w1 ev1 where h: "handle_response E m w0 = (w1, ev1)" by fastforce
    have "fst (send_waiting_packets E ?c w1) = Ok ()"
      using "1.IH" [OF pop [symmetric] refl sp [symmetric] refl refl refl h [symmetric]] "1.prems" by simp
    then show ?thesis
      by (simp add: send_waiting_packets.simps [of E c] pop sp h case_prod_beta Let_def)
  qed
qed

section \<open>The run loop\<close>

text \<open>The states a client reaches from its start through any inputs and any world.\<close>

inductive rc_reachable :: "'w router_ext \<Rightarrow> RouterClient \<Rightarrow> RouterClient \<Rightarrow> bool"
  for E :: "'w router_ext" and c0 :: RouterClient where
  rc_start: "rc_reachable E c0 c0"
| rc_next: "rc_reachable E c0 c \<Longrightarrow> rc_step E c i w = (Running c', w', ev) \<Longrightarrow> rc_reachable E c0 c'"

lemma rc_handle_uplink_eq:
  "rc_handle_uplink E c p t w =
     send_waiting_packets E (c\<lparr>rc_store := store_push (rc_store c) \<lparr>qp_received = t, qp_packet = p\<rparr>\<rparr>) w"
  by (simp add: rc_handle_uplink_def store_waiting_packet_eq)

lemma send_waiting_packets_bounded:
  assumes "send_waiting_packets E c w = (r, c', w', ev)" and "rs.bounded (rc_store c)"
  shows "rs.bounded (rc_store c') \<and> rc_uri c' = rc_uri c \<and> rc_oui c' = rc_oui c \<and>
    rc_keypair c' = rc_keypair c \<and> max_packets (rc_store c') = max_packets (rc_store c)"
proof -
  obtain att where a: "waiting_packets (rc_store c) = att @ waiting_packets (rc_store c')"
    "c' = c\<lparr>rc_store := rc_store c'\<rparr>" "max_packets (rc_store c') = max_packets (rc_store c)"
    using send_waiting_packets_split [OF assms(1)] by blast
  have "rc_uri c' = rc_uri c \<and> rc_oui c' = rc_oui c \<and> rc_keypair c' = rc_keypair c"
    by (subst (1 2 3) a(2)) simp
  with a(1,3) assms(2) show ?thesis by (simp add: rs.bounded_def)
qed

definition rc_inv :: "RouterClient \<Rightarrow> RouterClient \<Rightarrow> bool" where
  "rc_inv c0 c \<longleftrightarrow> rs.bounded (rc_store c) \<and> rc_uri c = rc_uri c0 \<and> rc_oui c = rc_oui c0 \<and>
     rc_keypair c = rc_keypair c0 \<and> max_packets (rc_store c) = max_packets (rc_store c0)"

lemma rc_step_inv:
  assumes "rc_step E c i w = (Running c', w', ev)" and "rc_inv c0 c"
  shows "rc_inv c0 c'"
proof (cases "\<exists>p t. i = RI_Message (Some (RM_Uplink p t))")
  case True
  then obtain p t where i: "i = RI_Message (Some (RM_Uplink p t))" by blast
  let ?c = "c\<lparr>rc_store := store_push (rc_store c) \<lparr>qp_received = t, qp_packet = p\<rparr>\<rparr>"
  obtain r c1 w1 ev1 where s: "send_waiting_packets E ?c w = (r, c1, w1, ev1)" by (metis prod_cases4)
  have "c' = c1" using assms(1) by (cases r) (simp_all add: rc_step_def i rc_handle_uplink_eq s)
  moreover have "rs.bounded (rc_store ?c)" using assms(2) by (simp add: rc_inv_def rs.push_bounded)
  ultimately show ?thesis
    using send_waiting_packets_bounded [OF s] assms(2) rs.push_capacity [of "rc_store c"]
    by (simp add: rc_inv_def word_unat_eq_iff)
next
  case False
  then show ?thesis
    using assms gc_bounded
    by (auto simp: rc_step_def rc_inv_def gc_waiting_packets_def rs.bounded_def Let_def
        split: rc_input.splits option.splits rc_message.splits prod.splits
        intro: le_trans [OF length_filter_le])
qed

lemma rc_reachable_inv: "rc_reachable E c0 c \<Longrightarrow> rs.bounded (rc_store c0) \<Longrightarrow> rc_inv c0 c"
  by (induction rule: rc_reachable.induct) (auto intro: rc_step_inv simp: rc_inv_def [of c0 c0])

section \<open>Properties\<close>

text \<open>
  C12. Handling an uplink accounts for every packet. The queue, with the new packet and
  without the oldest one when it is full, is split in order into the packets whose sending was
  attempted and the packets that still wait. When the handler succeeds nothing waits and
  everything was sent in order. When it fails, the packets before the failing one were sent,
  and the failing packet is gone from the queue: it is not tried again.
\<close>

theorem uplink_accounting:
  assumes "rc_handle_uplink E c p t w = (r, c', w', ev)"
    and "waiting_packets_len (rc_store c) \<le> unat (max_packets (rc_store c))"
  shows "\<exists>attempted.
    lastn (unat (max_packets (rc_store c))) (waiting_packets (rc_store c) @ [\<lparr>qp_received = t, qp_packet = p\<rparr>])
      = attempted @ waiting_packets (rc_store c') \<and>
    (r = Ok () \<longrightarrow> waiting_packets (rc_store c') = [] \<and> sent_packets ev = map qp_packet attempted) \<and>
    (r \<noteq> Ok () \<longrightarrow> attempted \<noteq> [] \<and>
       sent_packets ev \<in> {map qp_packet attempted, map qp_packet (butlast attempted)})"
proof -
  have "waiting_packets (store_push (rc_store c) \<lparr>qp_received = t, qp_packet = p\<rparr>) =
      lastn (unat (max_packets (rc_store c))) (waiting_packets (rc_store c) @ [\<lparr>qp_received = t, qp_packet = p\<rparr>])"
    using assms(2) by (intro rs.push_contents) (simp add: waiting_packets_len_def)
  with send_waiting_packets_split [OF assms(1) [unfolded rc_handle_uplink_eq]] show ?thesis
    by auto
qed

definition sample_ext :: "unit router_ext" where
  "sample_ext = \<lparr>rpc_route = (\<lambda>m w. (Inr \<lparr>scm_msg = Some (Msg_Response \<lparr>scr_downlink = None\<rparr>)\<rparr>, w)),
     clock_now = (\<lambda>w. (100, w)), send_downlink = (\<lambda>p w. (True, w)), sc_encode = sample_encode\<rparr>"

definition sample_client :: RouterClient where
  "sample_client = \<lparr>rc_uri = \<lparr>ku_uri = [1], ku_pubkey = [2]\<rparr>, rc_oui = 1, rc_region = Region 0,
     rc_keypair = sample_keypair, rc_store = sample_store\<rparr>"

lemma sample_reliable: "reliable sample_ext (rc_keypair sample_client)"
  by (simp add: reliable_def sample_ext_def sample_client_def sample_keypair_def)

theorem uplink_accounting_witness:
  "\<exists>attempted. lastn 2 (waiting_packets sample_store @ [\<lparr>qp_received = 60, qp_packet = sample_packet 3\<rparr>]) =
     attempted @ waiting_packets (rc_store (fst (snd
       (rc_handle_uplink sample_ext sample_client (sample_packet 3) 60 ()))))"
proof -
  obtain r c' w' ev where h: "rc_handle_uplink sample_ext sample_client (sample_packet 3) 60 () = (r, c', w', ev)"
    by (metis prod_cases4)
  have s: "rc_store sample_client = sample_store" "max_packets sample_store = 2"
    "waiting_packets_len sample_store = 2"
    by (simp_all add: sample_client_def sample_store_def waiting_packets_len_def)
  show ?thesis using uplink_accounting [OF h] by (auto simp: h s)
qed

text \<open>
  C13. While the router answers and messages can be signed, handling an uplink succeeds,
  empties the queue and sends all of it, oldest first, the new packet last.
\<close>

theorem uplink_delivered:
  assumes "reliable E (rc_keypair c)"
    and "waiting_packets_len (rc_store c) \<le> unat (max_packets (rc_store c))"
  shows "\<exists>c' w' ev. rc_handle_uplink E c p t w = (Ok (), c', w', ev) \<and>
    waiting_packets (rc_store c') = [] \<and>
    sent_packets ev = map qp_packet (lastn (unat (max_packets (rc_store c)))
      (waiting_packets (rc_store c) @ [\<lparr>qp_received = t, qp_packet = p\<rparr>]))"
proof -
  let ?c = "c\<lparr>rc_store := store_push (rc_store c) \<lparr>qp_received = t, qp_packet = p\<rparr>\<rparr>"
  obtain r c' w' ev where h: "send_waiting_packets E ?c w = (r, c', w', ev)" by (metis prod_cases4)
  moreover have "r = Ok ()" using send_waiting_packets_reliable [of E ?c w] assms(1) h by simp
  moreover have "waiting_packets (rc_store ?c) =
      lastn (unat (max_packets (rc_store c))) (waiting_packets (rc_store c) @ [\<lparr>qp_received = t, qp_packet = p\<rparr>])"
    using assms(2) by (simp add: rs.push_contents waiting_packets_len_def)
  ultimately show ?thesis
    using send_waiting_packets_split [OF h] by (auto simp: rc_handle_uplink_eq)
qed

theorem uplink_delivered_witness:
  "\<exists>c' w' ev. rc_handle_uplink sample_ext sample_client (sample_packet 3) 60 () = (Ok (), c', w', ev) \<and>
     sent_packets ev = [sample_packet 2, sample_packet 3]"
  using uplink_delivered [OF sample_reliable, of "sample_packet 3" 60 "()"]
  by (auto simp: sample_client_def sample_store_def waiting_packets_len_def lastn_def)

text \<open>
  Whatever messages, timer ticks and router answers arrive, a running client never holds
  more than the configured number of packets, and keeps its organization, router address and
  key pair.
\<close>

theorem client_always_bounded:
  assumes "RouterClient_new o_ui rg u kp m = Ok c0" and "rc_reachable E c0 c"
  shows "waiting_packets_len (rc_store c) \<le> unat m \<and>
    rc_oui c = o_ui \<and> rc_uri c = u \<and> rc_keypair c = kp"
proof -
  have c0: "rs.bounded (rc_store c0)" using assms(1) by (auto simp: RouterClient_new_def RouterStore_new_def rs.bounded_def)
  show ?thesis
    using rc_reachable_inv [OF assms(2) c0] assms(1)
    by (auto simp: rc_inv_def rs.bounded_def waiting_packets_len_def RouterClient_new_def RouterStore_new_def)
qed

end
