(* ===== verification/Dispatcher.thy ===== *)
theory Dispatcher
  imports Router_Client Gateway_Service
begin

text \<open>
  The dispatcher (\<^verbatim>\<open>src/router/dispatcher.rs\<close>): it keeps one router client per
  organization and router address, learns them from a validator's routing stream, forwards
  every uplink to the routers it matches, and follows the region of the gateway. The map of
  routers is a list of entries with distinct keys, whose order stands for the unspecified
  iteration order. A spawned router client is identified by a channel number; messages put into
  channels are effects, and a send to a closed channel is ignored by the code as it is here.
\<close>

record RouterKey =
  rk_oui :: u32
  rk_uri :: KeyedUri

record RouterEntry =
  re_routing :: Routing
  re_dispatch :: nat

record HeightResponse =
  hr_gateway :: KeyedUri
  hr_height :: u64
  hr_block_age :: u64
  hr_gateway_version :: u64

datatype d_message =
    DM_Uplink Packet instant
  | DM_Config "string list" nat
  | DM_Height nat
  | DM_Region nat

datatype reply =
    Reply_Config "BlockchainVar list gw_result"
  | Reply_Height "HeightResponse gw_result"
  | Reply_Region "Region gw_result"

datatype effect =
    Eff_Spawn nat RouterClient
  | Eff_Router nat rc_message
  | Eff_RegionParams RegionParams
  | Eff_Reply nat reply

record Dispatcher =
  d_keypair :: Keypair
  d_region :: Region
  d_seed_gateways :: "KeyedUri list"
  routing_height :: u64
  region_height :: u64
  cache_max_packets :: u16
  gateway_retry :: u32
  routers :: "(RouterKey \<times> RouterEntry) list"
  default_routers :: "KeyedUri list option"
  next_channel :: nat

definition GATEWAY_BACKOFF_RETRIES :: u32 where "GATEWAY_BACKOFF_RETRIES = 10"
definition GATEWAY_BACKOFF_MIN_WAIT :: duration where "GATEWAY_BACKOFF_MIN_WAIT = secs 5"
definition GATEWAY_BACKOFF_MAX_WAIT :: duration where "GATEWAY_BACKOFF_MAX_WAIT = secs 1800"
definition GATEWAY_CHECK_INTERVAL :: duration where "GATEWAY_CHECK_INTERVAL = secs 900"
definition GATEWAY_MAX_BLOCK_AGE :: u64 where "GATEWAY_MAX_BLOCK_AGE = 1800"

definition Dispatcher_new ::
  "Keypair \<Rightarrow> Region \<Rightarrow> KeyedUri list \<Rightarrow> KeyedUri list option \<Rightarrow> u16 \<Rightarrow> Dispatcher gw_result" where
  "Dispatcher_new keypair rg gateways settings_routers max_pkts =
     Ok \<lparr>d_keypair = keypair, d_region = rg, d_seed_gateways = gateways, routing_height = 0,
         region_height = 0, cache_max_packets = max_pkts, gateway_retry = 0, routers = [],
         default_routers = settings_routers, next_channel = 0\<rparr>"

section \<open>Uplinks\<close>

definition d_handle_uplink :: "filter_hash \<Rightarrow> Dispatcher \<Rightarrow> Packet \<Rightarrow> instant \<Rightarrow> effect list" where
  "d_handle_uplink H d packet received =
     (let matching = filter (\<lambda>(_, e). matches_routing_info H (re_routing e) (p_routing packet)) (routers d);
          handled = (matching \<noteq> []);
          eff = map (\<lambda>(_, e). Eff_Router (re_dispatch e) (RM_Uplink packet received)) matching
      in if \<not> handled then
           (case default_routers d of
              Some def \<Rightarrow>
                eff @ map (\<lambda>(_, e). Eff_Router (re_dispatch e) (RM_Uplink packet received))
                        (filter (\<lambda>(k, _). List.member def (rk_uri k)) (routers d))
            | None \<Rightarrow> eff)
         else eff)"

section \<open>Region updates\<close>

definition handle_region_params_update ::
  "'w gw_ext \<Rightarrow> Dispatcher \<Rightarrow> GatewayResp \<Rightarrow> Dispatcher \<times> effect list" where
  "handle_region_params_update X d response =
     (let update_height = gr_height response in
      if update_height \<le> region_height d then (d, [])
      else case response_region_params X response of
        Ok rp \<Rightarrow>
          (let d = d\<lparr>region_height := update_height, d_region := region rp\<rparr>
           in (d, Eff_RegionParams rp #
                  map (\<lambda>(_, e). Eff_Router (re_dispatch e) (RM_RegionChanged (d_region d))) (routers d)))
      | _ \<Rightarrow> (d, []))"

section \<open>Routing updates\<close>

text \<open>The new client is spawned and reached through a new channel.\<close>

definition start_router :: "Dispatcher \<Rightarrow> Routing \<Rightarrow> KeyedUri \<Rightarrow> RouterEntry gw_result \<times> Dispatcher \<times> effect list" where
  "start_router d routing uri =
     (let ch = next_channel d in
      case RouterClient_new (oui routing) (d_region d) uri (d_keypair d) (cache_max_packets d) of
        Ok client \<Rightarrow>
          (Ok \<lparr>re_routing = routing, re_dispatch = ch\<rparr>, d\<lparr>next_channel := Suc ch\<rparr>, [Eff_Spawn ch client])
      | Err e \<Rightarrow> (Err e, d, [])
      | Panic \<Rightarrow> (Panic, d, []))"

text \<open>The body of the loop over the addresses of a routing entry.\<close>

definition update_router :: "Routing \<Rightarrow> Dispatcher \<Rightarrow> KeyedUri \<Rightarrow> Dispatcher \<times> effect list" where
  "update_router routing d uri =
     (let key = \<lparr>rk_oui = oui routing, rk_uri = uri\<rparr> in
      case map_of (routers d) key of
        Some _ \<Rightarrow>
          (d\<lparr>routers := map (\<lambda>(k, e). (k, if k = key then e\<lparr>re_routing := routing\<rparr> else e)) (routers d)\<rparr>, [])
      | None \<Rightarrow>
          (case start_router d routing uri of
             (Ok entry, d, eff) \<Rightarrow> (d\<lparr>routers := routers d @ [(key, entry)]\<rparr>, eff)
           | (_, d, eff) \<Rightarrow> (d, eff)))"

primrec update_routers :: "Routing \<Rightarrow> KeyedUri list \<Rightarrow> Dispatcher \<Rightarrow> Dispatcher \<times> effect list" where
  "update_routers routing [] d = (d, [])"
| "update_routers routing (u # us) d =
     (let (d, eff) = update_router routing d u;
          (d, eff') = update_routers routing us d
      in (d, eff @ eff'))"

text \<open>The test of \<^verbatim>\<open>retain\<close>: the entry is asked for its own key, in its own routing.\<close>

definition removable :: "Routing \<Rightarrow> RouterKey \<times> RouterEntry \<Rightarrow> bool" where
  "removable routing ke \<longleftrightarrow>
     rk_oui (fst ke) = oui routing \<and> \<not> contains_uri (re_routing (snd ke)) (rk_uri (fst ke))"

definition handle_oui_routing_update :: "Routing \<Rightarrow> Dispatcher \<Rightarrow> Dispatcher \<times> effect list" where
  "handle_oui_routing_update routing d =
     (let (d, eff) = update_routers routing (uris routing) d;
          removables = map (\<lambda>(_, e). re_dispatch e) (filter (removable routing) (routers d));
          d = d\<lparr>routers := filter (\<lambda>ke. \<not> removable routing ke) (routers d)\<rparr>
      in (d, eff @ map (\<lambda>ch. Eff_Router ch RM_Stop) removables))"

fun update_routings ::
  "addr_codec \<Rightarrow> ProtoRouting list \<Rightarrow> Dispatcher \<Rightarrow> (gw_error, Dispatcher \<times> effect list) rresult" where
  "update_routings A [] d = Ok (d, [])"
| "update_routings A (p # ps) d =
     (case Routing_from_proto A p of
        Ok routing \<Rightarrow>
          (let (d, eff) = handle_oui_routing_update routing d
           in bind_r (update_routings A ps d) (\<lambda>(d, eff'). Ok (d, eff @ eff')))
      | Err _ \<Rightarrow> update_routings A ps d
      | Panic \<Rightarrow> Panic)"

definition handle_routing_update ::
  "'w gw_ext \<Rightarrow> Dispatcher \<Rightarrow> GatewayResp \<Rightarrow> (gw_error, Dispatcher \<times> effect list) rresult" where
  "handle_routing_update X d response =
     (let update_height = gr_height response in
      if update_height \<le> routing_height d then Ok (d, [])
      else case response_routings X response of
        Ok routing_protos \<Rightarrow>
          bind_r (update_routings (addr X) routing_protos d) (\<lambda>(d, eff).
          Ok (d\<lparr>routing_height := update_height\<rparr>, eff))
      | _ \<Rightarrow> Ok (d, []))"

section \<open>Messages and the gateway connection\<close>

definition d_handle_message ::
  "filter_hash \<Rightarrow> 'w gw_ext \<Rightarrow> Dispatcher \<Rightarrow> d_message \<Rightarrow> GatewayService option \<Rightarrow> 'w \<Rightarrow> 'w \<times> effect list" where
  "d_handle_message H X d message gateway w =
     (case message of
        DM_Uplink packet received_time \<Rightarrow> (w, d_handle_uplink H d packet received_time)
      | DM_Config keys response \<Rightarrow>
          (let (reply, w) = (case gateway of
                 Some g \<Rightarrow> gs_config X g keys w
               | None \<Rightarrow> (Err error_no_service, w))
           in (w, [Eff_Reply response (Reply_Config reply)]))
      | DM_Height response \<Rightarrow>
          (let (reply, w) = (case gateway of
                 Some g \<Rightarrow>
                   (let (version, w) = gs_version X g w;
                        gateway_version = (case version of Ok v \<Rightarrow> v | _ \<Rightarrow> 0);
                        (h, w) = gs_height X g w
                    in (map_ok (\<lambda>(height, block_age).
                          \<lparr>hr_gateway = gs_uri g, hr_height = height, hr_block_age = block_age,
                           hr_gateway_version = gateway_version\<rparr>) h, w))
               | None \<Rightarrow> (Err error_no_service, w))
           in (w, [Eff_Reply response (Reply_Height reply)]))
      | DM_Region response \<Rightarrow> (w, [Eff_Reply response (Reply_Region (Ok (d_region d)))]))"

definition check_gateway :: "'w gw_ext \<Rightarrow> GatewayService \<Rightarrow> 'w \<Rightarrow> unit gw_result \<times> 'w" where
  "check_gateway X g w =
     (let (r, w) = gs_height X g w
      in (bind_r r (\<lambda>(_, block_age).
          if GATEWAY_MAX_BLOCK_AGE < block_age
          then Err (gateway_service_check block_age GATEWAY_MAX_BLOCK_AGE) else Ok ()), w))"

datatype gateway_stream = GS_Routing | GS_RegionParams

datatype d_input =
    DI_Shutdown
  | DI_Stream "(gateway_stream \<times> GatewayResp gw_result) option"
  | DI_Check
  | DI_Message "d_message option"

text \<open>One iteration of \<^verbatim>\<open>run_with_gateway\<close>; all its exits return \<^verbatim>\<open>Ok(())\<close>.\<close>

definition run_with_gateway_step ::
  "filter_hash \<Rightarrow> 'w gw_ext \<Rightarrow> GatewayService \<Rightarrow> Dispatcher \<Rightarrow> d_input \<Rightarrow> 'w \<Rightarrow>
     unit gw_result option \<times> Dispatcher \<times> 'w \<times> effect list" where
  "run_with_gateway_step H X g d i w =
     (case i of
        DI_Shutdown \<Rightarrow> (Some (Ok ()), d, w, [])
      | DI_Stream None \<Rightarrow> (Some (Ok ()), d, w, [])
      | DI_Stream (Some (stream, Ok response)) \<Rightarrow>
          (case stream of
             GS_Routing \<Rightarrow>
               (case handle_routing_update X d response of
                  Ok (d, eff) \<Rightarrow> (None, d, w, eff)
                | Err e \<Rightarrow> (Some (Err e), d, w, [])
                | Panic \<Rightarrow> (Some Panic, d, w, []))
           | GS_RegionParams \<Rightarrow>
               (let (d, eff) = handle_region_params_update X d response in (None, d, w, eff)))
      | DI_Stream (Some (stream, _)) \<Rightarrow> (Some (Ok ()), d, w, [])
      | DI_Check \<Rightarrow>
          (case check_gateway X g w of
             (Ok _, w) \<Rightarrow> (None, d\<lparr>gateway_retry := 0\<rparr>, w, [])
           | (_, w) \<Rightarrow> (Some (Ok ()), d, w, []))
      | DI_Message (Some message) \<Rightarrow>
          (let (w, eff) = d_handle_message H X d message (Some g) w in (None, d, w, eff))
      | DI_Message None \<Rightarrow> (Some (Ok ()), d, w, []))"


definition select_gateway ::
  "'w gw_ext \<Rightarrow> GatewayService \<Rightarrow> bool \<Rightarrow> 'w \<Rightarrow> GatewayService option gw_result \<times> 'w" where
  "select_gateway X seed_gateway cancelled w = random_new X seed_gateway 5 cancelled w"

text \<open>
  The two streams are opened concurrently; here the routing stream first, with its error
  reported first. The requests carry the current routing height and the gateway's key.
\<close>

definition setup_gateway_streams ::
  "'w gw_ext \<Rightarrow> Dispatcher \<Rightarrow> GatewayService option \<Rightarrow> 'w \<Rightarrow>
     (GatewayService \<times> Streaming \<times> Streaming \<times> RegionParams) option gw_result \<times> 'w" where
  "setup_gateway_streams X d gateway w =
     (case gateway of
        None \<Rightarrow> (Ok None, w)
      | Some g \<Rightarrow>
          (case region_params_for X g (d_region d) (d_keypair d) w of
             (Ok default_region_params, w) \<Rightarrow>
               (let (routing, w) = gs_routing X g (routing_height d) w;
                    (region_params, w) = gs_region_params X g (d_keypair d) w
                in (bind_r routing (\<lambda>rt. bind_r region_params (\<lambda>rp.
                    Ok (Some (g, rt, rp, default_region_params)))), w))
           | (Err e, w) \<Rightarrow> (Err e, w)
           | (Panic, w) \<Rightarrow> (Panic, w)))"

datatype wait_input = WI_Triggered | WI_Shutdown | WI_Elapsed | WI_Message "d_message option"

text \<open>
  \<^verbatim>\<open>backoff.next\<close> of the library gives the wait of a retry, or nothing when there are no
  retries left; the result includes the time slept for unless something else happens first.
\<close>

definition prepare_gateway_change ::
  "filter_hash \<Rightarrow> 'w gw_ext \<Rightarrow> (u32 \<Rightarrow> duration option) \<Rightarrow> Dispatcher \<Rightarrow> wait_input \<Rightarrow> 'w \<Rightarrow>
     Dispatcher \<times> duration \<times> 'w \<times> effect list" where
  "prepare_gateway_change H X backoff_next d i w =
     (if i = WI_Triggered then (d, 0, w, [])
      else
        let d = d\<lparr>routing_height := 0, region_height := 0\<rparr>;
            d = d\<lparr>gateway_retry := gateway_retry d + 1\<rparr>;
            sleep = (case backoff_next (gateway_retry d) of Some t \<Rightarrow> t | None \<Rightarrow> GATEWAY_BACKOFF_MAX_WAIT)
        in case i of
             WI_Message (Some message) \<Rightarrow>
               (let (w, eff) = d_handle_message H X d message None w in (d, sleep, w, eff))
           | _ \<Rightarrow> (d, sleep, w, []))"

section \<open>The run loop\<close>

datatype d_phase = Ph_Select | Ph_Connected GatewayService | Ph_Wait | Ph_Done "unit gw_result"

datatype select_input = SI_Triggered | SI_Shutdown | SI_Proceed bool

datatype run_input = RU_Select select_input | RU_Connected d_input | RU_Wait wait_input

text \<open>
  One step of \<^verbatim>\<open>run\<close>: selecting a gateway, one iteration with it, or the pause before the
  next selection. An input of another phase than the current one has no effect.
\<close>

definition select_step ::
  "'w gw_ext \<Rightarrow> Dispatcher \<Rightarrow> select_input \<Rightarrow> 'w \<Rightarrow> d_phase \<times> Dispatcher \<times> 'w \<times> effect list" where
  "select_step X d i w =
     (case i of
        SI_Triggered \<Rightarrow> (Ph_Done (Ok ()), d, w, [])
      | SI_Shutdown \<Rightarrow>
          (case select_seed X (d_seed_gateways d) w of
             (Ok _, w) \<Rightarrow> (Ph_Done (Ok ()), d, w, [])
           | (Err e, w) \<Rightarrow> (Ph_Done (Err e), d, w, [])
           | (Panic, w) \<Rightarrow> (Ph_Done Panic, d, w, []))
      | SI_Proceed cancelled \<Rightarrow>
          (case select_seed X (d_seed_gateways d) w of
             (Ok seed_gw, w) \<Rightarrow>
               (case select_gateway X seed_gw cancelled w of
                  (Ok service, w) \<Rightarrow>
                    (case setup_gateway_streams X d service w of
                       (Ok (Some (g, _, _, default_region_params)), w) \<Rightarrow>
                         (Ph_Connected g, d, w, [Eff_RegionParams default_region_params])
                     | (Ok None, w) \<Rightarrow> (Ph_Done (Ok ()), d, w, [])
                     | (Err _, w) \<Rightarrow> (Ph_Wait, d, w, [])
                     | (Panic, w) \<Rightarrow> (Ph_Done Panic, d, w, []))
                | (Err _, w) \<Rightarrow> (Ph_Wait, d, w, [])
                | (Panic, w) \<Rightarrow> (Ph_Done Panic, d, w, []))
           | (Err e, w) \<Rightarrow> (Ph_Done (Err e), d, w, [])
           | (Panic, w) \<Rightarrow> (Ph_Done Panic, d, w, [])))"

definition d_step ::
  "filter_hash \<Rightarrow> 'w gw_ext \<Rightarrow> (u32 \<Rightarrow> duration option) \<Rightarrow> d_phase \<Rightarrow> Dispatcher \<Rightarrow> run_input \<Rightarrow> 'w \<Rightarrow>
     d_phase \<times> Dispatcher \<times> 'w \<times> effect list" where
  "d_step H X backoff_next ph d i w =
     (case (ph, i) of
        (Ph_Select, RU_Select si) \<Rightarrow> select_step X d si w
      | (Ph_Connected g, RU_Connected di) \<Rightarrow>
          (case run_with_gateway_step H X g d di w of
             (None, d, w, eff) \<Rightarrow> (Ph_Connected g, d, w, eff)
           | (Some (Ok _), d, w, eff) \<Rightarrow> (Ph_Wait, d, w, eff)
           | (Some r, d, w, eff) \<Rightarrow> (Ph_Done r, d, w, eff))
      | (Ph_Wait, RU_Wait wi) \<Rightarrow>
          (let (d, _, w, eff) = prepare_gateway_change H X backoff_next d wi w in (Ph_Select, d, w, eff))
      | _ \<Rightarrow> (ph, d, w, []))"

end
