(* ===== verification/Local_Api.thy ===== *)
theory Local_Api
  imports Error_Display Txn_Fee Dispatcher
begin

text \<open>
  The local API (\<^verbatim>\<open>src/api\<close>): the handlers of the server, the calls of the client, and the
  requests the server makes of the dispatcher over its channel
  (\<^verbatim>\<open>src/router/dispatcher.rs\<close>, \<^verbatim>\<open>src/sync.rs\<close>). The transport, the protobuf codecs and
  key agreement are parameters.
\<close>

section \<open>Messages and parameters\<close>

datatype api_status = Status_internal string | Status_invalid_argument string

type_synonym 'a api_result = "(api_status, 'a) rresult"

record PubkeyRes =
  pk_address :: bytes
  pk_onboarding_address :: bytes

record AddGatewayReq =
  agr_owner :: bytes
  agr_payer :: bytes
  agr_staking_mode :: i32

record HeightRes =
  hs_height :: u64
  hs_block_age :: u64
  hs_gateway :: "LocalKeyedUri option"
  hs_gateway_version :: u64

record LocalServer =
  ls_keypair :: Keypair
  ls_onboarding_key :: pubkey
  ls_listen_port :: u16

text \<open>
  \<open>api_dispatch\<close> sends a message to the dispatcher and waits for what comes back on the response
  channel: nothing, when either channel has been closed.
\<close>

record 'w api_ext =
  api_dispatch :: "d_message \<Rightarrow> 'w \<Rightarrow> reply option \<times> 'w"
  api_addr :: addr_codec
  api_txn :: txn_codec
  api_encode_add_gateway :: "AddGatewayTxn \<Rightarrow> bytes"
  api_config_value :: "BlockchainVar \<Rightarrow> ConfigValue"
  api_mode_of_i32 :: "i32 \<Rightarrow> GatewayStakingMode"
  api_mode_to_i32 :: "GatewayStakingMode \<Rightarrow> i32"
  api_ecdh :: "Keypair \<Rightarrow> pubkey \<Rightarrow> foreign + bytes"

section \<open>Requests to the dispatcher\<close>

definition receive_reply :: "(reply \<Rightarrow> 'a gw_result option) \<Rightarrow> reply option \<Rightarrow> 'a gw_result" where
  "receive_reply f r =
     (case r of
        Some reply \<Rightarrow> (case f reply of Some x \<Rightarrow> x | None \<Rightarrow> Err error_channel)
      | None \<Rightarrow> Err error_channel)"

definition ds_config :: "'w api_ext \<Rightarrow> string list \<Rightarrow> 'w \<Rightarrow> BlockchainVar list gw_result \<times> 'w" where
  "ds_config A keys w =
     (let (r, w) = api_dispatch A (DM_Config keys 0) w
      in (receive_reply (\<lambda>r. case r of Reply_Config x \<Rightarrow> Some x | _ \<Rightarrow> None) r, w))"

definition ds_height :: "'w api_ext \<Rightarrow> 'w \<Rightarrow> HeightResponse gw_result \<times> 'w" where
  "ds_height A w =
     (let (r, w) = api_dispatch A (DM_Height 0) w
      in (receive_reply (\<lambda>r. case r of Reply_Height x \<Rightarrow> Some x | _ \<Rightarrow> None) r, w))"

definition ds_region :: "'w api_ext \<Rightarrow> 'w \<Rightarrow> Region gw_result \<times> 'w" where
  "ds_region A w =
     (let (r, w) = api_dispatch A (DM_Region 0) w
      in (receive_reply (\<lambda>r. case r of Reply_Region x \<Rightarrow> Some x | _ \<Rightarrow> None) r, w))"

section \<open>The server\<close>

definition LISTEN_ADDR :: string where "LISTEN_ADDR = ''127.0.0.1''"

definition listen_addr :: "u16 \<Rightarrow> string" where
  "listen_addr port = LISTEN_ADDR @ '':'' @ print_nat (unat port)"

definition connect_uri :: "u16 \<Rightarrow> string" where
  "connect_uri port = ''http://'' @ listen_addr port"

definition LocalServer_new :: "Keypair \<Rightarrow> pubkey \<Rightarrow> u16 \<Rightarrow> LocalServer gw_result" where
  "LocalServer_new keypair onboarding_key port =
     Ok \<lparr>ls_keypair = keypair, ls_onboarding_key = onboarding_key, ls_listen_port = port\<rparr>"

definition ls_get_config :: "'w api_ext \<Rightarrow> string list \<Rightarrow> 'w \<Rightarrow> ConfigValue list api_result \<times> 'w" where
  "ls_get_config A keys w =
     (let (reply, w) = ds_config A keys w
      in (map_ok (map (api_config_value A)) (map_err (\<lambda>err. Status_internal (error_display err)) reply), w))"

definition ls_pubkey :: "'w api_ext \<Rightarrow> LocalServer \<Rightarrow> PubkeyRes api_result" where
  "ls_pubkey A s =
     Ok \<lparr>pk_address = pubkey_print (api_addr A) (kp_public (ls_keypair s)),
         pk_onboarding_address = pubkey_print (api_addr A) (ls_onboarding_key s)\<rparr>"

definition ls_region :: "'w api_ext \<Rightarrow> 'w \<Rightarrow> i32 api_result \<times> 'w" where
  "ls_region A w =
     (let (r, w) = ds_region A w
      in (map_ok i32_from_Region (map_err (\<lambda>_. Status_internal ''Failed to get region'') r), w))"

definition ls_sign :: "LocalServer \<Rightarrow> bytes \<Rightarrow> bytes api_result" where
  "ls_sign s data =
     (case kp_sign (ls_keypair s) data of
        Inl _ \<Rightarrow> Err (Status_internal ''Failed signing data'')
      | Inr signature \<Rightarrow> Ok signature)"

definition add_gateway_txn :: "'w api_ext \<Rightarrow> LocalServer \<Rightarrow> AddGatewayReq \<Rightarrow> TxnFeeConfig \<Rightarrow> bytes api_result" where
  "add_gateway_txn A s request fee_config =
     (let mode = StakingMode_from (api_mode_of_i32 A (agr_staking_mode request));
          txn = \<lparr>ag_owner = agr_owner request, ag_gateway = pubkey_print (api_addr A) (kp_public (ls_keypair s)),
                 ag_owner_signature = [], ag_gateway_signature = [], ag_payer = agr_payer request,
                 ag_payer_signature = [], ag_staking_fee = get_staking_fee fee_config mode, ag_fee = 0\<rparr> in
      bind_r (map_err (\<lambda>_. Status_internal ''Failed to get txn fees'')
                (add_gateway_txn_fee (api_txn A) fee_config txn)) (\<lambda>fee.
      let txn = txn\<lparr>ag_fee := fee\<rparr> in
      case kp_sign (ls_keypair s) (api_encode_add_gateway A txn) of
        Inl _ \<Rightarrow> Err (Status_internal ''Failed signing txn'')
      | Inr signature \<Rightarrow>
          map_err (\<lambda>_. Status_internal ''Failed to encode txn'')
            (in_envelope_vec (api_txn A) (txn\<lparr>ag_gateway_signature := signature\<rparr>))))"

definition ls_add_gateway :: "'w api_ext \<Rightarrow> LocalServer \<Rightarrow> AddGatewayReq \<Rightarrow> 'w \<Rightarrow> bytes api_result \<times> 'w" where
  "ls_add_gateway A s request w =
     (case pubkey_parse (api_addr A) (agr_owner request) of
        Inl _ \<Rightarrow> (Err (Status_invalid_argument ''Invalid owner address''), w)
      | Inr _ \<Rightarrow>
          (case pubkey_parse (api_addr A) (agr_payer request) of
             Inl _ \<Rightarrow> (Err (Status_invalid_argument ''Invalid payer address''), w)
           | Inr _ \<Rightarrow>
               (let (config_values, w) = ls_get_config A CONFIG_FEE_KEYS w in
                (bind_r config_values (\<lambda>values.
                 bind_r (map_err (\<lambda>_. Status_internal ''Failed to parse txn fees'') (TxnFeeConfig_try_from values))
                   (add_gateway_txn A s request)), w))))"

definition ls_ecdh :: "'w api_ext \<Rightarrow> LocalServer \<Rightarrow> bytes \<Rightarrow> bytes api_result" where
  "ls_ecdh A s address =
     (case pubkey_parse (api_addr A) address of
        Inl _ \<Rightarrow> Err (Status_invalid_argument ''Invalid public key'')
      | Inr public_key \<Rightarrow>
          (case api_ecdh A (ls_keypair s) public_key of
             Inl _ \<Rightarrow> Err (Status_internal ''Failed ecdh'')
           | Inr secret \<Rightarrow> Ok secret))"

definition ls_config :: "'w api_ext \<Rightarrow> string list \<Rightarrow> 'w \<Rightarrow> ConfigValue list api_result \<times> 'w" where
  "ls_config A keys w = ls_get_config A keys w"

definition ls_height :: "'w api_ext \<Rightarrow> 'w \<Rightarrow> HeightRes api_result \<times> 'w" where
  "ls_height A w =
     (let (r, w) = ds_height A w
      in (map_ok (\<lambda>reply. \<lparr>hs_height = hr_height reply, hs_block_age = hr_block_age reply,
             hs_gateway = Some (KeyedUri_to_local (api_addr A) (hr_gateway reply)),
             hs_gateway_version = hr_gateway_version reply\<rparr>)
            (map_err (\<lambda>err. Status_internal (error_display err)) r), w))"

section \<open>The client\<close>

record 'w client_ext =
  cl_connect :: "string \<Rightarrow> 'w \<Rightarrow> (foreign + unit) \<times> 'w"
  cl_pubkey :: "'w \<Rightarrow> (foreign + PubkeyRes) \<times> 'w"
  cl_sign :: "bytes \<Rightarrow> 'w \<Rightarrow> (foreign + bytes) \<times> 'w"
  cl_config :: "string list \<Rightarrow> 'w \<Rightarrow> (foreign + ConfigValue list) \<times> 'w"
  cl_height :: "'w \<Rightarrow> (foreign + HeightRes) \<times> 'w"
  cl_region :: "'w \<Rightarrow> (foreign + i32) \<times> 'w"
  cl_add_gateway :: "AddGatewayReq \<Rightarrow> 'w \<Rightarrow> (foreign + bytes) \<times> 'w"
  cl_addr :: addr_codec
  cl_txn :: txn_codec
  cl_mode_to_i32 :: "GatewayStakingMode \<Rightarrow> i32"
  cl_regions :: region_codec

definition LocalClient_new :: "'w client_ext \<Rightarrow> u16 \<Rightarrow> 'w \<Rightarrow> unit gw_result \<times> 'w" where
  "LocalClient_new C port w =
     (let (r, w) = cl_connect C (connect_uri port) w in (foreign_r local_client_connect r, w))"

definition lc_pubkey :: "'w client_ext \<Rightarrow> 'w \<Rightarrow> (pubkey \<times> pubkey) gw_result \<times> 'w" where
  "lc_pubkey C w =
     (let (r, w) = cl_pubkey C w in
      (bind_r (foreign_r from_status r) (\<lambda>response.
       bind_r (foreign_r Error_CryptoError (pubkey_parse (cl_addr C) (pk_address response))) (\<lambda>public_key.
       bind_r (foreign_r Error_CryptoError (pubkey_parse (cl_addr C) (pk_onboarding_address response))) (\<lambda>onboarding_key.
       Ok (public_key, onboarding_key)))), w))"

definition lc_sign :: "'w client_ext \<Rightarrow> bytes \<Rightarrow> 'w \<Rightarrow> bytes gw_result \<times> 'w" where
  "lc_sign C data w = (let (r, w) = cl_sign C data w in (foreign_r from_status r, w))"

definition lc_config :: "'w client_ext \<Rightarrow> string list \<Rightarrow> 'w \<Rightarrow> ConfigValue list gw_result \<times> 'w" where
  "lc_config C keys w = (let (r, w) = cl_config C keys w in (foreign_r from_status r, w))"

definition lc_height :: "'w client_ext \<Rightarrow> 'w \<Rightarrow> HeightRes gw_result \<times> 'w" where
  "lc_height C w = (let (r, w) = cl_height C w in (foreign_r from_status r, w))"

definition lc_region :: "'w client_ext \<Rightarrow> 'w \<Rightarrow> Region gw_result \<times> 'w" where
  "lc_region C w =
     (let (r, w) = cl_region C w
      in (bind_r (foreign_r from_status r) (Region_from_i32 (cl_regions C)), w))"

definition lc_add_gateway ::
  "'w client_ext \<Rightarrow> pubkey \<Rightarrow> pubkey \<Rightarrow> StakingMode \<Rightarrow> 'w \<Rightarrow> AddGatewayTxn gw_result \<times> 'w" where
  "lc_add_gateway C owner payer mode w =
     (let req = \<lparr>agr_owner = pubkey_print (cl_addr C) owner, agr_payer = pubkey_print (cl_addr C) payer,
                 agr_staking_mode = cl_mode_to_i32 C (GatewayStakingMode_from mode)\<rparr>;
          (r, w) = cl_add_gateway C req w
      in (bind_r (foreign_r from_status r) (from_envelope_vec (cl_txn C)), w))"

text \<open>The fee configuration as a client of the local API reads it.\<close>

definition TxnFeeConfig_from_client :: "'w client_ext \<Rightarrow> 'w \<Rightarrow> TxnFeeConfig gw_result \<times> 'w" where
  "TxnFeeConfig_from_client C w =
     (let (values, w) = lc_config C CONFIG_FEE_KEYS w in (bind_r values TxnFeeConfig_try_from, w))"

section \<open>The server over the dispatcher\<close>

text \<open>A dispatcher that answers at once, connected to a validator or not.\<close>

definition dispatcher_service ::
  "filter_hash \<Rightarrow> 'w gw_ext \<Rightarrow> Dispatcher \<Rightarrow> GatewayService option \<Rightarrow> d_message \<Rightarrow> 'w \<Rightarrow> reply option \<times> 'w" where
  "dispatcher_service H X d gateway m w =
     (let (w, eff) = d_handle_message H X d m gateway w
      in (case eff of [Eff_Reply _ r] \<Rightarrow> Some r | _ \<Rightarrow> None, w))"

text \<open>
  Where the variables the API works with come from: whatever a source hands out for a request is
  what it attests to in the current world.
\<close>

locale config_source =
  fixes fetch :: "string list \<Rightarrow> 'w \<Rightarrow> BlockchainVar list gw_result \<times> 'w"
    and attested :: "string list \<Rightarrow> 'w \<Rightarrow> BlockchainVar list \<Rightarrow> bool"
  assumes fetch_attested: "fst (fetch keys w) = Ok vars \<longleftrightarrow> attested keys w vars"
begin

lemma fee_config_attested:
  "bind_r (map_ok (map f) (map_err h (fst (fetch keys w))))
     (\<lambda>values. bind_r (map_err k (TxnFeeConfig_try_from values)) g) = Ok y \<longleftrightarrow>
   (\<exists>vars cfg. attested keys w vars \<and> TxnFeeConfig_try_from (map f vars) = Ok cfg \<and> g cfg = Ok y)"
  unfolding bind_r_Ok_iff map_ok_Ok_iff map_err_Ok_iff fetch_attested by auto

end

text \<open>A validator's variables: those of an answer that carries its signature.\<close>

definition validator_attests ::
  "'w gw_ext \<Rightarrow> GatewayService option \<Rightarrow> string list \<Rightarrow> 'w \<Rightarrow> BlockchainVar list \<Rightarrow> bool" where
  "validator_attests X gateway keys w vars \<longleftrightarrow>
     (\<exists>g resp. gateway = Some g \<and> fst (rpc_config X (gs_uri g) keys w) = Inr resp \<and>
        gr_msg resp = Some (GM_Config vars) \<and> GatewayResp_verify X (ku_pubkey (gs_uri g)) resp = Ok ())"

lemma gs_config_Ok_iff:
  "fst (gs_config X g keys w) = Ok vars \<longleftrightarrow>
     (\<exists>resp. fst (rpc_config X (gs_uri g) keys w) = Inr resp \<and> gr_msg resp = Some (GM_Config vars) \<and>
        GatewayResp_verify X (ku_pubkey (gs_uri g)) resp = Ok ())" (is "_ \<longleftrightarrow> ?r")
proof
  assume ?r
  then obtain resp where "verified X g (fst (rpc_config X (gs_uri g) keys w)) = Ok resp"
    and "gr_msg resp = Some (GM_Config vars)" by (auto simp: verified_Ok_iff)
  then show "fst (gs_config X g keys w) = Ok vars"
    by (simp add: gs_config_def get_config_def Let_def case_prod_beta)
qed (rule gs_config_Ok)

lemma ds_config_dispatcher:
  assumes "api_dispatch A = dispatcher_service H X d gateway"
  shows "fst (ds_config A keys w) = (case gateway of Some g \<Rightarrow> fst (gs_config X g keys w) | None \<Rightarrow> Err error_no_service)"
  by (simp add: ds_config_def assms dispatcher_service_def d_handle_message_def receive_reply_def Let_def
      case_prod_beta split: option.splits)

interpretation dispatcher_config: config_source
  "ds_config (A\<lparr>api_dispatch := dispatcher_service H X d gateway\<rparr>)" "validator_attests X gateway"
  for A :: "'w api_ext" and H d and X :: "'w gw_ext" and gateway
proof
  fix keys w vars
  have "fst (ds_config (A\<lparr>api_dispatch := dispatcher_service H X d gateway\<rparr>) keys w) =
      (case gateway of Some g \<Rightarrow> fst (gs_config X g keys w) | None \<Rightarrow> Err error_no_service)"
    by (rule ds_config_dispatcher) simp
  then show "fst (ds_config (A\<lparr>api_dispatch := dispatcher_service H X d gateway\<rparr>) keys w) = Ok vars
      \<longleftrightarrow> validator_attests X gateway keys w vars"
    by (simp add: validator_attests_def gs_config_Ok_iff split: option.splits)
qed

section \<open>The client over the server\<close>

fun status_text :: "api_status \<Rightarrow> string" where
  "status_text (Status_internal m) = m"
| "status_text (Status_invalid_argument m) = m"

fun rpc_result :: "'a api_result \<Rightarrow> foreign + 'a" where
  "rpc_result (Ok x) = Inr x"
| "rpc_result (Err e) = Inl (status_text e)"
| "rpc_result Panic = Inl ''transport error''"

lemma foreign_rpc_result_Ok [simp]: "foreign_r f (rpc_result r) = Ok x \<longleftrightarrow> r = Ok x"
  by (cases r) auto

definition client_of ::
  "'w api_ext \<Rightarrow> LocalServer \<Rightarrow> region_codec \<Rightarrow> 'w client_ext" where
  "client_of A s G =
     \<lparr>cl_connect = (\<lambda>_ w. (Inr (), w)), cl_pubkey = (\<lambda>w. (rpc_result (ls_pubkey A s), w)),
      cl_sign = (\<lambda>data w. (rpc_result (ls_sign s data), w)),
      cl_config = (\<lambda>keys w. map_prod rpc_result id (ls_config A keys w)),
      cl_height = (\<lambda>w. map_prod rpc_result id (ls_height A w)),
      cl_region = (\<lambda>w. map_prod rpc_result id (ls_region A w)),
      cl_add_gateway = (\<lambda>req w. map_prod rpc_result id (ls_add_gateway A s req w)),
      cl_addr = api_addr A, cl_txn = api_txn A, cl_mode_to_i32 = api_mode_to_i32 A, cl_regions = G\<rparr>"

text \<open>What is relied on of the codecs shared by both sides.\<close>

definition api_codecs_ok :: "'w api_ext \<Rightarrow> bool" where
  "api_codecs_ok A \<longleftrightarrow> txn_codec_ok (api_txn A) \<and> (\<forall>m. api_mode_of_i32 A (api_mode_to_i32 A m) = m) \<and>
     (\<forall>k. pubkey_parse (api_addr A) (pubkey_print (api_addr A) k) = Inr k)"

text \<open>The transaction for a request, before it is signed.\<close>

definition unsigned_add_gateway ::
  "'w api_ext \<Rightarrow> LocalServer \<Rightarrow> pubkey \<Rightarrow> pubkey \<Rightarrow> u64 \<Rightarrow> u64 \<Rightarrow> AddGatewayTxn" where
  "unsigned_add_gateway A s owner payer staking fee =
     \<lparr>ag_owner = pubkey_print (api_addr A) owner, ag_gateway = pubkey_print (api_addr A) (kp_public (ls_keypair s)),
      ag_owner_signature = [], ag_gateway_signature = [], ag_payer = pubkey_print (api_addr A) payer,
      ag_payer_signature = [], ag_staking_fee = staking, ag_fee = fee\<rparr>"

lemma unsigned_add_gateway_fee [simp]:
  "(unsigned_add_gateway A s owner payer staking fee)\<lparr>ag_fee := fee'\<rparr> = unsigned_add_gateway A s owner payer staking fee'"
  by (simp add: unsigned_add_gateway_def)

lemma case_sum_Err_Ok [simp]:
  "(case x of Inl _ \<Rightarrow> Err e | Inr z \<Rightarrow> f z) = Ok y \<longleftrightarrow> (\<exists>z. x = Inr z \<and> f z = Ok y)"
  by (cases x) auto

lemma add_gateway_txn_Ok:
  assumes "api_codecs_ok A"
  shows "add_gateway_txn A s \<lparr>agr_owner = pubkey_print (api_addr A) owner, agr_payer = pubkey_print (api_addr A) payer,
       agr_staking_mode = api_mode_to_i32 A (GatewayStakingMode_from mode)\<rparr> cfg = Ok buf \<longleftrightarrow>
    (\<exists>fee sig. let txn = unsigned_add_gateway A s owner payer (get_staking_fee cfg mode) fee in
       add_gateway_txn_fee (api_txn A) cfg (txn\<lparr>ag_fee := 0\<rparr>) = Ok fee \<and>
       kp_sign (ls_keypair s) (api_encode_add_gateway A txn) = Inr sig \<and>
       buf = txn_encode (api_txn A) (in_envelope (txn\<lparr>ag_gateway_signature := sig\<rparr>)))"
  using assms
  by (auto simp: add_gateway_txn_def unsigned_add_gateway_def api_codecs_ok_def Let_def bind_r_Ok_iff
      in_envelope_vec_def)

lemma lc_add_gateway_client_of:
  "lc_add_gateway (client_of A s G) owner payer mode w =
     (let (r, w) = ls_add_gateway A s \<lparr>agr_owner = pubkey_print (api_addr A) owner,
            agr_payer = pubkey_print (api_addr A) payer,
            agr_staking_mode = api_mode_to_i32 A (GatewayStakingMode_from mode)\<rparr> w
      in (bind_r (foreign_r from_status (rpc_result r)) (from_envelope_vec (api_txn A)), w))"
  by (simp add: lc_add_gateway_def client_of_def Let_def case_prod_beta)

lemma from_envelope_vec_in_envelope [simp]:
  "txn_codec_ok T \<Longrightarrow> from_envelope_vec T (txn_encode T (in_envelope t)) = Ok t"
  by (simp add: txn_codec_ok_def from_envelope_vec_def)

section \<open>Properties\<close>

text \<open>
  C5. The client of a gateway whose dispatcher is connected to a validator obtains an add-gateway
  transaction exactly when the validator's answer with the fee variables is signed by it and
  well-formed and the gateway can sign. The transaction names the requested owner and payer and the
  gateway itself, has the staking fee of the requested mode and the fee of its own size, and its
  gateway signature verifies, under the gateway's key, for the transaction with all signatures
  blank. Without a validator there is no transaction.
\<close>

theorem add_gateway_end_to_end:
  assumes "api_codecs_ok A" and "verifies V (ls_keypair s)"
    and "A' = A\<lparr>api_dispatch := dispatcher_service H X d gateway\<rparr>"
  shows "(fst (lc_add_gateway (client_of A' s G) owner payer mode w) = Ok txn \<longleftrightarrow>
      (\<exists>vars cfg fee sig. validator_attests X gateway CONFIG_FEE_KEYS w vars \<and>
         TxnFeeConfig_try_from (map (api_config_value A) vars) = Ok cfg \<and>
         add_gateway_txn_fee (api_txn A) cfg (unsigned_add_gateway A s owner payer (get_staking_fee cfg mode) 0) = Ok fee \<and>
         kp_sign (ls_keypair s)
           (api_encode_add_gateway A (unsigned_add_gateway A s owner payer (get_staking_fee cfg mode) fee)) = Inr sig \<and>
         txn = (unsigned_add_gateway A s owner payer (get_staking_fee cfg mode) fee)\<lparr>ag_gateway_signature := sig\<rparr>)) \<and>
    (fst (lc_add_gateway (client_of A' s G) owner payer mode w) = Ok txn \<longrightarrow>
       gateway \<noteq> None \<and>
       V (kp_public (ls_keypair s)) (api_encode_add_gateway A (txn\<lparr>ag_owner_signature := [],
          ag_payer_signature := [], ag_gateway_signature := []\<rparr>)) (ag_gateway_signature txn) = Inr ())"
    (is "(?ok \<longleftrightarrow> ?cond) \<and> (?ok \<longrightarrow> ?sig)")
proof -
  have A': "api_codecs_ok A'" "api_addr A' = api_addr A" "api_txn A' = api_txn A"
    "api_encode_add_gateway A' = api_encode_add_gateway A" "api_config_value A' = api_config_value A"
    "unsigned_add_gateway A' = unsigned_add_gateway A"
    using assms(1) by (simp_all add: assms(3) api_codecs_ok_def unsigned_add_gateway_def fun_eq_iff)
  have T: "txn_codec_ok (api_txn A)" and P: "\<And>k. pubkey_parse (api_addr A) (pubkey_print (api_addr A) k) = Inr k"
    using assms(1) by (simp_all add: api_codecs_ok_def)
  let ?req = "\<lparr>agr_owner = pubkey_print (api_addr A) owner, agr_payer = pubkey_print (api_addr A) payer,
       agr_staking_mode = api_mode_to_i32 A' (GatewayStakingMode_from mode)\<rparr>"
  have srv: "fst (ls_add_gateway A' s ?req w) = Ok buf \<longleftrightarrow>
      (\<exists>vars cfg. validator_attests X gateway CONFIG_FEE_KEYS w vars \<and>
         TxnFeeConfig_try_from (map (api_config_value A') vars) = Ok cfg \<and> add_gateway_txn A' s ?req cfg = Ok buf)" for buf
  proof -
    have "fst (ls_add_gateway A' s ?req w) = bind_r (map_ok (map (api_config_value A'))
        (map_err (\<lambda>err. Status_internal (error_display err)) (fst (ds_config A' CONFIG_FEE_KEYS w))))
        (\<lambda>values. bind_r (map_err (\<lambda>_. Status_internal ''Failed to parse txn fees'') (TxnFeeConfig_try_from values))
           (add_gateway_txn A' s ?req))"
      by (simp add: ls_add_gateway_def ls_get_config_def A' P Let_def case_prod_beta)
    then show ?thesis unfolding assms(3) by (simp only: dispatcher_config.fee_config_attested)
  qed
  have "?ok \<longleftrightarrow> (\<exists>buf. fst (ls_add_gateway A' s ?req w) = Ok buf \<and> from_envelope_vec (api_txn A) buf = Ok txn)"
    by (simp add: lc_add_gateway_client_of Let_def case_prod_beta bind_r_Ok_iff A')
  also have "\<dots> \<longleftrightarrow> ?cond"
    unfolding srv add_gateway_txn_Ok [OF A'(1), unfolded A'(2,3,4,6)] A'(5) Let_def unsigned_add_gateway_fee
    using T by fastforce
  finally have iff: "?ok \<longleftrightarrow> ?cond" .
  have "?cond \<longrightarrow> ?sig"
    using assms(2) by (auto simp: validator_attests_def verifies_def unsigned_add_gateway_def)
  with iff show ?thesis by blast
qed

section \<open>A concrete gateway\<close>

text \<open>A codec for envelopes: a tag, then every field behind its length in unary.\<close>

definition frame :: "bytes \<Rightarrow> bytes" where
  "frame bs = replicate (length bs) 1 @ 0 # bs"

definition unframe :: "bytes \<Rightarrow> bytes \<times> bytes" where
  "unframe s = (let n = length (takeWhile ((=) 1) s) in (take n (drop (Suc n) s), drop (Suc n + n) s))"

lemma takeWhile_unary [simp]: "takeWhile ((=) 1) (replicate n 1 @ 0 # r) = replicate n (1 :: u8)"
  by (induction n) auto

lemma unframe_frame [simp]: "unframe (frame bs @ r) = (bs, r)"
proof -
  have "takeWhile ((=) 1) (frame bs @ r) = replicate (length bs) (1 :: u8)" by (simp add: frame_def)
  then show ?thesis by (simp add: unframe_def frame_def)
qed

primrec unframes :: "nat \<Rightarrow> bytes \<Rightarrow> bytes list" where
  "unframes 0 s = []"
| "unframes (Suc n) s = (let (x, s) = unframe s in x # unframes n s)"

lemma unframes_frames [simp]: "n = length xs \<Longrightarrow> unframes n (concat (map frame xs)) = xs"
  by (induction xs arbitrary: n) auto

fun sample_txn_encode :: "Txn option \<Rightarrow> bytes" where
  "sample_txn_encode None = [0]"
| "sample_txn_encode (Some (Txn_AddGateway t)) =
     1 # concat (map frame [ag_owner t, ag_gateway t, ag_owner_signature t, ag_gateway_signature t, ag_payer t,
       ag_payer_signature t, le_bytes 8 (ag_staking_fee t), le_bytes 8 (ag_fee t)])"
| "sample_txn_encode (Some (Txn_StateChannelClose t)) =
     2 # concat (map frame [scc_signature t, le_bytes 8 (scc_fee t), scc_rest t])"
| "sample_txn_encode (Some (Txn_Other bs)) = 3 # bs"

definition sample_txn_decode :: "bytes \<Rightarrow> Txn option" where
  "sample_txn_decode s =
     (if s = [] \<or> hd s = 0 then None
      else if hd s = 1 then
        let fs = unframes 8 (tl s) in
        Some (Txn_AddGateway \<lparr>ag_owner = fs ! 0, ag_gateway = fs ! 1, ag_owner_signature = fs ! 2,
          ag_gateway_signature = fs ! 3, ag_payer = fs ! 4, ag_payer_signature = fs ! 5,
          ag_staking_fee = of_le_bytes (fs ! 6), ag_fee = of_le_bytes (fs ! 7)\<rparr>)
      else if hd s = 2 then
        let fs = unframes 3 (tl s) in
        Some (Txn_StateChannelClose \<lparr>scc_signature = fs ! 0, scc_fee = of_le_bytes (fs ! 1), scc_rest = fs ! 2\<rparr>)
      else Some (Txn_Other (tl s)))"

definition sample_txn_codec :: txn_codec where
  "sample_txn_codec = \<lparr>txn_encode = (\<lambda>t. sample_txn_encode (bt_txn t)),
     txn_decode = (\<lambda>s. Inr \<lparr>bt_txn = sample_txn_decode s\<rparr>)\<rparr>"

lemma sample_txn_roundtrip: "sample_txn_decode (sample_txn_encode t) = t"
proof (cases t rule: sample_txn_encode.cases)
  case (2 t')
  have "unframes 8 (concat (map frame [ag_owner t', ag_gateway t', ag_owner_signature t', ag_gateway_signature t',
       ag_payer t', ag_payer_signature t', le_bytes 8 (ag_staking_fee t'), le_bytes 8 (ag_fee t')])) =
     [ag_owner t', ag_gateway t', ag_owner_signature t', ag_gateway_signature t',
       ag_payer t', ag_payer_signature t', le_bytes 8 (ag_staking_fee t'), le_bytes 8 (ag_fee t')]"
    by (rule unframes_frames) simp
  then show ?thesis unfolding 2 sample_txn_encode.simps sample_txn_decode_def list.sel
    by (simp only: Let_def) (simp add: of_le_bytes_le_bytes)
next
  case (3 t')
  have "unframes 3 (concat (map frame [scc_signature t', le_bytes 8 (scc_fee t'), scc_rest t'])) =
     [scc_signature t', le_bytes 8 (scc_fee t'), scc_rest t']"
    by (rule unframes_frames) simp
  then show ?thesis unfolding 3 sample_txn_encode.simps sample_txn_decode_def list.sel
    by (simp only: Let_def) (simp add: of_le_bytes_le_bytes)
qed (simp_all add: sample_txn_decode_def)

lemma sample_txn_codec_ok: "txn_codec_ok sample_txn_codec"
  by (simp add: txn_codec_ok_def sample_txn_codec_def sample_txn_roundtrip)

definition sample_vars :: "BlockchainVar list" where
  "sample_vars = [\<lparr>bv_name = ''txn_fees'', bv_type = ''atom'', bv_value = str_bytes ''true''\<rparr>]"

definition sample_fee_gw :: "unit gw_ext" where
  "sample_fee_gw = sample_gw\<lparr>rpc_config := (\<lambda>_ _ w. (Inr \<lparr>gr_height = 10, gr_block_age = 60, gr_signature = [42],
     gr_msg = Some (GM_Config sample_vars)\<rparr>, w))\<rparr>"

definition sample_api :: "unit api_ext" where
  "sample_api = \<lparr>api_dispatch = (\<lambda>_ w. (None, w)), api_addr = sample_codec, api_txn = sample_txn_codec,
     api_encode_add_gateway = ag_owner,
     api_config_value = (\<lambda>v. \<lparr>cv_name = bv_name v, cv_type = bv_type v, cv_value = bv_value v\<rparr>),
     api_mode_of_i32 = (\<lambda>i. if i = 0 then GSM_Dataonly else if i = 1 then GSM_Full else GSM_Light),
     api_mode_to_i32 = (\<lambda>m. case m of GSM_Dataonly \<Rightarrow> 0 | GSM_Full \<Rightarrow> 1 | GSM_Light \<Rightarrow> 2),
     api_ecdh = (\<lambda>_ k. Inr k)\<rparr>"

definition sample_server :: LocalServer where
  "sample_server = \<lparr>ls_keypair = sample_keypair, ls_onboarding_key = [7], ls_listen_port = 4467\<rparr>"

lemma sample_api_ok: "api_codecs_ok sample_api"
  by (simp add: api_codecs_ok_def sample_api_def sample_txn_codec_ok sample_codec_def split: GatewayStakingMode.split)

lemma sample_attests: "validator_attests sample_fee_gw (Some sample_service) CONFIG_FEE_KEYS () sample_vars"
  by (simp add: validator_attests_def sample_fee_gw_def GatewayResp_verify_def msg_verify_def sample_gw_def
      sample_verifier_def sample_service_def)

lemma sample_fee_config:
  "TxnFeeConfig_try_from (map (api_config_value sample_api) sample_vars) = Ok TxnFeeConfig_default"
  by (simp add: TxnFeeConfig_try_from_def set_config_value_def sample_api_def sample_vars_def to_value_bool_def
      str_bytes_def utf8_valid.simps utf8_step.simps utf8_width_def of_char_def map_ok_def TxnFeeConfig_default_def)

definition sample_api_dispatcher :: Dispatcher where
  "sample_api_dispatcher = \<lparr>d_keypair = sample_keypair, d_region = Region 0, d_seed_gateways = [],
     routing_height = 0, region_height = 0, cache_max_packets = 4, gateway_retry = 0, routers = [],
     default_routers = None, next_channel = 0\<rparr>"

theorem add_gateway_end_to_end_witness:
  "\<exists>txn. fst (lc_add_gateway (client_of (sample_api\<lparr>api_dispatch :=
        dispatcher_service sample_hash sample_fee_gw sample_api_dispatcher (Some sample_service)\<rparr>)
        sample_server sample_regions) [5] [6] Light ()) = Ok txn \<and>
     ag_owner txn = [5] \<and> ag_payer txn = [6] \<and> ag_staking_fee txn = 4000000"
proof -
  let ?u = "unsigned_add_gateway sample_api sample_server [5] [6] 4000000"
  have st: "get_staking_fee TxnFeeConfig_default Light = 4000000"
    by (simp add: TxnFeeConfig_default_def default_light_staking_fee_def)
  obtain fee where f: "add_gateway_txn_fee (api_txn sample_api) TxnFeeConfig_default (?u 0) = Ok fee"
    by (simp add: add_gateway_txn_fee_def Let_def)
  obtain sig where g: "kp_sign (ls_keypair sample_server) (api_encode_add_gateway sample_api (?u fee)) = Inr sig"
    by (simp add: sample_server_def sample_keypair_def)
  have v: "verifies sample_verifier (ls_keypair sample_server)"
    by (simp add: verifies_def sample_server_def sample_verifier_def sample_keypair_def)
  note e = add_gateway_end_to_end [OF sample_api_ok v refl, of sample_hash sample_fee_gw sample_api_dispatcher
      "Some sample_service" sample_regions "[5]" "[6]" Light "()" "(?u fee)\<lparr>ag_gateway_signature := sig\<rparr>"]
  have "fst (lc_add_gateway (client_of (sample_api\<lparr>api_dispatch :=
        dispatcher_service sample_hash sample_fee_gw sample_api_dispatcher (Some sample_service)\<rparr>)
        sample_server sample_regions) [5] [6] Light ()) = Ok ((?u fee)\<lparr>ag_gateway_signature := sig\<rparr>)"
    by (rule e [THEN conjunct1, THEN iffD2])
      (use sample_attests sample_fee_config f g st in \<open>metis\<close>)
  then show ?thesis by (auto simp: unsigned_add_gateway_def sample_api_def sample_codec_def)
qed

end
