(* ===== verification/Keypair_File.thy ===== *)
theory Keypair_File
  imports Error_Display State_Channel
begin

text \<open>
  Key pairs from URIs (\<^verbatim>\<open>src/keypair.rs\<close>): a file, an ECC608 slot or a TPM key. The URI and query
  parsers, the files, the generator, the key codec and both devices are parameters; which device
  support is compiled in is a parameter too. A missing key file is created.
\<close>

datatype Network = MainNet | TestNet

record parsed_uri =
  pu_scheme :: "string option"
  pu_path :: string
  pu_query :: "string option"
  pu_host :: "string option"
  pu_port :: "u16 option"
  pu_text :: string

record 'w keypair_ext =
  kx_uri_parse :: "string \<Rightarrow> foreign + parsed_uri"
  kx_query_args :: "string \<Rightarrow> foreign + (string \<rightharpoonup> string)"
  kx_network_parse :: "string \<Rightarrow> foreign + Network"
  kx_u8_error :: "string \<Rightarrow> foreign"
  kx_read :: "string \<Rightarrow> 'w \<Rightarrow> (foreign + bytes) \<times> 'w"
  kx_not_found :: "foreign \<Rightarrow> bool"
  kx_create_dirs :: "string \<Rightarrow> 'w \<Rightarrow> (foreign + unit) \<times> 'w"
  kx_write :: "string \<Rightarrow> bytes \<Rightarrow> 'w \<Rightarrow> (foreign + unit) \<times> 'w"
  kx_decode :: "bytes \<Rightarrow> foreign + Keypair"
  kx_encode :: "Keypair \<Rightarrow> bytes"
  kx_generate :: "Network \<Rightarrow> 'w \<Rightarrow> Keypair \<times> 'w"
  kx_error_debug :: "gw_error \<Rightarrow> string"
  kx_ecc608 :: bool
  kx_tpm :: bool
  kx_ecc_init :: "string \<Rightarrow> u16 \<Rightarrow> 'w \<Rightarrow> (foreign + unit) \<times> 'w"
  kx_ecc_slot :: "Network \<Rightarrow> u8 \<Rightarrow> 'w \<Rightarrow> (foreign + Keypair) \<times> 'w"
  kx_tpm_key :: "Network \<Rightarrow> string \<Rightarrow> 'w \<Rightarrow> (foreign + Keypair) \<times> 'w"

section \<open>Key files\<close>

definition load_from_file :: "'w keypair_ext \<Rightarrow> string \<Rightarrow> 'w \<Rightarrow> Keypair gw_result \<times> 'w" where
  "load_from_file K path w =
     (let (data, w) = kx_read K path w
      in (bind_r (foreign_r Error_IO data) (\<lambda>data. foreign_r Error_CryptoError (kx_decode K data)), w))"

definition save_to_file :: "'w keypair_ext \<Rightarrow> Keypair \<Rightarrow> string \<Rightarrow> 'w \<Rightarrow> (foreign + unit) \<times> 'w" where
  "save_to_file K keypair path w =
     (let (made, w) = (case path_parent path of
            Some parent \<Rightarrow> kx_create_dirs K parent w
          | None \<Rightarrow> (Inr (), w))
      in case made of
           Inl e \<Rightarrow> (Inl e, w)
         | Inr _ \<Rightarrow> kx_write K path (kx_encode K keypair) w)"

section \<open>Arguments\<close>

definition KeypairArgs_from_uri :: "'w keypair_ext \<Rightarrow> parsed_uri \<Rightarrow> (string \<rightharpoonup> string) gw_result" where
  "KeypairArgs_from_uri K url =
     (case pu_query url of
        None \<Rightarrow> Ok (\<lambda>_. None)
      | Some query \<Rightarrow>
          (case kx_query_args K query of
             Inr args \<Rightarrow> Ok args
           | Inl err \<Rightarrow> Err (keypair_uri (''invalid keypair url \"'' @ pu_text url @ ''\": '' @ err))))"

definition args_get :: "(string \<Rightarrow> foreign + 'a) \<Rightarrow> (string \<rightharpoonup> string) \<Rightarrow> string \<Rightarrow> 'a \<Rightarrow> 'a gw_result" where
  "args_get parse args name d =
     (case (case args name of Some s \<Rightarrow> parse s | None \<Rightarrow> Inr d) of
        Inr x \<Rightarrow> Ok x
      | Inl err \<Rightarrow> Err (keypair_uri (''invalid uri argument for '' @ name @ '': '' @ err)))"

definition parse_u8 :: "'w keypair_ext \<Rightarrow> string \<Rightarrow> foreign + u8" where
  "parse_u8 K s =
     (case parse_u64 (str_bytes s) of
        Some v \<Rightarrow> if v < 256 then Inr (ucast v) else Inl (kx_u8_error K s)
      | None \<Rightarrow> Inl (kx_u8_error K s))"

section \<open>Loading a key pair\<close>

definition keypair_from_file :: "'w keypair_ext \<Rightarrow> parsed_uri \<Rightarrow> 'w \<Rightarrow> Keypair gw_result \<times> 'w" where
  "keypair_from_file K url w =
     (case load_from_file K (pu_path url) w of
        (Ok k, w) \<Rightarrow> (Ok k, w)
      | (Err err, w) \<Rightarrow>
          if (case err of Error_IO io_error \<Rightarrow> kx_not_found K io_error | _ \<Rightarrow> False) then
            (case bind_r (KeypairArgs_from_uri K url) (\<lambda>args. args_get (kx_network_parse K) args ''network'' MainNet) of
               Ok network \<Rightarrow>
                 (let (new_key, w) = kx_generate K network w;
                      (saved, w) = save_to_file K new_key (pu_path url) w
                  in case saved of
                       Inr _ \<Rightarrow> (Ok new_key, w)
                     | Inl e \<Rightarrow> (Err (keypair_uri (''unable to save key file \"'' @ pu_path url @ ''\": '' @ e)), w))
             | Err e \<Rightarrow> (Err e, w)
             | Panic \<Rightarrow> (Panic, w))
          else (Err (keypair_uri (''unable to load key file \"'' @ pu_path url @ ''\": '' @ kx_error_debug K err)), w)
      | (Panic, w) \<Rightarrow> (Panic, w))"

definition keypair_from_ecc :: "'w keypair_ext \<Rightarrow> parsed_uri \<Rightarrow> 'w \<Rightarrow> Keypair gw_result \<times> 'w" where
  "keypair_from_ecc K url w =
     (case bind_r (map_err (\<lambda>e. keypair_uri (error_display e)) (KeypairArgs_from_uri K url)) (\<lambda>args.
           bind_r (args_get (parse_u8 K) args ''slot'' 0) (\<lambda>slot.
           bind_r (args_get (kx_network_parse K) args ''network'' MainNet) (\<lambda>network.
           bind_r (ok_or (keypair_uri ''missing ecc device path'') (pu_host url)) (\<lambda>dev.
           Ok (slot, network, path_join ''/dev'' dev))))) of
        Ok (slot, network, path) \<Rightarrow>
          (let bus_address = (case pu_port url of Some p \<Rightarrow> p | None \<Rightarrow> 96);
               (ready, w) = kx_ecc_init K path bus_address w
           in case ready of
                Inl err \<Rightarrow>
                  (Err (keypair_uri (''could not initialize ecc \"'' @ path @ '':'' @ print_nat (unat bus_address) @
                     ''\": '' @ err)), w)
              | Inr _ \<Rightarrow>
                  (case kx_ecc_slot K network slot w of
                     (Inr keypair, w) \<Rightarrow> (Ok keypair, w)
                   | (Inl err, w) \<Rightarrow>
                       (Err (keypair_uri (''could not load ecc keypair in slot '' @ print_nat (unat slot) @ '': '' @ err)), w)))
      | Err e \<Rightarrow> (Err e, w)
      | Panic \<Rightarrow> (Panic, w))"

definition keypair_from_tpm :: "'w keypair_ext \<Rightarrow> parsed_uri \<Rightarrow> 'w \<Rightarrow> Keypair gw_result \<times> 'w" where
  "keypair_from_tpm K url w =
     (case bind_r (map_err (\<lambda>e. keypair_uri (error_display e)) (KeypairArgs_from_uri K url)) (\<lambda>args.
           args_get (kx_network_parse K) args ''network'' MainNet) of
        Ok network \<Rightarrow>
          (case kx_tpm_key K network (pu_path url) w of
             (Inr keypair, w) \<Rightarrow> (Ok keypair, w)
           | (Inl err, w) \<Rightarrow>
               (Err (keypair_uri (''could not load tpm keypair on path '' @ pu_path url @ '': '' @ err)), w))
      | Err e \<Rightarrow> (Err e, w)
      | Panic \<Rightarrow> (Panic, w))"

definition Keypair_from_str :: "'w keypair_ext \<Rightarrow> string \<Rightarrow> 'w \<Rightarrow> Keypair gw_result \<times> 'w" where
  "Keypair_from_str K str w =
     (case kx_uri_parse K str of
        Inl err \<Rightarrow> (Err (keypair_uri (''invalid keypair url \"'' @ str @ ''\": '' @ err)), w)
      | Inr url \<Rightarrow>
          (case pu_scheme url of
             None \<Rightarrow> keypair_from_file K url w
           | Some scheme \<Rightarrow>
               if scheme = ''file'' then keypair_from_file K url w
               else if kx_ecc608 K \<and> scheme = ''ecc'' then keypair_from_ecc K url w
               else if kx_tpm K \<and> scheme = ''tpm'' then keypair_from_tpm K url w
               else (Err (keypair_uri (''unkown keypair scheme: \"'' @ scheme @ ''\"'')), w)))"

definition Keypair_deserialize :: "'w keypair_ext \<Rightarrow> string \<Rightarrow> 'w \<Rightarrow> (string, Keypair) rresult \<times> 'w" where
  "Keypair_deserialize K value w =
     (let (r, w) = Keypair_from_str K value w in (map_err error_display r, w))"

section \<open>Key files\<close>

text \<open>What is relied on of the files and of the key codec.\<close>

definition key_files_ok :: "'w keypair_ext \<Rightarrow> bool" where
  "key_files_ok K \<longleftrightarrow>
     (\<forall>p w. fst (kx_read K p (snd (kx_read K p w))) = fst (kx_read K p w)) \<and>
     (\<forall>p bs w. fst (kx_write K p bs w) = Inr () \<longrightarrow> fst (kx_read K p (snd (kx_write K p bs w))) = Inr bs) \<and>
     (\<forall>n w. kx_decode K (kx_encode K (fst (kx_generate K n w))) = Inr (fst (kx_generate K n w)))"

definition file_url :: "'w keypair_ext \<Rightarrow> string \<Rightarrow> parsed_uri \<Rightarrow> bool" where
  "file_url K str url \<longleftrightarrow> kx_uri_parse K str = Inr url \<and> (pu_scheme url = None \<or> pu_scheme url = Some ''file'')"

lemma Keypair_from_str_file: "file_url K str url \<Longrightarrow> Keypair_from_str K str w = keypair_from_file K url w"
  by (auto simp: file_url_def Keypair_from_str_def)

lemma load_from_file_Ok:
  "load_from_file K path w = (Ok k, w') \<longleftrightarrow>
     (\<exists>data. kx_read K path w = (Inr data, w') \<and> kx_decode K data = Inr k)"
  by (cases "kx_read K path w"; cases "fst (kx_read K path w)")
    (auto simp: load_from_file_def foreign_r_def split: sum.splits)

lemma read_again: "key_files_ok K \<Longrightarrow> kx_read K p w = (r, w') \<Longrightarrow> fst (kx_read K p w') = r"
  unfolding key_files_ok_def by (metis fst_conv snd_conv)

lemma save_to_file_Ok:
  assumes "save_to_file K k path w = (Inr (), w')" and "key_files_ok K"
  shows "fst (kx_read K path w') = Inr (kx_encode K k)"
proof -
  obtain w1 where "kx_write K path (kx_encode K k) w1 = (Inr (), w')"
    using assms(1) by (auto simp: save_to_file_def Let_def case_prod_beta split: sum.splits option.splits)
  then show ?thesis using assms(2) unfolding key_files_ok_def by (metis fst_conv snd_conv)
qed

lemma keypair_from_file_created:
  assumes "load_from_file K (pu_path url) w = (Err e, w1)" and "keypair_from_file K url w = (Ok k, w')"
  shows "\<exists>w2 network. save_to_file K k (pu_path url) w2 = (Inr (), w') \<and> k = fst (kx_generate K network w1)"
proof -
  let ?net = "bind_r (KeypairArgs_from_uri K url) (\<lambda>args. args_get (kx_network_parse K) args ''network'' MainNet)"
  have c: "(case e of Error_IO io_error \<Rightarrow> kx_not_found K io_error | _ \<Rightarrow> False)"
    by (rule ccontr) (use assms in \<open>simp add: keypair_from_file_def\<close>)
  obtain network where n: "?net = Ok network"
    using assms c by (cases ?net) (simp_all add: keypair_from_file_def)
  obtain k' w2 where g: "kx_generate K network w1 = (k', w2)" by fastforce
  obtain s w3 where s: "save_to_file K k' (pu_path url) w2 = (s, w3)" by fastforce
  have "s = Inr () \<and> k' = k \<and> w3 = w'"
    using assms c n g s by (cases s) (simp_all add: keypair_from_file_def Let_def)
  with s g show ?thesis by (metis fst_conv)
qed

lemma keypair_from_file_again:
  assumes "keypair_from_file K url w = (Ok k, w')" and "key_files_ok K"
  shows "\<exists>w''. keypair_from_file K url w' = (Ok k, w'') \<and> w'' = snd (kx_read K (pu_path url) w')"
proof -
  have "\<exists>data. fst (kx_read K (pu_path url) w') = Inr data \<and> kx_decode K data = Inr k"
  proof (cases "load_from_file K (pu_path url) w")
    case (Pair r w1)
    show ?thesis
    proof (cases r)
      case (Ok k')
      then have "k' = k" "w1 = w'" using assms(1) by (simp_all add: keypair_from_file_def Pair)
      then obtain data where "kx_read K (pu_path url) w = (Inr data, w')" "kx_decode K data = Inr k"
        using Pair Ok load_from_file_Ok [of K "pu_path url" w k w'] by auto
      then show ?thesis using read_again [OF assms(2)] by blast
    next
      case (Err e)
      obtain w2 network where s: "save_to_file K k (pu_path url) w2 = (Inr (), w')"
        and k: "k = fst (kx_generate K network w1)"
        using keypair_from_file_created [OF Pair [unfolded Err] assms(1)] by blast
      show ?thesis using save_to_file_Ok [OF s assms(2)] assms(2) by (simp add: key_files_ok_def k)
    qed (use assms(1) Pair in \<open>simp add: keypair_from_file_def\<close>)
  qed
  then obtain data w'' where "kx_read K (pu_path url) w' = (Inr data, w'')" "kx_decode K data = Inr k"
    by (metis prod.collapse)
  moreover from this have "load_from_file K (pu_path url) w' = (Ok k, w'')" by (simp add: load_from_file_Ok)
  ultimately show ?thesis by (simp add: keypair_from_file_def)
qed

text \<open>A key file that is there and cannot be used.\<close>

definition unusable_file :: "'w keypair_ext \<Rightarrow> string \<Rightarrow> 'w \<Rightarrow> bool" where
  "unusable_file K path w \<longleftrightarrow>
     (case fst (kx_read K path w) of
        Inl e \<Rightarrow> \<not> kx_not_found K e
      | Inr data \<Rightarrow> isl (kx_decode K data))"

lemma keypair_from_file_unusable:
  assumes "unusable_file K (pu_path url) w"
  shows "\<exists>msg. keypair_from_file K url w = (Err (keypair_uri msg), snd (kx_read K (pu_path url) w))"
  using assms
  by (auto simp: unusable_file_def keypair_from_file_def load_from_file_def foreign_r_def Let_def case_prod_beta isl_def
      split: sum.splits)

lemma keypair_from_file_missing:
  assumes "kx_read K (pu_path url) w = (Inl e, w1)" and "kx_not_found K e"
    and "bind_r (KeypairArgs_from_uri K url) (\<lambda>args. args_get (kx_network_parse K) args ''network'' MainNet) = Ok network"
    and "kx_generate K network w1 = (k, w2)"
  shows "keypair_from_file K url w =
    (case save_to_file K k (pu_path url) w2 of
       (Inr _, w3) \<Rightarrow> (Ok k, w3)
     | (Inl err, w3) \<Rightarrow> (Err (keypair_uri (''unable to save key file \"'' @ pu_path url @ ''\": '' @ err)), w3))"
  using assms by (simp add: keypair_from_file_def load_from_file_def Let_def split: prod.split sum.split)

section \<open>Properties\<close>

text \<open>
  C28. A key pair named by a file is persistent: once it has been loaded or created, loading it
  again returns the same key pair and only reads the file. A file that is there but cannot be read
  or decoded is an error and is left as it is; only a missing file is replaced, by a new key for the
  network the address asks for, which is returned exactly when it could be saved.
\<close>

theorem keypair_persistent:
  assumes "key_files_ok K" and "file_url K str url"
  shows "(Keypair_from_str K str w = (Ok k, w') \<longrightarrow>
      Keypair_from_str K str w' = (Ok k, snd (kx_read K (pu_path url) w'))) \<and>
    (unusable_file K (pu_path url) w \<longrightarrow>
      (\<exists>msg. Keypair_from_str K str w = (Err (keypair_uri msg), snd (kx_read K (pu_path url) w)))) \<and>
    (kx_read K (pu_path url) w = (Inl e, w1) \<and> kx_not_found K e \<and>
     bind_r (KeypairArgs_from_uri K url) (\<lambda>args. args_get (kx_network_parse K) args ''network'' MainNet) = Ok network \<and>
     kx_generate K network w1 = (new_key, w2) \<longrightarrow>
      (fst (Keypair_from_str K str w) = Ok new_key \<longleftrightarrow> fst (save_to_file K new_key (pu_path url) w2) = Inr ()) \<and>
      (\<forall>msg. fst (save_to_file K new_key (pu_path url) w2) = Inl msg \<longrightarrow>
         (\<exists>m. fst (Keypair_from_str K str w) = Err (keypair_uri m))))"
proof (intro conjI impI)
  note f = Keypair_from_str_file [OF assms(2)]
  show "Keypair_from_str K str w' = (Ok k, snd (kx_read K (pu_path url) w'))"
    if "Keypair_from_str K str w = (Ok k, w')"
    using keypair_from_file_again [OF that [unfolded f] assms(1)] by (simp add: f)
  show "\<exists>msg. Keypair_from_str K str w = (Err (keypair_uri msg), snd (kx_read K (pu_path url) w))"
    if "unusable_file K (pu_path url) w"
    using keypair_from_file_unusable [OF that] by (simp add: f)
  assume m: "kx_read K (pu_path url) w = (Inl e, w1) \<and> kx_not_found K e \<and>
     bind_r (KeypairArgs_from_uri K url) (\<lambda>args. args_get (kx_network_parse K) args ''network'' MainNet) = Ok network \<and>
     kx_generate K network w1 = (new_key, w2)"
  then have e: "Keypair_from_str K str w = (case save_to_file K new_key (pu_path url) w2 of
       (Inr _, w3) \<Rightarrow> (Ok new_key, w3)
     | (Inl err, w3) \<Rightarrow> (Err (keypair_uri (''unable to save key file \"'' @ pu_path url @ ''\": '' @ err)), w3))"
    unfolding f by (intro keypair_from_file_missing) auto
  show "fst (Keypair_from_str K str w) = Ok new_key \<longleftrightarrow> fst (save_to_file K new_key (pu_path url) w2) = Inr ()"
    unfolding e by (auto split: sum.splits prod.splits)
  show "\<forall>msg. fst (save_to_file K new_key (pu_path url) w2) = Inl msg \<longrightarrow>
         (\<exists>m. fst (Keypair_from_str K str w) = Err (keypair_uri m))"
    unfolding e by (auto split: sum.splits prod.splits)
qed

text \<open>Files as a map from paths to contents, empty at first.\<close>

definition sample_keypair_ext :: "(string \<rightharpoonup> bytes) keypair_ext" where
  "sample_keypair_ext =
     \<lparr>kx_uri_parse = (\<lambda>s. Inr \<lparr>pu_scheme = None, pu_path = s, pu_query = None, pu_host = None, pu_port = None, pu_text = s\<rparr>),
      kx_query_args = (\<lambda>_. Inr (\<lambda>_. None)), kx_network_parse = (\<lambda>_. Inr TestNet), kx_u8_error = (\<lambda>_. ''invalid digit''),
      kx_read = (\<lambda>p w. (case w p of Some bs \<Rightarrow> Inr bs | None \<Rightarrow> Inl ''not found'', w)),
      kx_not_found = (\<lambda>e. e = ''not found''), kx_create_dirs = (\<lambda>_ w. (Inr (), w)),
      kx_write = (\<lambda>p bs w. (Inr (), w(p \<mapsto> bs))),
      kx_decode = (\<lambda>bs. if bs = [7] then Inr sample_keypair else Inl ''bad key''), kx_encode = kp_public,
      kx_generate = (\<lambda>_ w. (sample_keypair, w)), kx_error_debug = (\<lambda>_. ''error''), kx_ecc608 = True, kx_tpm = False,
      kx_ecc_init = (\<lambda>_ _ w. (Inr (), w)), kx_ecc_slot = (\<lambda>_ _ w. (Inr sample_keypair, w)),
      kx_tpm_key = (\<lambda>_ _ w. (Inr sample_keypair, w))\<rparr>"

lemma sample_key_files_ok: "key_files_ok sample_keypair_ext"
  by (simp add: key_files_ok_def sample_keypair_ext_def sample_keypair_def)

theorem keypair_persistent_witness:
  "Keypair_from_str sample_keypair_ext ''/etc/key'' (\<lambda>_. None) = (Ok sample_keypair, [''/etc/key'' \<mapsto> [7]]) \<and>
   Keypair_from_str sample_keypair_ext ''/etc/key'' [''/etc/key'' \<mapsto> [7]] = (Ok sample_keypair, [''/etc/key'' \<mapsto> [7]])"
proof -
  let ?url = "\<lparr>pu_scheme = None, pu_path = ''/etc/key'', pu_query = None, pu_host = None, pu_port = None, pu_text = ''/etc/key''\<rparr>"
  have u: "file_url sample_keypair_ext ''/etc/key'' ?url" by (simp add: file_url_def sample_keypair_ext_def)
  have first: "Keypair_from_str sample_keypair_ext ''/etc/key'' (\<lambda>_. None) = (Ok sample_keypair, [''/etc/key'' \<mapsto> [7]])"
    unfolding Keypair_from_str_file [OF u]
    by (simp add: keypair_from_file_def load_from_file_def KeypairArgs_from_uri_def args_get_def save_to_file_def
        path_parent_def strip_slashes_def sample_keypair_ext_def sample_keypair_def)
  have "snd (kx_read sample_keypair_ext p w) = w" for p w by (simp add: sample_keypair_ext_def)
  with keypair_persistent [OF sample_key_files_ok u, THEN conjunct1, rule_format, OF first] first
  show ?thesis by simp
qed

end
