(* ===== verification/Curl.thy ===== *)
theory Curl
  imports Errors
begin

text \<open>
  Fetching with the \<^verbatim>\<open>curl\<close> program (\<^verbatim>\<open>src/curl.rs\<close>). Running the program is a parameter
  acting on a world \<open>'w\<close>: its arguments give a failure to run it, or the bytes of its output. Its exit
  status is not looked at.
\<close>

type_synonym 'w runner = "string list \<Rightarrow> 'w \<Rightarrow> (foreign + bytes) \<times> 'w"

definition curl_get ::
  "'w runner \<Rightarrow> string \<Rightarrow> string list \<Rightarrow> (bytes \<Rightarrow> 'a gw_result) \<Rightarrow> 'w \<Rightarrow> 'a gw_result \<times> 'w" where
  "curl_get run url args f w =
     (case run (args @ [''-f'', url]) w of
        (Inr output, w) \<Rightarrow> (f output, w)
      | (Inl err, w) \<Rightarrow> (Err (Error_IO err), w))"

lemma curl_get_not_Panic: "(\<And>out. f out \<noteq> Panic) \<Longrightarrow> fst (curl_get run url args f w) \<noteq> Panic"
  by (auto simp: curl_get_def split: sum.splits prod.splits)

end
