(* ===== verification/Releases.thy ===== *)
theory Releases
  imports Strings Curl
begin

text \<open>
  Releases (\<^verbatim>\<open>src/updater/releases.rs\<close>): release channels, the paged list of releases as a
  stream, and finding a release and its package. Versions are those of the crate
  \<^verbatim>\<open>semver\<close>; parsing, printing and comparing them, and the JSON decoder, are parameters.
\<close>

section \<open>Versions and channels\<close>

datatype Identifier = Numeric u64 | AlphaNumeric string

record Version =
  ver_major :: u64
  ver_minor :: u64
  ver_patch :: u64
  pre :: "Identifier list"
  build :: "Identifier list"

record semver =
  ver_parse :: "string \<Rightarrow> foreign + Version"
  ver_print :: "Version \<Rightarrow> string"
  ver_less :: "Version \<Rightarrow> Version \<Rightarrow> bool"
  ver_eq :: "Version \<Rightarrow> Version \<Rightarrow> bool"
  is_prerelease :: "Version \<Rightarrow> bool"

datatype Channel = Devnet | Testnet | Alpha | Beta | Release_channel

datatype ChannelParseError = ChannelParseError string

fun ChannelParseError_display :: "ChannelParseError \<Rightarrow> string" where
  "ChannelParseError_display (ChannelParseError s) = ''invalid channel: '' @ s"

fun Channel_display :: "Channel \<Rightarrow> string" where
  "Channel_display Devnet = ''devnet''"
| "Channel_display Testnet = ''testnet''"
| "Channel_display Alpha = ''alpha''"
| "Channel_display Beta = ''beta''"
| "Channel_display Release_channel = ''release''"

fun channel_of_identifiers :: "Identifier list \<Rightarrow> Channel" where
  "channel_of_identifiers [] = Release_channel"
| "channel_of_identifiers (Numeric _ # ids) = channel_of_identifiers ids"
| "channel_of_identifiers (AlphaNumeric v # ids) =
     (if v = ''alpha'' then Alpha
      else if v = ''beta'' then Beta
      else if v = ''testnet'' then Testnet
      else if v = ''devnet'' then Devnet
      else channel_of_identifiers ids)"

definition Channel_from_version :: "Version \<Rightarrow> Channel" where
  "Channel_from_version version = channel_of_identifiers (pre version)"

text \<open>\<open>running\<close> is the version of the running program.\<close>

definition Channel_from_str :: "Version \<Rightarrow> string \<Rightarrow> (ChannelParseError, Channel) rresult" where
  "Channel_from_str running s =
     (if s = ''devnet'' then Ok Devnet
      else if s = ''testnet'' then Ok Testnet
      else if s = ''alpha'' then Ok Alpha
      else if s = ''beta'' then Ok Beta
      else if s = ''release'' then Ok Release_channel
      else if s = ''semver'' then Ok (Channel_from_version running)
      else Err (ChannelParseError s))"

definition Channel_deserialize :: "Version \<Rightarrow> string \<Rightarrow> (string, Channel) rresult" where
  "Channel_deserialize running value =
     (let value = to_lowercase value in
      case Channel_from_str running value of
        Ok channel \<Rightarrow> Ok channel
      | _ \<Rightarrow> Err (''unsupported update channel: \"'' @ value @ ''\"''))"

section \<open>Releases\<close>

record ReleaseAsset =
  asset_name :: string
  download_url :: string
  asset_size :: nat

record Release =
  version :: Version
  assets :: "ReleaseAsset list"

definition deserialize_version :: "semver \<Rightarrow> string \<Rightarrow> (string, Version) rresult" where
  "deserialize_version S s =
     (let version_str = (case strip_prefix (CHR ''v'') s of Some v \<Rightarrow> v | None \<Rightarrow> s) in
      case ver_parse S version_str of
        Inr v \<Rightarrow> Ok v
      | Inl e \<Rightarrow> Err (''invalid release format \"'' @ s @ ''\": '' @ e))"

fun identifier_contains :: "string \<Rightarrow> Identifier \<Rightarrow> bool" where
  "identifier_contains tag (AlphaNumeric v) = str_contains v tag"
| "identifier_contains tag (Numeric _) = False"

definition in_channel :: "semver \<Rightarrow> Release \<Rightarrow> Channel \<Rightarrow> bool" where
  "in_channel S r channel =
     (case channel of
        Release_channel \<Rightarrow> \<not> is_prerelease S (version r)
      | _ \<Rightarrow> list_ex (identifier_contains (Channel_display channel)) (pre (version r)))"

definition asset_named :: "Release \<Rightarrow> string \<Rightarrow> ReleaseAsset option" where
  "asset_named r name = find (\<lambda>asset. prefix name (asset_name asset)) (assets r)"

definition asset_for_platform :: "semver \<Rightarrow> Release \<Rightarrow> string \<Rightarrow> ReleaseAsset option" where
  "asset_for_platform S r platform =
     (let package_name = ''helium-gateway-v'' @ ver_print S (version r) @ ''-'' @ platform
      in asset_named r package_name)"

text \<open>
  Downloading runs \<^verbatim>\<open>curl\<close>; here the exit status counts. The parameter answers with a failure
  to run it, or with the printed exit code of a failure (\<open>None\<close> for success).
\<close>

definition asset_download ::
  "(string list \<Rightarrow> 'w \<Rightarrow> (foreign + string option) \<times> 'w) \<Rightarrow> ReleaseAsset \<Rightarrow> string \<Rightarrow> 'w \<Rightarrow> unit gw_result \<times> 'w" where
  "asset_download run asset dest w =
     (case run [''-s'', ''-L'', ''-o'', dest, download_url asset] w of
        (Inr None, w) \<Rightarrow> (Ok (), w)
      | (Inr (Some code), w) \<Rightarrow>
          (Err (error_custom (''failed to download asset '' @ download_url asset @ '': '' @ code)), w)
      | (Inl err, w) \<Rightarrow> (Err (Error_IO err), w))"

section \<open>The stream of releases\<close>

definition GH_PAGE_SIZE :: u8 where "GH_PAGE_SIZE = 10"

record 'w releases_ext =
  rl_curl :: "'w runner"
  rl_json :: "bytes \<Rightarrow> foreign + Release list"

text \<open>The items of a page are reversed, so that taking the last one goes through the page in order.\<close>

definition fetch_releases ::
  "'w releases_ext \<Rightarrow> string \<Rightarrow> u32 \<Rightarrow> 'w \<Rightarrow> ((string \<times> u32) \<times> Release list) gw_result \<times> 'w" where
  "fetch_releases X url page w =
     (let curl_url = url @ ''?per_page='' @ print_nat (unat GH_PAGE_SIZE) @ ''&page='' @ print_nat (unat page)
      in curl_get (rl_curl X) curl_url [''-H'', ''Accept: application/vnd.github.v3+json'']
           (\<lambda>output. bind_r (foreign_r from_json_error (rl_json X output)) (\<lambda>items.
              Ok ((url, page), rev items))) w)"

text \<open>
  The state of the stream: before the first page, between two items of a page (the remaining items
  in reverse), or finished. A step yields an item, an error, or the end.
\<close>

datatype release_stream =
    RS_Start string
  | RS_Page "string \<times> u32" "Release list"
  | RS_Done

definition pop :: "Release list \<Rightarrow> (Release \<times> Release list) option" where
  "pop items = (if items = [] then None else Some (last items, butlast items))"

definition unfold_next ::
  "'w releases_ext \<Rightarrow> string \<times> u32 \<Rightarrow> Release list \<Rightarrow> 'w \<Rightarrow>
     Release gw_result option \<times> release_stream \<times> 'w" where
  "unfold_next X up items w =
     (case pop items of
        Some (item, items) \<Rightarrow> (Some (Ok item), RS_Page up items, w)
      | None \<Rightarrow>
          (case fetch_releases X (fst up) (snd up + 1) w of
             (Ok (up, items), w) \<Rightarrow>
               (case pop items of
                  Some (item, items) \<Rightarrow> (Some (Ok item), RS_Page up items, w)
                | None \<Rightarrow> (None, RS_Done, w))
           | (Err e, w) \<Rightarrow> (Some (Err e), RS_Done, w)
           | (Panic, w) \<Rightarrow> (Some Panic, RS_Done, w)))"

fun stream_next ::
  "'w releases_ext \<Rightarrow> release_stream \<Rightarrow> 'w \<Rightarrow> Release gw_result option \<times> release_stream \<times> 'w" where
  "stream_next X (RS_Start url) w =
     (case fetch_releases X url 1 w of
        (Ok (up, items), w) \<Rightarrow> unfold_next X up items w
      | (Err e, w) \<Rightarrow> (Some (Err e), RS_Done, w)
      | (Panic, w) \<Rightarrow> (Some Panic, RS_Done, w))"
| "stream_next X (RS_Page up items) w = unfold_next X up items w"
| "stream_next X RS_Done w = (None, RS_Done, w)"

definition all_releases :: "string \<Rightarrow> release_stream" where
  "all_releases url = RS_Start url"

text \<open>
  The next item of the filtered stream: items that do not pass are skipped, and so are errors. The
  search ends only if the pages do: the value is \<open>None\<close> when it does not.
\<close>

partial_function (option) filtered_next ::
  "'w releases_ext \<Rightarrow> (Release \<Rightarrow> bool) \<Rightarrow> release_stream \<Rightarrow> 'w \<Rightarrow>
     (Release gw_result option \<times> release_stream \<times> 'w) option" where
  "filtered_next X p st w =
     (case stream_next X st w of
        (None, st, w) \<Rightarrow> Some (None, st, w)
      | (Some (Ok r), st, w) \<Rightarrow> if p r then Some (Some (Ok r), st, w) else filtered_next X p st w
      | (Some (Err e), st, w) \<Rightarrow> filtered_next X p st w
      | (Some Panic, st, w) \<Rightarrow> Some (Some Panic, st, w))"

section \<open>Searching the stream\<close>

lemmas filtered_next_simps = filtered_next.simps

lemma pop_rev_Cons [simp]: "pop (rev xs @ [x]) = Some (x, rev xs)"
  by (simp add: pop_def)

lemma pop_Nil [simp]: "pop [] = None"
  by (simp add: pop_def)

lemma filtered_next_page:
  "filtered_next X p (RS_Page up (rev xs)) w =
     (case find p xs of
        Some r \<Rightarrow> Some (Some (Ok r), RS_Page up (rev (tl (dropWhile (\<lambda>r. \<not> p r) xs))), w)
      | None \<Rightarrow> filtered_next X p (RS_Page up []) w)"
proof (induction xs)
  case (Cons x xs)
  show ?case
    by (subst filtered_next_simps) (auto simp: unfold_next_def Cons.IH split: option.split)
qed simp

lemma filtered_next_cong:
  "stream_next X st w = stream_next X st' w' \<Longrightarrow> filtered_next X p st w = filtered_next X p st' w'"
  by (subst (1 2) filtered_next_simps) (simp only:)

lemma filtered_next_Done [simp]: "filtered_next X p RS_Done w = Some (None, RS_Done, w)"
  by (subst filtered_next_simps) simp

text \<open>
  A server that answers the same whenever it is asked: the first \<open>k\<close> pages have items, the request
  for the next one fails or is answered with an empty page.
\<close>

definition serves_pages :: "'w releases_ext \<Rightarrow> string \<Rightarrow> nat \<Rightarrow> (nat \<Rightarrow> Release list) \<Rightarrow> bool" where
  "serves_pages X url k pages \<longleftrightarrow>
     k + 1 < 2 ^ 32 \<and>
     (\<forall>j w. 1 \<le> j \<and> j \<le> k \<longrightarrow> pages j \<noteq> [] \<and>
        fst (fetch_releases X url (of_nat j) w) = Ok ((url, of_nat j), rev (pages j))) \<and>
     (\<forall>w. (\<exists>e. fst (fetch_releases X url (of_nat (k + 1)) w) = Err e) \<or>
        0 < k \<and> fst (fetch_releases X url (of_nat (k + 1)) w) = Ok ((url, of_nat (k + 1)), []))"

lemma filtered_next_end:
  assumes "serves_pages X url k pages"
  shows "\<exists>w'. filtered_next X p (RS_Page (url, of_nat k) []) w = Some (None, RS_Done, w')"
proof -
  obtain r w' where f: "fetch_releases X url (of_nat k + 1) w = (r, w')" by fastforce
  have "(\<exists>e. r = Err e) \<or> r = Ok ((url, of_nat k + 1), [])"
    using assms f unfolding serves_pages_def by (metis (no_types, lifting) fst_conv of_nat_1 of_nat_add)
  then show ?thesis
    by (subst filtered_next_simps) (auto simp: unfold_next_def f)
qed

lemma find_append: "find p (xs @ ys) = (case find p xs of Some x \<Rightarrow> Some x | None \<Rightarrow> find p ys)"
  by (induction xs) auto

lemma filtered_next_pages:
  assumes s: "serves_pages X url k pages" and "j \<le> k"
  shows "\<exists>st w'. filtered_next X p (RS_Page (url, of_nat j) []) w =
    Some (map_option Ok (find p (concat (map pages [Suc j..<Suc k]))), st, w')"
  using assms(2)
proof (induction "k - j" arbitrary: j w)
  case 0
  then show ?case using filtered_next_end [OF s, of p w] by auto
next
  case (Suc n)
  then have j: "Suc j \<le> k" "n = k - Suc j" by simp_all
  obtain r w1 where f: "fetch_releases X url (of_nat (Suc j)) w = (r, w1)" by fastforce
  have "r = Ok ((url, of_nat (Suc j)), rev (pages (Suc j)))" and ne: "pages (Suc j) \<noteq> []"
    using s j(1) f unfolding serves_pages_def by (metis fst_conv le_add1 plus_1_eq_Suc)+
  note f = f [unfolded this]
  obtain x xs where x: "pages (Suc j) = x # xs" using ne by (cases "pages (Suc j)") auto
  have up: "[Suc j..<Suc k] = Suc j # [Suc (Suc j)..<Suc k]" using j(1) by (simp add: upt_conv_Cons)
  have "filtered_next X p (RS_Page (url, of_nat j) []) w =
      filtered_next X p (RS_Page (url, of_nat (Suc j)) (rev (pages (Suc j)))) w1"
    using f by (intro filtered_next_cong) (simp add: unfold_next_def x add.commute)
  also have "\<dots> = (case find p (pages (Suc j)) of
        Some r \<Rightarrow> Some (Some (Ok r), RS_Page (url, of_nat (Suc j)) (rev (tl (dropWhile (\<lambda>r. \<not> p r) (pages (Suc j))))), w1)
      | None \<Rightarrow> filtered_next X p (RS_Page (url, of_nat (Suc j)) []) w1)"
    by (rule filtered_next_page)
  finally show ?case
    using Suc.hyps(1) [OF j(2) j(1), of w1] unfolding up by (auto simp: find_append split: option.splits)
qed

lemma filtered_next_start:
  assumes s: "serves_pages X url k pages"
  shows "\<exists>st w'. filtered_next X p (RS_Start url) w =
    Some (map_option Ok (find p (concat (map pages [1..<Suc k]))), st, w')"
proof (cases k)
  case 0
  obtain r w' where f: "fetch_releases X url 1 w = (r, w')" by fastforce
  have "\<exists>e. r = Err e" using s f unfolding serves_pages_def 0
    by (metis add_0 fst_conv less_irrefl of_nat_1)
  then show ?thesis by (subst filtered_next_simps) (auto simp: f 0)
next
  case (Suc k')
  have "fetch_releases X url 1 w = (Ok ((url, 1), rev (pages 1)), snd (fetch_releases X url 1 w))" and "pages 1 \<noteq> []"
    using s unfolding serves_pages_def Suc by (metis le_add1 le_refl of_nat_1 plus_1_eq_Suc prod.collapse)+
  then obtain w1 where f: "fetch_releases X url 1 w = (Ok ((url, 1), rev (pages 1)), w1)" and ne: "pages 1 \<noteq> []" by blast
  obtain x xs where x: "pages 1 = x # xs" using ne by (cases "pages 1") auto
  have "filtered_next X p (RS_Start url) w = filtered_next X p (RS_Page (url, 1) (rev (pages 1))) w1"
    by (rule filtered_next_cong) (simp add: f unfold_next_def x [simplified])
  moreover have "[1..<Suc k] = 1 # [Suc 1..<Suc k]" using Suc by (simp add: upt_conv_Cons)
  ultimately show ?thesis
    using filtered_next_pages [OF s, of 1 p w1] Suc unfolding filtered_next_page
    by (auto simp: find_append split: option.splits)
qed

end
