(* ===== verification/Updater.thy ===== *)
theory Updater
  imports Releases
begin

text \<open>
  The updater (\<^verbatim>\<open>src/updater/mod.rs\<close>) and the update commands (\<^verbatim>\<open>src/cmd/update.rs\<close>) on
  the stream of releases. The programs they run, the temporary and the current directory and the
  version of the running program are parameters.
\<close>

record UpdateSettings =
  us_enabled :: bool
  us_interval :: u32
  us_channel :: Channel
  us_platform :: string
  us_uri :: string
  us_command :: string

record Updater =
  up_enabled :: bool
  up_uri :: string
  up_channel :: Channel
  up_platform :: string
  up_interval_secs :: u64
  up_install_command :: string

text \<open>
  Running the installer answers with a failure to run it, or with whether it succeeded and what it
  wrote to standard error.
\<close>

record 'w updater_ext =
  ux_releases :: "'w releases_ext"
  ux_semver :: semver
  ux_version :: Version
  ux_curl_status :: "string list \<Rightarrow> 'w \<Rightarrow> (foreign + string option) \<times> 'w"
  ux_install :: "string \<Rightarrow> string \<Rightarrow> 'w \<Rightarrow> (foreign + bool \<times> bytes) \<times> 'w"
  ux_temp_dir :: string
  ux_current_dir :: "foreign + string"

definition bytes_str :: "bytes \<Rightarrow> string" where
  "bytes_str bs = map (\<lambda>b. char_of (unat b)) bs"

definition Updater_new :: "UpdateSettings \<Rightarrow> Updater gw_result" where
  "Updater_new s =
     Ok \<lparr>up_enabled = us_enabled s, up_uri = us_uri s, up_channel = us_channel s, up_platform = us_platform s,
         up_interval_secs = ucast (us_interval s) * 60, up_install_command = us_command s\<rparr>"

definition download_path :: "'w updater_ext \<Rightarrow> string \<Rightarrow> string" where
  "download_path U package_name = path_join (ux_temp_dir U) package_name"

text \<open>The standard error of a failed installer is unwrapped as UTF-8.\<close>

definition up_install :: "'w updater_ext \<Rightarrow> Updater \<Rightarrow> string \<Rightarrow> 'w \<Rightarrow> unit gw_result \<times> 'w" where
  "up_install U u path w =
     (case ux_install U (up_install_command u) path w of
        (Inr (success, stderr), w) \<Rightarrow>
          (if success then Ok ()
           else if \<not> utf8_valid stderr then Panic
           else Err (Error_IO (bytes_str stderr)), w)
      | (Inl err, w) \<Rightarrow> (Err (Error_IO err), w))"

definition wanted :: "semver \<Rightarrow> Version \<Rightarrow> Channel \<Rightarrow> string \<Rightarrow> Release \<Rightarrow> bool" where
  "wanted S current_version channel platform r \<longleftrightarrow>
     in_channel S r channel \<and> ver_less S current_version (version r) \<and> asset_for_platform S r platform \<noteq> None"

text \<open>
  One tick of the update timer: \<open>Some None\<close> continues the loop, \<open>Some (Some r)\<close> returns \<open>r\<close> from it,
  and \<open>None\<close> is a search that does not end.
\<close>

definition updater_tick :: "'w updater_ext \<Rightarrow> Updater \<Rightarrow> 'w \<Rightarrow> (unit gw_result option \<times> 'w) option" where
  "updater_tick U u w =
     (case filtered_next (ux_releases U) (wanted (ux_semver U) (ux_version U) (up_channel u) (up_platform u))
             (all_releases (up_uri u)) w of
        None \<Rightarrow> None
      | Some (Some (Ok release), _, w) \<Rightarrow>
          (case asset_for_platform (ux_semver U) release (up_platform u) of
             None \<Rightarrow> Some (Some Panic, w)
           | Some asset \<Rightarrow>
               (let path = download_path U (asset_name asset) in
                case asset_download (ux_curl_status U) asset path w of
                  (Ok _, w) \<Rightarrow> (let (r, w) = up_install U u path w in Some (Some r, w))
                | (r, w) \<Rightarrow> Some (Some r, w)))
      | Some (None, _, w) \<Rightarrow> Some (None, w)
      | Some (Some (Err _), _, w) \<Rightarrow> Some (None, w)
      | Some (Some Panic, _, w) \<Rightarrow> Some (Some Panic, w))"

datatype updater_event = UT_Shutdown | UT_Tick

text \<open>The run loop; \<open>Some (None, w)\<close> is a loop still waiting after the given events.\<close>

fun updater_loop :: "'w updater_ext \<Rightarrow> Updater \<Rightarrow> updater_event list \<Rightarrow> 'w \<Rightarrow> (unit gw_result option \<times> 'w) option" where
  "updater_loop U u [] w = Some (None, w)"
| "updater_loop U u (UT_Shutdown # evs) w = Some (Some (Ok ()), w)"
| "updater_loop U u (UT_Tick # evs) w =
     (case updater_tick U u w of
        Some (None, w) \<Rightarrow> updater_loop U u evs w
      | r \<Rightarrow> r)"

text \<open>The update timer is made before the loop starts.\<close>

definition updater_run :: "'w updater_ext \<Rightarrow> Updater \<Rightarrow> updater_event list \<Rightarrow> 'w \<Rightarrow> (unit gw_result option \<times> 'w) option" where
  "updater_run U u evs w =
     (if \<not> up_enabled u then Some (Some (Ok ()), w)
      else if interval_panics (secs (unat (up_interval_secs u))) then Some (Some Panic, w)
      else updater_loop U u evs w)"

text \<open>The interval is given in minutes and 32 bits wide: it is never too long for the clock.\<close>

lemma Updater_new_interval:
  assumes "Updater_new s = Ok u"
  shows "interval_panics (secs (unat (up_interval_secs u))) \<longleftrightarrow> us_interval s = 0"
proof -
  have "unat (us_interval s) < 2 ^ 32" using unsigned_less [of "us_interval s", where 'a = nat] by simp
  then have "unat (up_interval_secs u) = unat (us_interval s) * 60"
    using assms by (auto simp: Updater_new_def unat_word_ariths unsigned_ucast_eq take_bit_nat_eq_self)
  then show ?thesis
    using \<open>unat (us_interval s) < 2 ^ 32\<close> by (auto simp: interval_panics_def secs_def unat_eq_zero)
qed

section \<open>Update commands\<close>

datatype cli_output = Out string | Err_out string

record ListCmd =
  lc_channel :: "Channel option"
  lc_count :: "nat option"
  lc_platform :: "string option"

record DownloadCmd =
  dc_version :: Version
  dc_path :: "string option"

definition release_line :: "'w updater_ext \<Rightarrow> Release \<Rightarrow> cli_output" where
  "release_line U r =
     (if ver_eq (ux_semver U) (ux_version U) (version r)
      then Out (ver_print (ux_semver U) (version r) @ [CHR 0x20, CHR 0x28, CHR 0x2A, CHR 0x29])
      else Out (ver_print (ux_semver U) (version r)))"

text \<open>\<^verbatim>\<open>take(n)\<close> followed by the loop that prints; it stops at the end and at anything not \<^verbatim>\<open>Ok\<close>.\<close>

primrec print_releases ::
  "'w updater_ext \<Rightarrow> (Release \<Rightarrow> bool) \<Rightarrow> nat \<Rightarrow> release_stream \<Rightarrow> 'w \<Rightarrow> (cli_output list \<times> 'w) option" where
  "print_releases U p 0 st w = Some ([], w)"
| "print_releases U p (Suc n) st w =
     (case filtered_next (ux_releases U) p st w of
        None \<Rightarrow> None
      | Some (Some (Ok r), st, w) \<Rightarrow>
          map_option (\<lambda>(out, w). (release_line U r # out, w)) (print_releases U p n st w)
      | Some (_, _, w) \<Rightarrow> Some ([], w))"

definition List_run :: "'w updater_ext \<Rightarrow> ListCmd \<Rightarrow> UpdateSettings \<Rightarrow> 'w \<Rightarrow> (unit gw_result \<times> cli_output list \<times> 'w) option" where
  "List_run U cmd s w =
     (let channel = (case lc_channel cmd of Some c \<Rightarrow> c | None \<Rightarrow> us_channel s);
          platform = (case lc_platform cmd of Some p \<Rightarrow> p | None \<Rightarrow> us_platform s);
          n = (case lc_count cmd of Some n \<Rightarrow> n | None \<Rightarrow> 10)
      in map_option (\<lambda>(out, w). (Ok (), out, w))
           (print_releases U (\<lambda>r. in_channel (ux_semver U) r channel \<and> asset_for_platform (ux_semver U) r platform \<noteq> None)
              n (all_releases (us_uri s)) w))"

definition download_wanted :: "semver \<Rightarrow> Version \<Rightarrow> string \<Rightarrow> Release \<Rightarrow> bool" where
  "download_wanted S v platform r \<longleftrightarrow>
     ver_eq S (version r) v \<and> in_channel S r (Channel_from_version v) \<and> asset_for_platform S r platform \<noteq> None"

definition Download_run ::
  "'w updater_ext \<Rightarrow> (gw_error \<Rightarrow> string) \<Rightarrow> DownloadCmd \<Rightarrow> UpdateSettings \<Rightarrow> 'w \<Rightarrow>
     (unit gw_result \<times> cli_output list \<times> 'w) option" where
  "Download_run U debug cmd s w =
     (case filtered_next (ux_releases U) (download_wanted (ux_semver U) (dc_version cmd) (us_platform s))
             (all_releases (us_uri s)) w of
        None \<Rightarrow> None
      | Some (Some (Ok release), _, w) \<Rightarrow>
          (case asset_for_platform (ux_semver U) release (us_platform s) of
             None \<Rightarrow> Some (Panic, [], w)
           | Some asset \<Rightarrow>
               (case ux_current_dir U of
                  Inl e \<Rightarrow> Some (Err (Error_IO e), [], w)
                | Inr cwd \<Rightarrow>
                    (let path = path_join (case dc_path cmd of Some p \<Rightarrow> p | None \<Rightarrow> cwd) (asset_name asset) in
                     case asset_download (ux_curl_status U) asset path w of
                       (Ok _, w) \<Rightarrow> Some (Ok (), [Out (''Downloaded to: '' @ path)], w)
                     | (Err e, w) \<Rightarrow> Some (Ok (), [Err_out (''Failed to download update: '' @ debug e)], w)
                     | (Panic, w) \<Rightarrow> Some (Panic, [], w))))
      | Some (None, _, w) \<Rightarrow> Some (Ok (), [Err_out ''No release found''], w)
      | Some (Some (Err e), _, w) \<Rightarrow> Some (Ok (), [Err_out (''Error finding release: '' @ debug e)], w)
      | Some (Some Panic, _, w) \<Rightarrow> Some (Panic, [], w))"

section \<open>Channels\<close>

lemma Channel_display_parse: "Channel_from_str running (Channel_display c) = Ok c"
  by (cases c) (simp_all add: Channel_from_str_def)

lemma Channel_deserialize_display: "Channel_deserialize running (Channel_display c) = Ok c"
  by (cases c) (simp_all add: Channel_deserialize_def Channel_from_str_def to_lowercase_def ascii_lower_def of_char_def)

text \<open>A version with one of the four tags is in the channel the tag names.\<close>

lemma channel_of_identifiers_contains:
  "channel_of_identifiers ids \<noteq> Release_channel \<Longrightarrow>
   list_ex (identifier_contains (Channel_display (channel_of_identifiers ids))) ids"
  by (induction ids rule: channel_of_identifiers.induct) (auto simp: str_contains_iff)

lemma in_own_channel:
  "Channel_from_version (version r) \<noteq> Release_channel \<or> \<not> is_prerelease S (version r) \<Longrightarrow>
   in_channel S r (Channel_from_version (version r))"
  using channel_of_identifiers_contains [of "pre (version r)"]
  by (cases "Channel_from_version (version r)") (auto simp: in_channel_def Channel_from_version_def)

text \<open>
  Other prereleases have the release channel by their version and are not in it: the download
  command never finds them.
\<close>

lemma other_prerelease_not_downloaded:
  "Channel_from_version v = Release_channel \<Longrightarrow> is_prerelease S (version r) \<Longrightarrow> \<not> download_wanted S v platform r"
  by (simp add: download_wanted_def in_channel_def)

section \<open>Installing\<close>

definition install_package :: "'w updater_ext \<Rightarrow> Updater \<Rightarrow> ReleaseAsset \<Rightarrow> 'w \<Rightarrow> unit gw_result \<times> 'w" where
  "install_package U u asset w =
     (case asset_download (ux_curl_status U) asset (download_path U (asset_name asset)) w of
        (Ok _, w) \<Rightarrow> up_install U u (download_path U (asset_name asset)) w
      | (r, w) \<Rightarrow> (r, w))"

definition installer_garbles :: "'w updater_ext \<Rightarrow> Updater \<Rightarrow> ReleaseAsset \<Rightarrow> 'w \<Rightarrow> bool" where
  "installer_garbles U u asset w \<longleftrightarrow>
     (\<exists>w1 stderr w2. asset_download (ux_curl_status U) asset (download_path U (asset_name asset)) w = (Ok (), w1) \<and>
        ux_install U (up_install_command u) (download_path U (asset_name asset)) w1 = (Inr (False, stderr), w2) \<and>
        \<not> utf8_valid stderr)"

lemma install_package_Panic: "fst (install_package U u asset w) = Panic \<longleftrightarrow> installer_garbles U u asset w"
proof -
  obtain r w1 where d: "asset_download (ux_curl_status U) asset (download_path U (asset_name asset)) w = (r, w1)"
    by fastforce
  then have "r \<noteq> Panic" by (auto simp: asset_download_def split: sum.splits prod.splits option.splits)
  then show ?thesis
    by (cases r) (auto simp: install_package_def installer_garbles_def d up_install_def
        split: sum.splits prod.splits if_splits)
qed

lemma find_split:
  "find p xs = Some x \<Longrightarrow> \<exists>before after. xs = before @ x # after \<and> (\<forall>y \<in> set before. \<not> p y) \<and> p x"
proof (induction xs)
  case (Cons a xs)
  then show ?case
    by (cases "p a") (force, fastforce intro: exI [of _ "a # before" for before])
qed simp

lemma asset_for_platform_Some:
  "asset_for_platform S r platform = Some asset \<Longrightarrow>
   asset \<in> set (assets r) \<and> prefix (''helium-gateway-v'' @ ver_print S (version r) @ ''-'' @ platform) (asset_name asset)"
  by (auto simp: asset_for_platform_def asset_named_def find_Some_iff Let_def)

section \<open>Properties\<close>

text \<open>
  C27. A check for updates ends whenever the list of releases does, even if a request fails: it looks
  at the releases in the order they are listed and acts on the first one that is in the channel,
  newer than the running version and has a package for the platform. That package, whose name starts
  with the name of its version and platform, is downloaded and installed and the updater ends with
  the outcome; it panics exactly when a failing installer writes something that is not UTF-8. When
  there is no such release the updater goes on.
\<close>

theorem updater_first_newer:
  assumes "serves_pages (ux_releases U) (up_uri u) k pages"
    and "listed = concat (map pages [1..<Suc k])"
    and "want = wanted (ux_semver U) (ux_version U) (up_channel u) (up_platform u)"
  shows "(\<exists>w1. (\<forall>r \<in> set listed. \<not> want r) \<and> updater_tick U u w = Some (None, w1)) \<or>
    (\<exists>before r after asset w1 res w2. listed = before @ r # after \<and> (\<forall>q \<in> set before. \<not> want q) \<and>
       in_channel (ux_semver U) r (up_channel u) \<and> ver_less (ux_semver U) (ux_version U) (version r) \<and>
       asset \<in> set (assets r) \<and>
       prefix (''helium-gateway-v'' @ ver_print (ux_semver U) (version r) @ ''-'' @ up_platform u) (asset_name asset) \<and>
       install_package U u asset w1 = (res, w2) \<and> updater_tick U u w = Some (Some res, w2) \<and>
       (res = Panic \<longleftrightarrow> installer_garbles U u asset w1))"
proof -
  obtain st w1 where f: "filtered_next (ux_releases U) want (RS_Start (up_uri u)) w =
      Some (map_option Ok (find want listed), st, w1)"
    using filtered_next_start [OF assms(1), of want w] assms(2) by blast
  show ?thesis
  proof (cases "find want listed")
    case None
    then have "updater_tick U u w = Some (None, w1)"
      using f by (simp add: updater_tick_def all_releases_def assms(3))
    with None show ?thesis by (auto simp: find_None_iff)
  next
    case (Some r)
    from find_split [OF Some] obtain before after
      where s: "listed = before @ r # after" "\<forall>q \<in> set before. \<not> want q" "want r" by blast
    obtain asset where a: "asset_for_platform (ux_semver U) r (up_platform u) = Some asset"
      using s(3) by (auto simp: assms(3) wanted_def)
    obtain res w2 where i: "install_package U u asset w1 = (res, w2)" by fastforce
    have "updater_tick U u w = Some (Some res, w2)"
      using f i Some a by (auto simp: updater_tick_def all_releases_def assms(3) install_package_def Let_def
          split: rresult.splits prod.splits)
    moreover have "res = Panic \<longleftrightarrow> installer_garbles U u asset w1"
      using install_package_Panic [of U u asset w1] i by simp
    moreover have "in_channel (ux_semver U) r (up_channel u)" "ver_less (ux_semver U) (ux_version U) (version r)"
      using s(3) by (simp_all add: assms(3) wanted_def)
    ultimately show ?thesis using s i asset_for_platform_Some [OF a] by blast
  qed
qed

text \<open>A server with one page that lists one release, newer than the running version.\<close>

definition sample_semver :: semver where
  "sample_semver = \<lparr>ver_parse = (\<lambda>_. Inl ''unsupported''), ver_print = (\<lambda>_. ''1.0.1''),
     ver_less = (\<lambda>a b. ver_patch a < ver_patch b), ver_eq = (=), is_prerelease = (\<lambda>v. pre v \<noteq> [])\<rparr>"

definition sample_version :: "u64 \<Rightarrow> Version" where
  "sample_version n = \<lparr>ver_major = 1, ver_minor = 0, ver_patch = n, pre = [], build = []\<rparr>"

definition sample_release :: Release where
  "sample_release = \<lparr>version = sample_version 1,
     assets = [\<lparr>asset_name = ''helium-gateway-v1.0.1-klkgw.ipk'', download_url = ''d'', asset_size = 1\<rparr>]\<rparr>"

definition sample_updater_ext :: "unit updater_ext" where
  "sample_updater_ext =
     \<lparr>ux_releases = \<lparr>rl_curl = (\<lambda>args w. (Inr (if last args = ''u?per_page=10&page=1'' then [1] else [2]), w)),
        rl_json = (\<lambda>bs. Inr (if bs = [1] then [sample_release] else []))\<rparr>,
      ux_semver = sample_semver, ux_version = sample_version 0, ux_curl_status = (\<lambda>_ w. (Inr None, w)),
      ux_install = (\<lambda>_ _ w. (Inr (True, []), w)), ux_temp_dir = ''/tmp'', ux_current_dir = Inr ''/root''\<rparr>"

definition sample_updater :: Updater where
  "sample_updater = \<lparr>up_enabled = True, up_uri = ''u'', up_channel = Release_channel, up_platform = ''klkgw'',
     up_interval_secs = 600, up_install_command = ''install''\<rparr>"

lemma sample_serves: "serves_pages (ux_releases sample_updater_ext) (up_uri sample_updater) 1 (\<lambda>_. [sample_release])"
proof -
  have d: "print_nat 1 = ''1''" "print_nat 2 = ''2''" "print_nat 10 = ''10''"
    by (simp_all add: print_nat.simps char_of_def bit_0)
  have j: "(1 \<le> j \<and> j \<le> 1) = (j = 1)" for j :: nat by auto
  show ?thesis
    unfolding serves_pages_def j
    by (simp add: sample_updater_ext_def sample_updater_def fetch_releases_def curl_get_def GH_PAGE_SIZE_def d [simplified] d)
qed

theorem updater_first_newer_witness:
  "\<exists>w. updater_tick sample_updater_ext sample_updater () = Some (Some (Ok ()), w)"
proof -
  have w: "wanted (ux_semver sample_updater_ext) (ux_version sample_updater_ext) (up_channel sample_updater)
      (up_platform sample_updater) sample_release"
    by (simp add: wanted_def in_channel_def asset_for_platform_def asset_named_def sample_semver_def sample_release_def
        sample_version_def sample_updater_ext_def sample_updater_def Let_def)
  have ok: "install_package sample_updater_ext sample_updater asset x = (Ok (), x)" for asset x
    by (simp add: install_package_def asset_download_def up_install_def sample_updater_ext_def)
  show ?thesis
    using updater_first_newer [OF sample_serves refl refl, of "()"] w ok by auto
qed

end
