(* ===== verification/Beacon.thy ===== *)
theory Beacon
  imports Packets Regions
begin

text \<open>
  Proof-of-coverage beacons (the crate \<^verbatim>\<open>beacon\<close>). The hash function, the seeded random
  generator and the system clock are parameters; integers are fed to the hash in the byte order
  of the little-endian targets.
\<close>

record Entropy =
  e_version :: u32
  e_timestamp :: i64
  e_data :: bytes

record Beacon =
  b_data :: bytes
  b_frequency :: u64
  b_datarate :: ProtoDataRate
  b_remote_entropy :: Entropy
  b_local_entropy :: Entropy

record BeaconReport =
  br_pub_key :: bytes
  br_local_entropy :: bytes
  br_remote_entropy :: bytes
  br_data :: bytes
  br_frequency :: u64
  br_channel :: i32
  br_datarate :: i32
  br_tx_power :: i32
  br_timestamp :: u64
  br_signature :: bytes

record 'r beacon_ext =
  sha256 :: "bytes \<Rightarrow> bytes"
  rng_from_seed :: "bytes \<Rightarrow> 'r"
  rng_choose :: "RegionParam list \<Rightarrow> 'r \<Rightarrow> RegionParam option \<times> 'r"
  rng_range :: "nat \<Rightarrow> nat \<Rightarrow> 'r \<Rightarrow> nat \<times> 'r"

definition MAX_BEACON_V0_PAYLOAD_SIZE :: nat where "MAX_BEACON_V0_PAYLOAD_SIZE = 10"
definition MIN_BEACON_V0_PAYLOAD_SIZE :: nat where "MIN_BEACON_V0_PAYLOAD_SIZE = 5"
definition LOCAL_ENTROPY_SIZE :: nat where "LOCAL_ENTROPY_SIZE = 4"

text \<open>\<open>os_bytes n\<close> are the bytes of the system generator; \<open>now\<close> is the time since the epoch.\<close>

definition Entropy_local :: "(nat \<Rightarrow> bytes) \<Rightarrow> foreign + nat \<Rightarrow> (beacon_error, Entropy) rresult" where
  "Entropy_local os_bytes now =
     (let local_entropy = os_bytes LOCAL_ENTROPY_SIZE in
      case now of
        Inl e \<Rightarrow> Err (BE_SystemTime e)
      | Inr nanos \<Rightarrow>
          Ok \<lparr>e_version = 0, e_timestamp = of_nat (nanos div 1000000000), e_data = local_entropy\<rparr>)"

definition Entropy_digest :: "Entropy \<Rightarrow> bytes \<Rightarrow> bytes" where
  "Entropy_digest e state = state @ e_data e @ le_bytes 8 (e_timestamp e)"

text \<open>
  The JSON form of entropy: an object whose version may be missing and whose data is base 64 text.
  Base 64 is that of the crate \<^verbatim>\<open>base64\<close> and a parameter; \<open>EntropyFields\<close> are the members of the
  object once its text is decoded.
\<close>

record b64_codec =
  b64_encode :: "bytes \<Rightarrow> string"
  b64_decode :: "string \<Rightarrow> foreign + bytes"

record EntropyFields =
  ef_version :: "u32 option"
  ef_timestamp :: i64
  ef_data :: string

definition default_version :: u32 where "default_version = 0"

definition entropy_data_serialize :: "b64_codec \<Rightarrow> bytes \<Rightarrow> string" where
  "entropy_data_serialize B key = b64_encode B key"

definition entropy_data_deserialize :: "b64_codec \<Rightarrow> string \<Rightarrow> foreign + bytes" where
  "entropy_data_deserialize B value = b64_decode B value"

definition Entropy_serialize :: "b64_codec \<Rightarrow> Entropy \<Rightarrow> EntropyFields" where
  "Entropy_serialize B e =
     \<lparr>ef_version = Some (e_version e), ef_timestamp = e_timestamp e, ef_data = entropy_data_serialize B (e_data e)\<rparr>"

definition Entropy_deserialize :: "b64_codec \<Rightarrow> EntropyFields \<Rightarrow> foreign + Entropy" where
  "Entropy_deserialize B o' =
     (case entropy_data_deserialize B (ef_data o') of
        Inl e \<Rightarrow> Inl e
      | Inr bs \<Rightarrow>
          Inr \<lparr>e_version = (case ef_version o' of Some v \<Rightarrow> v | None \<Rightarrow> default_version),
               e_timestamp = ef_timestamp o', e_data = bs\<rparr>)"

definition Entropy_display :: "b64_codec \<Rightarrow> Entropy \<Rightarrow> string" where
  "Entropy_display B e = b64_encode B (e_data e)"

text \<open>Entropy that is written is read back, when the decoder of base 64 inverts the encoder.\<close>

definition b64_ok :: "b64_codec \<Rightarrow> bool" where
  "b64_ok B \<longleftrightarrow> (\<forall>bs. b64_decode B (b64_encode B bs) = Inr bs)"

lemma entropy_roundtrip: "b64_ok B \<Longrightarrow> Entropy_deserialize B (Entropy_serialize B e) = Inr e"
  by (simp add: b64_ok_def Entropy_deserialize_def Entropy_serialize_def entropy_data_serialize_def
      entropy_data_deserialize_def)

definition rand_frequency ::
  "'r beacon_ext \<Rightarrow> RegionParam list \<Rightarrow> 'r \<Rightarrow> (beacon_error, u64) rresult \<times> 'r" where
  "rand_frequency B region_params rng =
     (let (p, rng) = rng_choose B region_params rng
      in (ok_or BE_NoRegionParams (map_option channel_frequency p), rng))"

definition Beacon_new ::
  "'r beacon_ext \<Rightarrow> Entropy \<Rightarrow> Entropy \<Rightarrow> RegionParam list \<Rightarrow> (beacon_error, Beacon) rresult" where
  "Beacon_new B remote_entropy local_entropy region_params =
     (if e_version remote_entropy = 0 then
        let data = sha256 B (Entropy_digest local_entropy (Entropy_digest remote_entropy [])) in
        if length data < 32 then Panic
        else
          let seed = take 32 data;
              rng = rng_from_seed B seed;
              (frequency, rng) = rand_frequency B region_params rng
          in bind_r frequency (\<lambda>frequency.
             let (payload_size, rng) = rng_range B MIN_BEACON_V0_PAYLOAD_SIZE MAX_BEACON_V0_PAYLOAD_SIZE rng
             in Ok \<lparr>b_data = take payload_size data, b_frequency = frequency, b_datarate = Sf7bw125,
                    b_remote_entropy = remote_entropy, b_local_entropy = local_entropy\<rparr>)
      else Err BE_InvalidVersion)"

definition beacon_id :: "(bytes \<Rightarrow> string) \<Rightarrow> Beacon \<Rightarrow> string" where
  "beacon_id b64 b = b64 (b_data b)"

definition BeaconReport_from_Beacon ::
  "radio_codec \<Rightarrow> foreign + nat \<Rightarrow> Beacon \<Rightarrow> (beacon_error, BeaconReport) rresult" where
  "BeaconReport_from_Beacon R now v =
     (case now of
        Inl e \<Rightarrow> Err (BE_SystemTime e)
      | Inr nanos \<Rightarrow>
          Ok \<lparr>br_pub_key = [], br_local_entropy = e_data (b_local_entropy v),
              br_remote_entropy = e_data (b_remote_entropy v), br_data = b_data v,
              br_frequency = b_frequency v, br_channel = 0,
              br_datarate = proto_datarate_i32 R (b_datarate v), br_tx_power = 27,
              br_timestamp = of_nat nanos, br_signature = []\<rparr>)"

section \<open>Properties\<close>

text \<open>What is relied on of the generator and the hash function.\<close>

definition beacon_ext_ok :: "'r beacon_ext \<Rightarrow> bool" where
  "beacon_ext_ok B \<longleftrightarrow>
     (\<forall>bs. length (sha256 B bs) = 32) \<and>
     (\<forall>ps r. (fst (rng_choose B ps r) = None \<longleftrightarrow> ps = []) \<and> set_option (fst (rng_choose B ps r)) \<subseteq> set ps) \<and>
     (\<forall>lo hi r. lo \<le> hi \<longrightarrow> lo \<le> fst (rng_range B lo hi r) \<and> fst (rng_range B lo hi r) \<le> hi)"

text \<open>The hash of both entropies, which seeds the generator and provides the payload.\<close>

definition beacon_hash :: "'r beacon_ext \<Rightarrow> Entropy \<Rightarrow> Entropy \<Rightarrow> bytes" where
  "beacon_hash B re le =
     sha256 B (e_data re @ le_bytes 8 (e_timestamp re) @ e_data le @ le_bytes 8 (e_timestamp le))"

lemma Beacon_new_cases:
  assumes "beacon_ext_ok B"
  shows "if e_version re \<noteq> 0 then Beacon_new B re le ps = Err BE_InvalidVersion
    else if ps = [] then Beacon_new B re le ps = Err BE_NoRegionParams
    else \<exists>b p k. Beacon_new B re le ps = Ok b \<and> p \<in> set ps \<and> 5 \<le> k \<and> k \<le> 10 \<and>
      b = \<lparr>b_data = take k (beacon_hash B re le), b_frequency = channel_frequency p, b_datarate = Sf7bw125,
           b_remote_entropy = re, b_local_entropy = le\<rparr>"
proof -
  note ok = assms [unfolded beacon_ext_ok_def, THEN conjunct1, rule_format]
    assms [unfolded beacon_ext_ok_def, THEN conjunct2, THEN conjunct1, rule_format]
    assms [unfolded beacon_ext_ok_def, THEN conjunct2, THEN conjunct2, rule_format]
  have h: "sha256 B (Entropy_digest le (Entropy_digest re [])) = beacon_hash B re le"
    by (simp add: Entropy_digest_def beacon_hash_def)
  have l: "length (beacon_hash B re le) = 32" by (simp add: beacon_hash_def ok(1))
  obtain p r1 where c: "rng_choose B ps (rng_from_seed B (beacon_hash B re le)) = (p, r1)" by fastforce
  obtain n r2 where g: "rng_range B 5 10 r1 = (n, r2)" by fastforce
  have n: "5 \<le> n" "n \<le> 10" using ok(3) [of 5 10 r1] g by simp_all
  have p: "p = None \<longleftrightarrow> ps = []" "set_option p \<subseteq> set ps"
    using ok(2) [of ps "rng_from_seed B (beacon_hash B re le)"] c by simp_all
  have "Beacon_new B re le ps =
     (if e_version re \<noteq> 0 then Err BE_InvalidVersion
      else case p of None \<Rightarrow> Err BE_NoRegionParams
      | Some q \<Rightarrow> Ok \<lparr>b_data = take n (beacon_hash B re le), b_frequency = channel_frequency q,
          b_datarate = Sf7bw125, b_remote_entropy = re, b_local_entropy = le\<rparr>)"
    by (cases p) (simp_all add: Beacon_new_def h l rand_frequency_def c g Let_def ok_or_def
        MIN_BEACON_V0_PAYLOAD_SIZE_def MAX_BEACON_V0_PAYLOAD_SIZE_def)
  with n p show ?thesis by (auto split: option.splits)
qed

lemma Beacon_new_size:
  assumes "beacon_ext_ok B" and "Beacon_new B re le ps = Ok b"
  shows "5 \<le> length (b_data b) \<and> length (b_data b) \<le> 10"
proof -
  have "length (beacon_hash B re le) = 32" using assms(1) by (simp add: beacon_hash_def beacon_ext_ok_def)
  then show ?thesis using Beacon_new_cases [OF assms(1), of re le ps] assms(2) by (auto split: if_splits)
qed

text \<open>
  A beacon is built exactly for version 0 entropy and a region with channels. Its payload
  is the first five to ten bytes of the hash of the remote and local entropy, its frequency is
  that of a channel of the region, and both entropies are kept for the report. Without channels
  and for other versions it fails with the corresponding error; it never panics.
\<close>

theorem beacon_construction:
  assumes "beacon_ext_ok B"
  shows "if e_version re \<noteq> 0 then Beacon_new B re le ps = Err BE_InvalidVersion
    else if ps = [] then Beacon_new B re le ps = Err BE_NoRegionParams
    else \<exists>b p k. Beacon_new B re le ps = Ok b \<and> p \<in> set ps \<and> 5 \<le> k \<and> k \<le> 10 \<and>
      b = \<lparr>b_data = take k (beacon_hash B re le), b_frequency = channel_frequency p, b_datarate = Sf7bw125,
           b_remote_entropy = re, b_local_entropy = le\<rparr>"
  using assms by (rule Beacon_new_cases)

definition sample_beacon_ext :: "unit beacon_ext" where
  "sample_beacon_ext = \<lparr>sha256 = (\<lambda>_. replicate 32 7), rng_from_seed = (\<lambda>_. ()),
     rng_choose = (\<lambda>ps r. (case ps of [] \<Rightarrow> None | p # _ \<Rightarrow> Some p, r)), rng_range = (\<lambda>lo hi r. (lo, r))\<rparr>"

lemma sample_beacon_ext_ok: "beacon_ext_ok sample_beacon_ext"
  by (auto simp: beacon_ext_ok_def sample_beacon_ext_def split: list.splits)

definition sample_entropy :: Entropy where
  "sample_entropy = \<lparr>e_version = 0, e_timestamp = 1663702455, e_data = [8, 79, 124, 251]\<rparr>"

definition sample_b64 :: b64_codec where
  "sample_b64 = \<lparr>b64_encode = map (\<lambda>b. char_of (unat b)), b64_decode = (\<lambda>s. Inr (map (\<lambda>c. of_nat (of_char c)) s))\<rparr>"

lemma sample_b64_ok: "b64_ok sample_b64"
proof -
  have "unat b < 256" for b :: u8 by (rule unsigned_less [THEN order_less_le_trans]) simp
  then have "of_nat (unat b mod 256) = b" for b :: u8 by simp
  then show ?thesis by (simp add: b64_ok_def sample_b64_def comp_def map_idI)
qed

end
