(* ===== verification/Beaconer.thy ===== *)
theory Beaconer
  imports Beacon State_Channel Curl
begin

text \<open>
  The beaconer (\<^verbatim>\<open>src/beaconer.rs\<close>) and the services it calls
  (\<^verbatim>\<open>src/service/poc.rs\<close>, \<^verbatim>\<open>src/service/entropy.rs\<close>).
  The clock, the system generator, the \<^verbatim>\<open>curl\<close> process, the JSON decoder, base 64, the
  protobuf encoders and the remote procedures are parameters acting on a world \<open>'w\<close>; what is sent
  to the gateway and to the ingest service is recorded as a list of effects.
\<close>

datatype beaconer_message =
    BM_ReceivedBeacon Packet
  | BM_RegionParamsChanged RegionParams

datatype beaconer_effect =
    BX_Transmit Beacon
  | BX_SubmitBeacon uri BeaconReport
  | BX_SubmitWitness uri WitnessReport

record Beaconer =
  bc_keypair :: Keypair
  bc_interval :: duration
  bc_region_params :: "RegionParams option"
  bc_poc_uri :: uri
  bc_entropy_uri :: uri

record PocSettings =
  poc_entropy_uri :: uri
  poc_ingest_uri :: uri
  poc_beacon_interval :: u64

record ('w, 'r) beaconer_ext =
  bx_beacon :: "'r beacon_ext"
  bx_radio :: radio_codec
  bx_uri_print :: "uri \<Rightarrow> string"
  bx_curl :: "'w runner"
  bx_entropy_json :: "bytes \<Rightarrow> foreign + EntropyFields"
  bx_b64 :: b64_codec
  bx_os_bytes :: "'w \<Rightarrow> (nat \<Rightarrow> bytes) \<times> 'w"
  bx_time :: "'w \<Rightarrow> (foreign + nat) \<times> 'w"
  bx_encode_beacon :: "BeaconReport \<Rightarrow> bytes"
  bx_encode_witness :: "WitnessReport \<Rightarrow> bytes"
  bx_rpc_beacon :: "uri \<Rightarrow> BeaconReport \<Rightarrow> 'w \<Rightarrow> (foreign + unit) \<times> 'w"
  bx_rpc_witness :: "uri \<Rightarrow> WitnessReport \<Rightarrow> 'w \<Rightarrow> (foreign + unit) \<times> 'w"

section \<open>Entropy\<close>

definition entropy_from_slice :: "('w, 'r) beaconer_ext \<Rightarrow> bytes \<Rightarrow> foreign + Entropy" where
  "entropy_from_slice X output =
     (case bx_entropy_json X output of Inl e \<Rightarrow> Inl e | Inr o' \<Rightarrow> Entropy_deserialize (bx_b64 X) o')"

definition get_entropy :: "('w, 'r) beaconer_ext \<Rightarrow> uri \<Rightarrow> 'w \<Rightarrow> Entropy gw_result \<times> 'w" where
  "get_entropy X u w =
     curl_get (bx_curl X) (bx_uri_print X u) [''-H'', ''Accept: application/json'']
       (\<lambda>output. foreign_r from_json_error (entropy_from_slice X output)) w"

section \<open>Submitting reports\<close>

definition BeaconReport_clear :: "BeaconReport \<Rightarrow> BeaconReport" where
  "BeaconReport_clear r = r\<lparr>br_signature := []\<rparr>"

definition WitnessReport_clear :: "WitnessReport \<Rightarrow> WitnessReport" where
  "WitnessReport_clear r = r\<lparr>wr_signature := []\<rparr>"

definition BeaconReport_sign :: "(BeaconReport \<Rightarrow> bytes) \<Rightarrow> Keypair \<Rightarrow> BeaconReport \<Rightarrow> bytes gw_result" where
  "BeaconReport_sign enc = msg_sign BeaconReport_clear enc"

definition WitnessReport_sign :: "(WitnessReport \<Rightarrow> bytes) \<Rightarrow> Keypair \<Rightarrow> WitnessReport \<Rightarrow> bytes gw_result" where
  "WitnessReport_sign enc = msg_sign WitnessReport_clear enc"

definition submit_beacon ::
  "('w, 'r) beaconer_ext \<Rightarrow> uri \<Rightarrow> BeaconReport \<Rightarrow> Keypair \<Rightarrow> 'w \<Rightarrow> unit gw_result \<times> 'w \<times> beaconer_effect list" where
  "submit_beacon X u req keypair w =
     (let req = req\<lparr>br_pub_key := kp_public keypair\<rparr> in
      case BeaconReport_sign (bx_encode_beacon X) keypair req of
        Ok sig \<Rightarrow>
          (let req = req\<lparr>br_signature := sig\<rparr>; (answer, w) = bx_rpc_beacon X u req w
           in (foreign_r from_status answer, w, [BX_SubmitBeacon u req]))
      | Err e \<Rightarrow> (Err e, w, [])
      | Panic \<Rightarrow> (Panic, w, []))"

definition submit_witness ::
  "('w, 'r) beaconer_ext \<Rightarrow> uri \<Rightarrow> WitnessReport \<Rightarrow> Keypair \<Rightarrow> 'w \<Rightarrow> unit gw_result \<times> 'w \<times> beaconer_effect list" where
  "submit_witness X u req keypair w =
     (let req = req\<lparr>wr_pub_key := kp_public keypair\<rparr> in
      case WitnessReport_sign (bx_encode_witness X) keypair req of
        Ok sig \<Rightarrow>
          (let req = req\<lparr>wr_signature := sig\<rparr>; (answer, w) = bx_rpc_witness X u req w
           in (foreign_r from_status answer, w, [BX_SubmitWitness u req]))
      | Err e \<Rightarrow> (Err e, w, [])
      | Panic \<Rightarrow> (Panic, w, []))"

section \<open>The beaconer\<close>

definition Beaconer_new :: "Keypair \<Rightarrow> PocSettings \<Rightarrow> Beaconer" where
  "Beaconer_new keypair poc =
     \<lparr>bc_keypair = keypair, bc_interval = secs (unat (poc_beacon_interval poc)), bc_region_params = None,
      bc_poc_uri = poc_ingest_uri poc, bc_entropy_uri = poc_entropy_uri poc\<rparr>"

definition mk_beacon :: "('w, 'r) beaconer_ext \<Rightarrow> Beaconer \<Rightarrow> 'w \<Rightarrow> Beacon gw_result \<times> 'w" where
  "mk_beacon X b w =
     (case get_entropy X (bc_entropy_uri b) w of
        (Ok remote_entropy, w) \<Rightarrow>
          (let (os, w) = bx_os_bytes X w; (now, w) = bx_time X w in
           (bind_r (map_err Error_Beacon (Entropy_local os now)) (\<lambda>local_entropy.
            case bc_region_params b of
              Some rp \<Rightarrow> map_err Error_Beacon (Beacon_new (bx_beacon X) remote_entropy local_entropy (params rp))
            | None \<Rightarrow> Err (error_custom ''no region set'')), w))
      | (Err e, w) \<Rightarrow> (Err e, w)
      | (Panic, w) \<Rightarrow> (Panic, w))"

text \<open>A panic is \<open>None\<close>; every other outcome is logged and the loop goes on.\<close>

definition send_beacon ::
  "('w, 'r) beaconer_ext \<Rightarrow> Beaconer \<Rightarrow> 'w \<Rightarrow> ('w \<times> beaconer_effect list) option" where
  "send_beacon X b w =
     (case mk_beacon X b w of
        (Ok beacon, w) \<Rightarrow>
          (let (now, w) = bx_time X w in
           case BeaconReport_from_Beacon (bx_radio X) now beacon of
             Ok report \<Rightarrow>
               (let (_, w, eff) = submit_beacon X (bc_poc_uri b) report (bc_keypair b) w
                in Some (w, BX_Transmit beacon # eff))
           | Err _ \<Rightarrow> Some (w, [])
           | Panic \<Rightarrow> None)
      | (Err _, w) \<Rightarrow> Some (w, [])
      | (Panic, w) \<Rightarrow> None)"

definition handle_received_beacon ::
  "('w, 'r) beaconer_ext \<Rightarrow> Beaconer \<Rightarrow> Packet \<Rightarrow> 'w \<Rightarrow> ('w \<times> beaconer_effect list) option" where
  "handle_received_beacon X b packet w =
     (case to_witness_report (bx_radio X) packet of
        Ok report \<Rightarrow>
          (let (_, w, eff) = submit_witness X (bc_poc_uri b) report (bc_keypair b) w in Some (w, eff))
      | Err _ \<Rightarrow> Some (w, [])
      | Panic \<Rightarrow> None)"

definition handle_region_params :: "Beaconer \<Rightarrow> RegionParams \<Rightarrow> Beaconer" where
  "handle_region_params b rp = b\<lparr>bc_region_params := Some rp\<rparr>"

definition bc_handle_message ::
  "('w, 'r) beaconer_ext \<Rightarrow> Beaconer \<Rightarrow> beaconer_message \<Rightarrow> 'w \<Rightarrow>
   (Beaconer \<times> 'w \<times> beaconer_effect list) option" where
  "bc_handle_message X b message w =
     (case message of
        BM_ReceivedBeacon packet \<Rightarrow>
          map_option (\<lambda>(w, eff). (b, w, eff)) (handle_received_beacon X b packet w)
      | BM_RegionParamsChanged rp \<Rightarrow> Some (handle_region_params b rp, w, []))"

text \<open>
  The run loop, driven by what its select sees: the shutdown signal, a tick of the beacon timer,
  or the next message (\<open>None\<close> when the channel is closed). It returns on shutdown only.
\<close>

datatype beaconer_event =
    BT_Shutdown
  | BT_Tick
  | BT_Message "beaconer_message option"

fun bc_step ::
  "('w, 'r) beaconer_ext \<Rightarrow> Beaconer \<Rightarrow> beaconer_event \<Rightarrow> 'w \<Rightarrow>
   (Beaconer \<times> 'w \<times> beaconer_effect list) option" where
  "bc_step X b BT_Tick w = map_option (\<lambda>(w, eff). (b, w, eff)) (send_beacon X b w)"
| "bc_step X b (BT_Message (Some message)) w = bc_handle_message X b message w"
| "bc_step X b (BT_Message None) w = Some (b, w, [])"
| "bc_step X b BT_Shutdown w = Some (b, w, [])"

fun bc_loop ::
  "('w, 'r) beaconer_ext \<Rightarrow> Beaconer \<Rightarrow> beaconer_event list \<Rightarrow> 'w \<Rightarrow>
   (Beaconer \<times> 'w \<times> beaconer_effect list) option" where
  "bc_loop X b [] w = Some (b, w, [])"
| "bc_loop X b (BT_Shutdown # evs) w = Some (b, w, [])"
| "bc_loop X b (ev # evs) w =
     (case bc_step X b ev w of
        None \<Rightarrow> None
      | Some (b, w, eff) \<Rightarrow> map_option (\<lambda>(b, w, eff'). (b, w, eff @ eff')) (bc_loop X b evs w))"

text \<open>The beacon timer is made before the loop starts.\<close>

definition bc_run ::
  "('w, 'r) beaconer_ext \<Rightarrow> Beaconer \<Rightarrow> beaconer_event list \<Rightarrow> 'w \<Rightarrow>
   (Beaconer \<times> 'w \<times> beaconer_effect list) option" where
  "bc_run X b evs w = (if interval_panics (bc_interval b) then None else bc_loop X b evs w)"

section \<open>Reports\<close>

lemma msg_sign_Ok:
  "msg_sign clear enc kp m = Ok sig \<longleftrightarrow> kp_sign kp (enc (clear m)) = Inr sig"
  by (auto simp: msg_sign_def foreign_r_def split: sum.splits)

lemma msg_sign_not_Panic [simp]: "msg_sign clear enc kp m \<noteq> Panic"
  by (auto simp: msg_sign_def foreign_r_def split: sum.splits)

lemma msg_sign_cases:
  "msg_sign clear enc kp m = (case kp_sign kp (enc (clear m)) of Inl e \<Rightarrow> Err (Error_CryptoError e) | Inr sig \<Rightarrow> Ok sig)"
  by (auto simp: msg_sign_def foreign_r_def split: sum.splits)

text \<open>The report as it is sent: completed with the key of the gateway and a signature over it.\<close>

definition signed_beacon :: "('w, 'r) beaconer_ext \<Rightarrow> Keypair \<Rightarrow> BeaconReport \<Rightarrow> BeaconReport \<Rightarrow> bool" where
  "signed_beacon X kp r r' \<longleftrightarrow>
     (\<exists>sig. r' = r\<lparr>br_pub_key := kp_public kp, br_signature := sig\<rparr> \<and>
        kp_sign kp (bx_encode_beacon X (BeaconReport_clear r')) = Inr sig)"

definition signed_witness :: "('w, 'r) beaconer_ext \<Rightarrow> Keypair \<Rightarrow> WitnessReport \<Rightarrow> WitnessReport \<Rightarrow> bool" where
  "signed_witness X kp r r' \<longleftrightarrow>
     (\<exists>sig. r' = r\<lparr>wr_pub_key := kp_public kp, wr_signature := sig\<rparr> \<and>
        kp_sign kp (bx_encode_witness X (WitnessReport_clear r')) = Inr sig)"

lemma submit_beacon_effects:
  "snd (snd (submit_beacon X u r kp w)) = [] \<or>
   (\<exists>r'. snd (snd (submit_beacon X u r kp w)) = [BX_SubmitBeacon u r'] \<and> signed_beacon X kp r r')"
  by (auto simp: submit_beacon_def BeaconReport_sign_def msg_sign_cases Let_def case_prod_beta signed_beacon_def
      BeaconReport_clear_def split: sum.splits)

lemma submit_witness_effects:
  "snd (snd (submit_witness X u r kp w)) = [] \<or>
   (\<exists>r'. snd (snd (submit_witness X u r kp w)) = [BX_SubmitWitness u r'] \<and> signed_witness X kp r r')"
  by (auto simp: submit_witness_def WitnessReport_sign_def msg_sign_cases Let_def case_prod_beta signed_witness_def
      WitnessReport_clear_def split: sum.splits)

lemma submit_beacon_eq:
  "snd (snd (submit_beacon X u r kp w)) =
     (case kp_sign kp (bx_encode_beacon X (BeaconReport_clear (r\<lparr>br_pub_key := kp_public kp\<rparr>))) of
        Inl _ \<Rightarrow> []
      | Inr sig \<Rightarrow> [BX_SubmitBeacon u (r\<lparr>br_pub_key := kp_public kp, br_signature := sig\<rparr>)])"
  by (auto simp: submit_beacon_def BeaconReport_sign_def msg_sign_cases Let_def case_prod_beta split: sum.splits)

section \<open>One step\<close>

text \<open>
  What a tick does, by what it finds: the entropy service's answer \<open>ent\<close>, the random bytes \<open>os\<close> and
  the clock readings \<open>now\<close> and \<open>now'\<close>, in the order they are obtained.
\<close>

definition beacon_possible ::
  "Beaconer \<Rightarrow> Entropy gw_result \<Rightarrow> foreign + nat \<Rightarrow> foreign + nat \<Rightarrow> bool" where
  "beacon_possible b ent now now' \<longleftrightarrow>
     (\<exists>re. ent = Ok re \<and> e_version re = 0) \<and> \<not> isl now \<and> \<not> isl now' \<and>
     (\<exists>rp. bc_region_params b = Some rp \<and> params rp \<noteq> [])"

lemma get_entropy_not_Panic: "fst (get_entropy X u w) \<noteq> Panic"
  by (auto simp: get_entropy_def curl_get_def foreign_r_def split: sum.splits prod.splits)

lemma send_beacon_cases:
  assumes B: "beacon_ext_ok (bx_beacon X)"
    and e: "get_entropy X (bc_entropy_uri b) w = (ent, w1)"
    and o: "bx_os_bytes X w1 = (os, w2)" and t: "bx_time X w2 = (now, w3)" and t': "bx_time X w3 = (now', w4)"
  shows "if beacon_possible b ent now now' then
      \<exists>re le rp beacon report w' eff. ent = Ok re \<and> Entropy_local os now = Ok le \<and> bc_region_params b = Some rp \<and>
        Beacon_new (bx_beacon X) re le (params rp) = Ok beacon \<and>
        BeaconReport_from_Beacon (bx_radio X) now' beacon = Ok report \<and>
        send_beacon X b w = Some (w', BX_Transmit beacon # eff) \<and>
        eff = snd (snd (submit_beacon X (bc_poc_uri b) report (bc_keypair b) w4))
    else \<exists>w'. send_beacon X b w = Some (w', [])"
proof (cases ent)
  case (Ok re)
  show ?thesis
  proof (cases now)
    case (Inr n)
    show ?thesis
    proof (cases "bc_region_params b")
      case (Some rp)
      let ?le = "\<lparr>e_version = 0, e_timestamp = of_nat (n div 1000000000), e_data = os LOCAL_ENTROPY_SIZE\<rparr>"
      have le: "Entropy_local os now = Ok ?le" by (simp add: Entropy_local_def Inr)
      have mk: "mk_beacon X b w = (map_err Error_Beacon (Beacon_new (bx_beacon X) re ?le (params rp)), w3)"
        by (simp add: mk_beacon_def e o t Ok Some le)
      show ?thesis
        using Beacon_new_cases [OF B, of re ?le "params rp"]
        by (cases now') (auto simp: send_beacon_def mk t' beacon_possible_def Ok Inr Some le [unfolded Inr]
            BeaconReport_from_Beacon_def Let_def case_prod_beta split: if_splits)
    qed (simp add: send_beacon_def mk_beacon_def e o t Ok Inr Entropy_local_def beacon_possible_def)
  qed (simp add: send_beacon_def mk_beacon_def e o t Ok Entropy_local_def beacon_possible_def)
qed (use get_entropy_not_Panic [of X "bc_entropy_uri b" w] e in
    \<open>auto simp: send_beacon_def mk_beacon_def beacon_possible_def\<close>)

section \<open>Runs\<close>

text \<open>The effects one step may have.\<close>

inductive step_effects ::
  "('w, 'r) beaconer_ext \<Rightarrow> Beaconer \<Rightarrow> beaconer_event \<Rightarrow> beaconer_effect list \<Rightarrow> bool"
  for X :: "('w, 'r) beaconer_ext" and b :: Beaconer where
  quiet: "step_effects X b ev []"
| transmitted: "bc_region_params b = Some rp \<Longrightarrow> step_effects X b BT_Tick [BX_Transmit beacon]"
| reported: "\<lbrakk>bc_region_params b = Some rp; BeaconReport_from_Beacon (bx_radio X) now beacon = Ok r;
     signed_beacon X (bc_keypair b) r r'\<rbrakk> \<Longrightarrow>
     step_effects X b BT_Tick [BX_Transmit beacon, BX_SubmitBeacon (bc_poc_uri b) r']"
| witnessed: "\<lbrakk>to_witness_report (bx_radio X) packet = Ok r; signed_witness X (bc_keypair b) r r'\<rbrakk> \<Longrightarrow>
     step_effects X b (BT_Message (Some (BM_ReceivedBeacon packet))) [BX_SubmitWitness (bc_poc_uri b) r']"

inductive_cases step_effectsE: "step_effects X b ev eff"

lemma mk_beacon_Ok: "mk_beacon X b w = (Ok beacon, w') \<Longrightarrow> \<exists>rp. bc_region_params b = Some rp"
  by (auto simp: mk_beacon_def Let_def case_prod_beta bind_r_Ok_iff split: rresult.splits prod.splits option.splits)

lemma send_beacon_effects:
  assumes "send_beacon X b w = Some (w', eff)" shows "step_effects X b BT_Tick eff"
proof -
  obtain m w1 where m: "mk_beacon X b w = (m, w1)" by fastforce
  show ?thesis
  proof (cases m)
    case (Ok beacon)
    obtain now w2 where t: "bx_time X w1 = (now, w2)" by fastforce
    note rp = mk_beacon_Ok [OF m [unfolded Ok]]
    show ?thesis
    proof (cases "BeaconReport_from_Beacon (bx_radio X) now beacon")
      case R: (Ok r)
      have "eff = BX_Transmit beacon # snd (snd (submit_beacon X (bc_poc_uri b) r (bc_keypair b) w2))"
        using assms by (simp add: send_beacon_def m Ok t R Let_def case_prod_beta)
      then show ?thesis
        using submit_beacon_effects [of X "bc_poc_uri b" r "bc_keypair b" w2] rp R
        by (auto intro: transmitted reported)
    qed (use assms in \<open>auto simp: send_beacon_def m Ok t intro: quiet\<close>)
  qed (use assms in \<open>auto simp: send_beacon_def m intro: quiet\<close>)
qed

lemma handle_received_beacon_effects:
  assumes "handle_received_beacon X b packet w = Some (w', eff)"
  shows "step_effects X b (BT_Message (Some (BM_ReceivedBeacon packet))) eff"
proof (cases "to_witness_report (bx_radio X) packet")
  case (Ok r)
  have "eff = snd (snd (submit_witness X (bc_poc_uri b) r (bc_keypair b) w))"
    using assms by (simp add: handle_received_beacon_def Ok Let_def case_prod_beta)
  then show ?thesis
    using submit_witness_effects [of X "bc_poc_uri b" r "bc_keypair b" w] Ok by (auto intro: quiet witnessed)
qed (use assms in \<open>auto simp: handle_received_beacon_def intro: quiet\<close>)

text \<open>The parameters after a step: those of the last region message.\<close>

fun region_after :: "RegionParams option \<Rightarrow> beaconer_event list \<Rightarrow> RegionParams option" where
  "region_after rp [] = rp"
| "region_after rp (BT_Message (Some (BM_RegionParamsChanged rp')) # evs) = region_after (Some rp') evs"
| "region_after rp (BT_Shutdown # evs) = rp"
| "region_after rp (_ # evs) = region_after rp evs"

lemma bc_step_cases:
  assumes "bc_step X b ev w = Some (b', w', eff)"
  shows "step_effects X b ev eff \<and>
    b' = (case ev of BT_Message (Some (BM_RegionParamsChanged rp)) \<Rightarrow> b\<lparr>bc_region_params := Some rp\<rparr> | _ \<Rightarrow> b)"
  using assms
  by (cases ev; cases "case ev of BT_Message m \<Rightarrow> m | _ \<Rightarrow> None")
    (auto simp: bc_handle_message_def handle_region_params_def send_beacon_effects handle_received_beacon_effects
      quiet split: beaconer_message.splits)

lemma bc_step_identity:
  assumes "bc_step X b ev w = Some (b', w', eff)"
  shows "bc_keypair b' = bc_keypair b" "bc_poc_uri b' = bc_poc_uri b"
    "ev \<noteq> BT_Shutdown \<Longrightarrow> region_after (bc_region_params b) (ev # evs) = region_after (bc_region_params b') evs"
  using bc_step_cases [OF assms]
  by (auto split: beaconer_event.splits option.splits beaconer_message.splits)

text \<open>What holds of every effect of a run with the given events.\<close>

definition effects_accounted ::
  "('w, 'r) beaconer_ext \<Rightarrow> Keypair \<Rightarrow> uri \<Rightarrow> beaconer_event list \<Rightarrow> beaconer_effect list \<Rightarrow> bool" where
  "effects_accounted X kp poc evs effs \<longleftrightarrow>
     (\<forall>u r'. BX_SubmitBeacon u r' \<in> set effs \<longrightarrow> u = poc \<and>
        (\<exists>beacon now r. BX_Transmit beacon \<in> set effs \<and>
           BeaconReport_from_Beacon (bx_radio X) now beacon = Ok r \<and> signed_beacon X kp r r')) \<and>
     (\<forall>u r'. BX_SubmitWitness u r' \<in> set effs \<longrightarrow> u = poc \<and>
        (\<exists>packet r. BT_Message (Some (BM_ReceivedBeacon packet)) \<in> set evs \<and>
           to_witness_report (bx_radio X) packet = Ok r \<and> signed_witness X kp r r'))"

lemma effects_accounted_append:
  assumes "effects_accounted X kp poc [ev] eff" and "effects_accounted X kp poc evs effs"
  shows "effects_accounted X kp poc (ev # evs) (eff @ effs)"
  using assms unfolding effects_accounted_def set_append set_simps Un_iff by blast

lemma step_effects_accounted:
  "step_effects X b ev eff \<Longrightarrow> effects_accounted X (bc_keypair b) (bc_poc_uri b) [ev] eff"
  by (erule step_effectsE) (auto simp: effects_accounted_def)

lemma bc_loop_Cons:
  assumes "bc_loop X b (ev # evs) w = Some (b', w', effs)" and "ev \<noteq> BT_Shutdown"
  obtains b1 w1 eff1 eff2 where "bc_step X b ev w = Some (b1, w1, eff1)"
    and "bc_loop X b1 evs w1 = Some (b', w', eff2)" and "effs = eff1 @ eff2"
  using assms by (cases ev) (auto split: option.splits simp del: bc_step.simps)

lemma region_after_Some [simp]: "region_after (Some rp) evs \<noteq> None"
proof (induction evs arbitrary: rp)
  case (Cons ev evs)
  then show ?case
    by (cases "(Some rp, ev # evs)" rule: region_after.cases) auto
qed simp

lemma bc_loop_accounted:
  assumes "bc_loop X b evs w = Some (b', w', effs)"
  shows "effects_accounted X (bc_keypair b) (bc_poc_uri b) evs effs \<and> bc_keypair b' = bc_keypair b \<and>
    bc_region_params b' = region_after (bc_region_params b) evs \<and>
    (region_after (bc_region_params b) evs = None \<longrightarrow> (\<forall>beacon. BX_Transmit beacon \<notin> set effs))"
  using assms
proof (induction evs arbitrary: b w b' w' effs)
  case Nil
  then show ?case by (simp add: effects_accounted_def)
next
  case (Cons ev evs)
  show ?case
  proof (cases "ev = BT_Shutdown")
    case True
    then show ?thesis using Cons.prems by (simp add: effects_accounted_def)
  next
    case False
    from bc_loop_Cons [OF Cons.prems False] obtain b1 w1 eff1 eff2 where s: "bc_step X b ev w = Some (b1, w1, eff1)"
      and r: "bc_loop X b1 evs w1 = Some (b', w', eff2)" and e: "effs = eff1 @ eff2" .
    note st = bc_step_cases [OF s, THEN conjunct1]
    note i = bc_step_identity [OF s]
    note h = Cons.IH [OF r, unfolded i(1,2)] i(3) [OF False, of evs]
    have "region_after (bc_region_params b) (ev # evs) = None \<longrightarrow> BX_Transmit beacon \<notin> set eff1" for beacon
      using st by (auto elim!: step_effectsE)
    with h effects_accounted_append [OF step_effects_accounted [OF st], of evs eff2] show ?thesis
      by (simp add: e)
  qed
qed

lemma bc_step_total:
  assumes "beacon_ext_ok (bx_beacon X)" shows "\<exists>b' w' eff. bc_step X b ev w = Some (b', w', eff)"
proof (cases "(X, b, ev, w)" rule: bc_step.cases)
  case (1 X' b' w')
  obtain ent w1 os w2 now w3 now' w4 where "get_entropy X (bc_entropy_uri b) w = (ent, w1)" "bx_os_bytes X w1 = (os, w2)"
    "bx_time X w2 = (now, w3)" "bx_time X w3 = (now', w4)" by (meson surj_pair)
  from send_beacon_cases [OF assms this] 1 show ?thesis by (auto split: if_splits)
next
  case (2 X' b' m w')
  then show ?thesis
    using to_witness_report_not_Panic
    by (auto simp: bc_handle_message_def handle_received_beacon_def Let_def case_prod_beta
        split: beaconer_message.splits rresult.splits)
qed auto

lemma bc_loop_total:
  assumes "beacon_ext_ok (bx_beacon X)" shows "\<exists>b' w' effs. bc_loop X b evs w = Some (b', w', effs)"
proof (induction evs arbitrary: b w)
  case (Cons ev evs)
  obtain b1 w1 eff where "bc_step X b ev w = Some (b1, w1, eff)" using bc_step_total [OF assms] by blast
  with Cons.IH [of b1 w1] show ?case by (cases ev) (auto simp del: bc_step.simps)
qed simp

section \<open>Properties\<close>

text \<open>
  C11. A beaconer whose beacon interval is zero panics at once: the setting is not checked. With any
  other interval that the clock can count (less than \<open>2 ^ 62\<close> seconds) it never panics, whatever it
  receives. Everything it submits goes to the ingest
  service, carries the gateway's public key and a signature that verifies under it; a beacon
  report describes a beacon that was transmitted, a witness report a frame that was received. The
  region is the one last received, and nothing is transmitted before there is one.
\<close>

theorem beaconer_run_accounted:
  assumes "beacon_ext_ok (bx_beacon X)" and "verifies V kp" and "b = Beaconer_new kp poc"
  shows "(poc_beacon_interval poc = 0 \<longrightarrow> bc_run X b evs w = None) \<and>
    (0 < poc_beacon_interval poc \<and> poc_beacon_interval poc < 2 ^ 62 \<longrightarrow>
    (\<exists>b' w' effs. bc_run X b evs w = Some (b', w', effs) \<and>
    bc_keypair b' = kp \<and> bc_region_params b' = region_after None evs \<and>
    (region_after None evs = None \<longrightarrow> (\<forall>beacon. BX_Transmit beacon \<notin> set effs)) \<and>
    (\<forall>u r. BX_SubmitBeacon u r \<in> set effs \<longrightarrow>
       u = poc_ingest_uri poc \<and> br_pub_key r = kp_public kp \<and>
       V (kp_public kp) (bx_encode_beacon X (BeaconReport_clear r)) (br_signature r) = Inr () \<and>
       (\<exists>beacon. BX_Transmit beacon \<in> set effs \<and> br_data r = b_data beacon \<and> br_frequency r = b_frequency beacon \<and>
          br_local_entropy r = e_data (b_local_entropy beacon) \<and> br_remote_entropy r = e_data (b_remote_entropy beacon))) \<and>
    (\<forall>u r. BX_SubmitWitness u r \<in> set effs \<longrightarrow>
       u = poc_ingest_uri poc \<and> wr_pub_key r = kp_public kp \<and>
       V (kp_public kp) (bx_encode_witness X (WitnessReport_clear r)) (wr_signature r) = Inr () \<and>
       (\<exists>packet h. BT_Message (Some (BM_ReceivedBeacon packet)) \<in> set evs \<and> p_payload packet = h # wr_data r))))"
    (is "_ \<and> (_ \<longrightarrow> ?acc)")
proof -
  obtain b' w' effs where r: "bc_loop X b evs w = Some (b', w', effs)" using bc_loop_total [OF assms(1)] by blast
  have new: "bc_keypair b = kp" "bc_poc_uri b = poc_ingest_uri poc" "bc_region_params b = None"
    by (simp_all add: assms(3) Beaconer_new_def)
  have sb: "br_pub_key r' = kp_public kp \<and> V (kp_public kp) (bx_encode_beacon X (BeaconReport_clear r')) (br_signature r') = Inr ()"
    if "signed_beacon X kp r r'" for r r' using that assms(2) by (auto simp: signed_beacon_def verifies_def)
  have sw: "wr_pub_key r' = kp_public kp \<and> wr_data r' = wr_data r \<and>
      V (kp_public kp) (bx_encode_witness X (WitnessReport_clear r')) (wr_signature r') = Inr ()"
    if "signed_witness X kp r r'" for r r' using that assms(2) by (auto simp: signed_witness_def verifies_def)
  have rb: "br_data r' = b_data beacon \<and> br_frequency r' = b_frequency beacon \<and>
      br_local_entropy r' = e_data (b_local_entropy beacon) \<and> br_remote_entropy r' = e_data (b_remote_entropy beacon)"
    if "BeaconReport_from_Beacon (bx_radio X) now beacon = Ok r" "signed_beacon X kp r r'" for now beacon r r'
    using that by (auto simp: BeaconReport_from_Beacon_def signed_beacon_def split: sum.splits)
  have rw: "\<exists>h. p_payload packet = h # wr_data r" if "to_witness_report (bx_radio X) packet = Ok r" for packet r
    using that by (auto simp: witness_report_Ok_iff)
  note acc = bc_loop_accounted [OF r, unfolded new effects_accounted_def]
  have "interval_panics (bc_interval b) \<longleftrightarrow> poc_beacon_interval poc = 0 \<or> 2 ^ 62 \<le> poc_beacon_interval poc"
    by (simp add: assms(3) Beaconer_new_def interval_panics_secs)
  then have panics: "poc_beacon_interval poc = 0 \<longrightarrow> bc_run X b evs w = None"
    and runs: "0 < poc_beacon_interval poc \<and> poc_beacon_interval poc < 2 ^ 62 \<longrightarrow> bc_run X b evs w = bc_loop X b evs w"
    by (auto simp: bc_run_def)
  show ?thesis
  proof (intro conjI impI)
    assume "0 < poc_beacon_interval poc \<and> poc_beacon_interval poc < 2 ^ 62"
    with runs have run: "bc_run X b evs w = Some (b', w', effs)" by (simp add: r)
    show "?acc"
      by (intro exI conjI, rule run) (use acc sb sw rb rw in \<open>simp; metis\<close>)+
  qed (use panics in blast)
qed

text \<open>A beaconer whose services answer: the entropy service with fresh entropy, the clock with 20 seconds.\<close>

definition sample_beaconer_ext :: "(unit, unit) beaconer_ext" where
  "sample_beaconer_ext = \<lparr>bx_beacon = sample_beacon_ext, bx_radio = sample_radio, bx_uri_print = (\<lambda>_. ''u''),
     bx_curl = (\<lambda>_ w. (Inr [123, 125], w)), bx_entropy_json = (\<lambda>_. Inr (Entropy_serialize sample_b64 sample_entropy)), bx_b64 = sample_b64,
     bx_os_bytes = (\<lambda>w. (\<lambda>n. replicate n 5, w)), bx_time = (\<lambda>w. (Inr 20000000000, w)),
     bx_encode_beacon = br_data, bx_encode_witness = wr_data,
     bx_rpc_beacon = (\<lambda>_ _ w. (Inr (), w)), bx_rpc_witness = (\<lambda>_ _ w. (Inr (), w))\<rparr>"

definition sample_poc :: PocSettings where
  "sample_poc = \<lparr>poc_entropy_uri = [1], poc_ingest_uri = [2], poc_beacon_interval = 28792\<rparr>"

lemma sample_beaconer_ok: "beacon_ext_ok (bx_beacon sample_beaconer_ext)" "verifies sample_verifier sample_keypair"
  by (simp_all add: sample_beaconer_ext_def sample_beacon_ext_ok verifies_def sample_verifier_def sample_keypair_def)

theorem beaconer_run_accounted_witness:
  "\<exists>b' w' effs. bc_run sample_beaconer_ext (Beaconer_new sample_keypair sample_poc)
       [BT_Tick, BT_Message (Some (BM_RegionParamsChanged sample_region_params)), BT_Tick, BT_Shutdown] ()
     = Some (b', w', effs) \<and> bc_region_params b' = Some sample_region_params"
  using beaconer_run_accounted [OF sample_beaconer_ok refl, of sample_poc
      "[BT_Tick, BT_Message (Some (BM_RegionParamsChanged sample_region_params)), BT_Tick, BT_Shutdown]" "()"]
  by (simp add: sample_poc_def) blast

text \<open>
  C37. A tick of the beacon timer transmits exactly one beacon, made from the remote and local
  entropy for the channels of the current region, when the entropy service answers with version 0
  entropy, the clock can be read and the region has channels; a single report of that beacon
  follows it unless signing fails. In every other case nothing is sent and the loop goes on.
\<close>

theorem beaconer_tick:
  assumes "beacon_ext_ok (bx_beacon X)"
    and "get_entropy X (bc_entropy_uri b) w = (ent, w1)" and "bx_os_bytes X w1 = (os, w2)"
    and "bx_time X w2 = (now, w3)" and "bx_time X w3 = (now', w4)"
  shows "if beacon_possible b ent now now' then
      \<exists>re le rp beacon report w' eff. ent = Ok re \<and> Entropy_local os now = Ok le \<and> bc_region_params b = Some rp \<and>
        Beacon_new (bx_beacon X) re le (params rp) = Ok beacon \<and>
        BeaconReport_from_Beacon (bx_radio X) now' beacon = Ok report \<and>
        bc_step X b BT_Tick w = Some (b, w', BX_Transmit beacon # eff) \<and>
        eff = (case kp_sign (bc_keypair b)
                 (bx_encode_beacon X (BeaconReport_clear (report\<lparr>br_pub_key := kp_public (bc_keypair b)\<rparr>))) of
             Inl _ \<Rightarrow> []
           | Inr sig \<Rightarrow> [BX_SubmitBeacon (bc_poc_uri b)
               (report\<lparr>br_pub_key := kp_public (bc_keypair b), br_signature := sig\<rparr>)])
    else \<exists>w'. bc_step X b BT_Tick w = Some (b, w', [])"
proof -
  note eff = submit_beacon_eq [of X "bc_poc_uri b" _ "bc_keypair b" w4]
  from send_beacon_cases [OF assms, unfolded eff] show ?thesis
    unfolding bc_step.simps by (cases "beacon_possible b ent now now'") (simp_all only: if_True if_False, fastforce+)
qed

theorem beaconer_tick_witness:
  "\<exists>w' beacon r. bc_step sample_beaconer_ext
       (handle_region_params (Beaconer_new sample_keypair sample_poc) sample_region_params) BT_Tick ()
     = Some (handle_region_params (Beaconer_new sample_keypair sample_poc) sample_region_params, w',
         [BX_Transmit beacon, BX_SubmitBeacon [2] r]) \<and> b_frequency beacon = 903900000"
proof -
  let ?b = "handle_region_params (Beaconer_new sample_keypair sample_poc) sample_region_params"
  have e: "get_entropy sample_beaconer_ext (bc_entropy_uri ?b) () = (Ok sample_entropy, ())"
    by (simp add: get_entropy_def curl_get_def sample_beaconer_ext_def entropy_from_slice_def entropy_roundtrip [OF sample_b64_ok])
  have f: "bc_poc_uri ?b = [2]" "bc_region_params ?b = Some sample_region_params"
    by (simp_all add: handle_region_params_def Beaconer_new_def sample_poc_def)
  have p: "beacon_possible ?b (Ok sample_entropy) (Inr 20000000000) (Inr 20000000000)"
    by (simp add: beacon_possible_def sample_entropy_def f) (simp add: sample_region_params_def)
  have k: "kp_sign (bc_keypair ?b) buf = Inr (42 # buf)" for buf
    by (simp add: handle_region_params_def Beaconer_new_def sample_keypair_def)
  have t: "bx_os_bytes sample_beaconer_ext () = (\<lambda>n. replicate n 5, ())"
    "bx_time sample_beaconer_ext () = (Inr 20000000000, ())" by (simp_all add: sample_beaconer_ext_def)
  from beaconer_tick [OF sample_beaconer_ok(1) e t(1) t(2) t(2)] obtain le beacon report w' eff
    where n: "Beacon_new (bx_beacon sample_beaconer_ext) sample_entropy le (params sample_region_params) = Ok beacon"
      and s: "bc_step sample_beaconer_ext ?b BT_Tick () = Some (?b, w', BX_Transmit beacon # eff)"
      and r: "\<exists>r. eff = [BX_SubmitBeacon (bc_poc_uri ?b) r]"
    using p k f by auto
  have "b_frequency beacon = 903900000"
    using Beacon_new_cases [OF sample_beaconer_ok(1), of sample_entropy le "params sample_region_params"] n
    by (auto simp: sample_entropy_def sample_region_params_def)
  with s r f show ?thesis by auto
qed

end
