(* ===== verification/Settings.thy ===== *)
theory Settings
  imports Keypair_File Updater Beaconer
begin

text \<open>
  Settings (\<^verbatim>\<open>src/settings.rs\<close>). Reading and merging the configuration sources is done by the
  crate \<^verbatim>\<open>config\<close> and is a parameter; which sources are merged, in which order, the members of
  the settings, their defaults and the decoders of their own are modelled. Staking modes are in
  \<open>Txn_Fee\<close>.
\<close>

definition CARGO_PKG_VERSION :: string where "CARGO_PKG_VERSION = ''1.0.0-alpha.31''"

definition settings_version :: "semver \<Rightarrow> ('e, Version) rresult" where
  "settings_version S = (case ver_parse S CARGO_PKG_VERSION of Inr v \<Rightarrow> Ok v | Inl _ \<Rightarrow> Panic)"

section \<open>Log settings\<close>

datatype 'l Level = Level 'l

datatype LogMethod = Stdio | Syslog

definition Level_deserialize :: "(string \<Rightarrow> 'l option) \<Rightarrow> string \<Rightarrow> (string, 'l Level) rresult" where
  "Level_deserialize parse value =
     (case parse value of
        Some l \<Rightarrow> Ok (Level l)
      | None \<Rightarrow> Err (''invalid log level \"'' @ value @ ''\"''))"

fun level_of :: "'l Level \<Rightarrow> 'l" where
  "level_of (Level l) = l"

definition LogMethod_deserialize :: "string \<Rightarrow> (string, LogMethod) rresult" where
  "LogMethod_deserialize value =
     (let method = to_lowercase value in
      if method = ''stdio'' then Ok Stdio
      else if method = ''syslog'' then Ok Syslog
      else Err (''unsupported log method: \"'' @ method @ ''\"''))"

section \<open>Settings\<close>

record 'l LogSettings =
  log_level :: "'l Level"
  log_method :: LogMethod
  log_timestamp :: bool

record CacheSettings =
  max_packets_setting :: u16

record 'l Settings =
  set_listen :: string
  set_api :: u16
  set_keypair :: Keypair
  set_onboarding :: "string option"
  set_region :: Region
  set_log :: "'l LogSettings"
  set_update :: UpdateSettings
  set_routers :: "KeyedUri list option"
  set_gateways :: "KeyedUri list"
  set_cache :: CacheSettings
  set_poc :: PocSettings

definition default_listen :: string where "default_listen = ''127.0.0.1:1680''"
definition default_api :: u16 where "default_api = 4467"
definition default_beacon_interval :: u64 where "default_beacon_interval = 8 * (3600 - 1)"

datatype settings_source =
    Source_File string bool
  | Source_Environment string string

text \<open>
  The members of the merged configuration once the crate has read them: members with a default and
  optional ones may be missing. Addresses are read by other crates. Members with a decoder of
  their own are still text here, and are decoded in the order of their declaration; in which order
  the crate visits them, and so which error is reported when several are malformed, is not
  specified.
\<close>

record SettingsFields =
  sf_listen :: "string option"
  sf_api :: "u16 option"
  sf_keypair :: string
  sf_onboarding :: "string option"
  sf_region :: string
  sf_log_level :: string
  sf_log_method :: string
  sf_log_timestamp :: bool
  sf_update_enabled :: bool
  sf_update_interval :: u32
  sf_update_channel :: string
  sf_update_platform :: string
  sf_update_uri :: string
  sf_update_command :: string
  sf_routers :: "KeyedUri list option"
  sf_gateways :: "KeyedUri list"
  sf_max_packets :: u16
  sf_entropy_uri :: uri
  sf_ingest_uri :: uri
  sf_beacon_interval :: "u64 option"

text \<open>\<open>stx_load\<close> reads and merges the sources, later ones winning.\<close>

record ('w, 'l) settings_ext =
  stx_load :: "settings_source list \<Rightarrow> 'w \<Rightarrow> (foreign + SettingsFields) \<times> 'w"
  stx_keypair :: "'w keypair_ext"
  stx_regions :: region_codec
  stx_level :: "string \<Rightarrow> 'l option"
  stx_version :: Version

definition LogSettings_deserialize :: "(string \<Rightarrow> 'l option) \<Rightarrow> SettingsFields \<Rightarrow> (string, 'l LogSettings) rresult" where
  "LogSettings_deserialize parse f =
     bind_r (Level_deserialize parse (sf_log_level f)) (\<lambda>level.
     bind_r (LogMethod_deserialize (sf_log_method f)) (\<lambda>method.
     Ok \<lparr>log_level = level, log_method = method, log_timestamp = sf_log_timestamp f\<rparr>))"

definition UpdateSettings_deserialize :: "Version \<Rightarrow> SettingsFields \<Rightarrow> (string, UpdateSettings) rresult" where
  "UpdateSettings_deserialize running f =
     bind_r (Channel_deserialize running (sf_update_channel f)) (\<lambda>channel.
     Ok \<lparr>us_enabled = sf_update_enabled f, us_interval = sf_update_interval f, us_channel = channel,
         us_platform = sf_update_platform f, us_uri = sf_update_uri f, us_command = sf_update_command f\<rparr>)"

definition PocSettings_deserialize :: "SettingsFields \<Rightarrow> PocSettings" where
  "PocSettings_deserialize f =
     \<lparr>poc_entropy_uri = sf_entropy_uri f, poc_ingest_uri = sf_ingest_uri f,
      poc_beacon_interval = (case sf_beacon_interval f of Some n \<Rightarrow> n | None \<Rightarrow> default_beacon_interval)\<rparr>"

definition Settings_deserialize ::
  "('w, 'l) settings_ext \<Rightarrow> SettingsFields \<Rightarrow> 'w \<Rightarrow> (string, 'l Settings) rresult \<times> 'w" where
  "Settings_deserialize S f w =
     (let (r, w) = Keypair_deserialize (stx_keypair S) (sf_keypair f) w in
      (bind_r r (\<lambda>keypair.
       bind_r (case Region_deserialize (stx_regions S) (sf_region f) of Inr rg \<Rightarrow> Ok rg | Inl e \<Rightarrow> Err e) (\<lambda>rg.
       bind_r (LogSettings_deserialize (stx_level S) f) (\<lambda>log.
       bind_r (UpdateSettings_deserialize (stx_version S) f) (\<lambda>upd.
       Ok \<lparr>set_listen = (case sf_listen f of Some l \<Rightarrow> l | None \<Rightarrow> default_listen),
           set_api = (case sf_api f of Some p \<Rightarrow> p | None \<Rightarrow> default_api),
           set_keypair = keypair, set_onboarding = sf_onboarding f, set_region = rg, set_log = log,
           set_update = upd, set_routers = sf_routers f, set_gateways = sf_gateways f,
           set_cache = \<lparr>max_packets_setting = sf_max_packets f\<rparr>, set_poc = PocSettings_deserialize f\<rparr>)))), w))"

definition settings_sources :: "string \<Rightarrow> settings_source list" where
  "settings_sources path =
     [Source_File (path_join path ''default.toml'') True, Source_File (path_join path ''settings.toml'') False,
      Source_Environment ''gw'' ''_'']"

definition Settings_new :: "('w, 'l) settings_ext \<Rightarrow> string \<Rightarrow> 'w \<Rightarrow> 'l Settings gw_result \<times> 'w" where
  "Settings_new S path w =
     (case stx_load S (settings_sources path) w of
        (Inl e, w) \<Rightarrow> (Err (Error_Config e), w)
      | (Inr f, w) \<Rightarrow>
          (let (r, w) = Settings_deserialize S f w in (map_err Error_Config r, w)))"

text \<open>The gateway's own key stands in when there is no onboarding key or it cannot be loaded.\<close>

definition onboarding_key :: "'w keypair_ext \<Rightarrow> 'l Settings \<Rightarrow> 'w \<Rightarrow> pubkey \<times> 'w" where
  "onboarding_key K s w =
     (case set_onboarding s of
        None \<Rightarrow> (kp_public (set_keypair s), w)
      | Some str \<Rightarrow>
          (let (r, w) = Keypair_from_str K str w
           in (case r of Ok keypair \<Rightarrow> kp_public keypair | _ \<Rightarrow> kp_public (set_keypair s), w)))"

lemma LogMethod_deserialize_words:
  "LogMethod_deserialize ''stdio'' = Ok Stdio" "LogMethod_deserialize ''Syslog'' = Ok Syslog"
  by (simp_all add: LogMethod_deserialize_def to_lowercase_def ascii_lower_def of_char_def char_of_def bit_simps)

text \<open>
  An onboarding key in a file that does not exist yet is created, once, and stays the same; the
  gateway's own key is answered only when that fails.
\<close>

lemma onboarding_key_persistent:
  assumes "key_files_ok K" and "set_onboarding s = Some str" and "file_url K str url"
    and "fst (Keypair_from_str K str w) = Ok k"
  shows "fst (onboarding_key K s w) = kp_public k \<and>
    fst (onboarding_key K s (snd (onboarding_key K s w))) = kp_public k"
proof -
  obtain w' where a: "Keypair_from_str K str w = (Ok k, w')" using assms(4) by (metis prod.collapse)
  have f: "keypair_from_file K url w = (Ok k, w')" using a Keypair_from_str_file [OF assms(3), of w] by simp
  from keypair_from_file_again [OF f assms(1)] obtain w''
    where "Keypair_from_str K str w' = (Ok k, w'')" using Keypair_from_str_file [OF assms(3), of w'] by auto
  with a assms(2) show ?thesis by (simp add: onboarding_key_def)
qed

text \<open>
  Loading the settings from a key file again gives the same settings: the key that was loaded, or
  generated and saved the first time, is the one loaded the next time.
\<close>

lemma settings_stable:
  assumes "key_files_ok (stx_keypair S)" and "file_url (stx_keypair S) (sf_keypair f) url"
    and "\<And>w. stx_load S (settings_sources path) w = (Inr f, w)"
    and "Settings_new S path w = (Ok s, w')"
  shows "\<exists>w''. Settings_new S path w' = (Ok s, w'')"
proof -
  let ?K = "stx_keypair S"
  obtain r w1 where k: "Keypair_from_str ?K (sf_keypair f) w = (r, w1)" by fastforce
  with assms(3,4) have w1: "w1 = w'" and "r \<noteq> Panic" "\<And>e. r \<noteq> Err e"
    by (auto simp: Settings_new_def Settings_deserialize_def Keypair_deserialize_def Let_def)
  then obtain kp where kp: "r = Ok kp" by (cases r) auto
  note from_file = Keypair_from_str_file [OF assms(2)]
  from keypair_from_file_again [OF _ assms(1)] k obtain w'' where "Keypair_from_str ?K (sf_keypair f) w' = (Ok kp, w'')"
    unfolding from_file w1 kp by blast
  with assms(3,4) k show ?thesis
    by (simp add: Settings_new_def Settings_deserialize_def Keypair_deserialize_def kp w1)
qed

end
