(* ===== verification/Gateway_Udp.thy ===== *)
theory Gateway_Udp
  imports Beacon Dispatcher
begin

text \<open>
  The packet forwarder side of the gateway (\<^verbatim>\<open>src/gateway.rs\<close>): events of the UDP server,
  uplinks and beacons handed on, downlinks and beacons transmitted. The UDP server of
  \<^verbatim>\<open>semtech_udp\<close> is a parameter: dispatching a packet to a forwarder answers with the
  forwarder's acknowledgement. The task spawned for a transmission is modelled by what it does.
\<close>

type_synonym mac = bytes

datatype udp_event =
    UE_UnableToParseUdpFrame foreign bytes
  | UE_NewClient mac string
  | UE_UpdateClient mac string
  | UE_ClientDisconnected mac string
  | UE_PacketReceived RxPk mac
  | UE_NoClientWithMac bytes mac
  | UE_StatReceived string mac

datatype tx_result = Tx_Ok | Tx_TooEarly | Tx_TooLate | Tx_Error foreign

datatype gw_message =
    GW_Downlink Packet
  | GW_TransmitBeacon Beacon
  | GW_RegionParamsChanged RegionParams

datatype gw_effect =
    GE_ReceivedBeacon Packet
  | GE_Uplink Packet instant
  | GE_BeaconerRegion RegionParams
  | GE_Dispatch mac TxPk

record Gateway =
  g_downlink_mac :: mac
  g_listen_address :: string
  g_region_params :: "RegionParams option"

record ('w, 'd) udp_ext =
  udp_dispatch :: "mac \<Rightarrow> TxPk \<Rightarrow> 'w \<Rightarrow> tx_result \<times> 'w"
  udp_now :: "'w \<Rightarrow> instant \<times> 'w"
  radio :: radio_codec
  decimals :: "'d decimal_ops"

definition DOWNLINK_TIMEOUT_SECS :: u64 where "DOWNLINK_TIMEOUT_SECS = 5"
definition UPLINK_TIMEOUT_SECS :: u64 where "UPLINK_TIMEOUT_SECS = 6"

definition Gateway_new :: "mac \<Rightarrow> string \<Rightarrow> Gateway" where
  "Gateway_new default_mac listen =
     \<lparr>g_downlink_mac = default_mac, g_listen_address = listen, g_region_params = None\<rparr>"

definition g_handle_uplink :: "Packet \<Rightarrow> instant \<Rightarrow> gw_effect list" where
  "g_handle_uplink packet received = [GE_Uplink packet received]"

text \<open>All branches return \<^verbatim>\<open>Ok(())\<close>; \<open>None\<close> is a panic.\<close>

definition handle_udp_event ::
  "('w, 'd) udp_ext \<Rightarrow> Gateway \<Rightarrow> udp_event \<Rightarrow> 'w \<Rightarrow> (Gateway \<times> 'w \<times> gw_effect list) option" where
  "handle_udp_event U g event w =
     (case event of
        UE_NewClient m _ \<Rightarrow> Some (g\<lparr>g_downlink_mac := m\<rparr>, w, [])
      | UE_PacketReceived rxpk _ \<Rightarrow>
          (case Packet_from_rxpk (radio U) rxpk of
             Ok packet \<Rightarrow>
               if is_potential_beacon packet then Some (g, w, [GE_ReceivedBeacon packet])
               else (let (now, w) = udp_now U w in Some (g, w, g_handle_uplink packet now))
           | Err _ \<Rightarrow> Some (g, w, [])
           | Panic \<Rightarrow> None)
      | _ \<Rightarrow> Some (g, w, []))"

text \<open>
  The frequency is converted from hertz to megahertz in double precision; the data rate must be
  one the packet forwarder protocol knows.
\<close>

definition beacon_to_pull_resp :: "radio_codec \<Rightarrow> Beacon \<Rightarrow> u64 \<Rightarrow> TxPk gw_result" where
  "beacon_to_pull_resp R beacon pw =
     (let sz = of_nat (length (b_data beacon)) :: u64 in
      bind_r (unwrap_r (foreign_r from_datarate_error (datarate_parse R (proto_datarate_print R (b_datarate beacon))))) (\<lambda>dr.
      let fr = fp_div F64 (fp_of_int F64 (uint (b_frequency beacon))) (FFin False 1000000);
          data = PHYPayload_to_vec (PHYPayload_proprietary (b_data beacon))
      in Ok \<lparr>imme = True, ipol = False, modu = LORA, codr = CR_4_5, datr = dr, freq = fr,
             tx_data = data, tx_size = sz, powe = pw, rfch = 0, tmst = None, tmms = None,
             fdev = None, prea = None, ncrc = None\<rparr>))"

definition handle_transmit_beacon ::
  "('w, 'd) udp_ext \<Rightarrow> Gateway \<Rightarrow> Beacon \<Rightarrow> 'w \<Rightarrow> ('w \<times> gw_effect list) option" where
  "handle_transmit_beacon U g beacon w =
     (case g_region_params g of
        None \<Rightarrow> Some (w, [])
      | Some rp \<Rightarrow>
          (case tx_power (decimals U) rp of
             None \<Rightarrow> Some (w, [])
           | Some pw \<Rightarrow>
               (case beacon_to_pull_resp (radio U) beacon (ucast pw) of
                  Ok packet \<Rightarrow>
                    (let (_, w) = udp_dispatch U (g_downlink_mac g) packet w
                     in Some (w, [GE_Dispatch (g_downlink_mac g) packet]))
                | Err _ \<Rightarrow> Some (w, [])
                | Panic \<Rightarrow> None)))"

text \<open>The body of the task spawned for a downlink.\<close>

definition downlink_task ::
  "('w, 'd) udp_ext \<Rightarrow> mac \<Rightarrow> Packet \<Rightarrow> u32 \<Rightarrow> 'w \<Rightarrow> ('w \<times> gw_effect list) option" where
  "downlink_task U m downlink pw w =
     (case to_pull_resp (radio U) downlink False pw of
        Ok None \<Rightarrow> Some (w, [])
      | Ok (Some txpk) \<Rightarrow>
          (case udp_dispatch U m txpk w of
             (result, w) \<Rightarrow>
               if result = Tx_TooEarly \<or> result = Tx_TooLate then
                 (case to_pull_resp (radio U) downlink True pw of
                    Ok (Some txpk2) \<Rightarrow>
                      (let (_, w) = udp_dispatch U m txpk2 w
                       in Some (w, [GE_Dispatch m txpk, GE_Dispatch m txpk2]))
                  | Ok None \<Rightarrow> Some (w, [GE_Dispatch m txpk])
                  | _ \<Rightarrow> None)
               else Some (w, [GE_Dispatch m txpk]))
      | _ \<Rightarrow> None)"

definition g_handle_downlink ::
  "('w, 'd) udp_ext \<Rightarrow> Gateway \<Rightarrow> Packet \<Rightarrow> 'w \<Rightarrow> ('w \<times> gw_effect list) option" where
  "g_handle_downlink U g downlink w =
     (case g_region_params g of
        None \<Rightarrow> Some (w, [])
      | Some rp \<Rightarrow>
          (case tx_power (decimals U) rp of
             None \<Rightarrow> Some (w, [])
           | Some pw \<Rightarrow> downlink_task U (g_downlink_mac g) downlink pw w))"

text \<open>
  On new region parameters the code first tells the beaconer and then sets its own; as the task
  handles nothing in between, setting them first makes no difference.
\<close>

definition g_handle_message ::
  "('w, 'd) udp_ext \<Rightarrow> Gateway \<Rightarrow> gw_message \<Rightarrow> 'w \<Rightarrow> (Gateway \<times> 'w \<times> gw_effect list) option" where
  "g_handle_message U g message w =
     (case message of
        GW_Downlink packet \<Rightarrow> map_option (\<lambda>(w, eff). (g, w, eff)) (g_handle_downlink U g packet w)
      | GW_TransmitBeacon beacon \<Rightarrow> map_option (\<lambda>(w, eff). (g, w, eff)) (handle_transmit_beacon U g beacon w)
      | GW_RegionParamsChanged rp \<Rightarrow> Some (g\<lparr>g_region_params := Some rp\<rparr>, w, [GE_BeaconerRegion rp]))"

datatype gw_input = GI_Shutdown | GI_Event udp_event | GI_Message "gw_message option"

text \<open>One iteration of the run loop; \<open>Inl\<close> is its return, with \<open>Panic\<close> for an aborted process.\<close>

definition g_step ::
  "('w, 'd) udp_ext \<Rightarrow> Gateway \<Rightarrow> gw_input \<Rightarrow> 'w \<Rightarrow> unit gw_result + Gateway \<times> 'w \<times> gw_effect list" where
  "g_step U g i w =
     (case i of
        GI_Shutdown \<Rightarrow> Inl (Ok ())
      | GI_Event event \<Rightarrow> (case handle_udp_event U g event w of Some r \<Rightarrow> Inr r | None \<Rightarrow> Inl Panic)
      | GI_Message (Some message) \<Rightarrow> (case g_handle_message U g message w of Some r \<Rightarrow> Inr r | None \<Rightarrow> Inl Panic)
      | GI_Message None \<Rightarrow> Inr (g, w, []))"

section \<open>Properties\<close>

text \<open>
  A received frame is handed on exactly once and to the right place: a well-formed uplink
  frame with a good checksum goes to the beacon handler when it is proprietary and to the
  dispatcher, with its routing information and the time of reception, when it is not; anything
  else is dropped. The handler never panics and does not change the gateway.
\<close>

theorem received_frame_forwarded:
  "\<exists>w' eff. handle_udp_event U g (UE_PacketReceived rx m) w = Some (g, w', eff) \<and>
    (\<forall>f cf. rx_crc rx = CRC_OK \<and> PHYPayload_ok Dir_Uplink f \<and> cflist_ok (phy_payload f) cf \<and>
       rx_data rx = PHYPayload_wire f cf \<longrightarrow>
       (\<exists>p. p_payload p = rx_data rx \<and> p_routing p = frame_routing (phy_payload f) \<and>
          eff = (case phy_payload f of
                   Frame_Proprietary _ \<Rightarrow> [GE_ReceivedBeacon p]
                 | _ \<Rightarrow> [GE_Uplink p (fst (udp_now U w))]))) \<and>
    (rx_crc rx \<noteq> CRC_OK \<or>
       \<not> (\<exists>f cf. PHYPayload_ok Dir_Uplink f \<and> cflist_ok (phy_payload f) cf \<and> rx_data rx = PHYPayload_wire f cf) \<longrightarrow>
       eff = [])"
proof (cases "rx_crc rx = CRC_OK \<and>
    (\<exists>f cf. PHYPayload_ok Dir_Uplink f \<and> cflist_ok (phy_payload f) cf \<and> rx_data rx = PHYPayload_wire f cf)")
  case True
  then obtain f0 cf0 where c: "rx_crc rx = CRC_OK" and f0: "PHYPayload_ok Dir_Uplink f0"
    "cflist_ok (phy_payload f0) cf0" "rx_data rx = PHYPayload_wire f0 cf0" by blast
  obtain p where p: "Packet_from_rxpk (radio U) rx = Ok p"
    using Packet_from_rxpk_wire [OF c f0, of "radio U"] by blast
  obtain now w1 where n: "udp_now U w = (now, w1)" by fastforce
  have f: "p_payload p = rx_data rx \<and> p_routing p = frame_routing (phy_payload f) \<and>
      (is_potential_beacon p \<longleftrightarrow> (\<exists>v. phy_payload f = Frame_Proprietary v))"
    if "PHYPayload_ok Dir_Uplink f" "cflist_ok (phy_payload f) cf" "rx_data rx = PHYPayload_wire f cf" for f cf
    using Packet_from_rxpk_wire [OF c that, of "radio U"] p by auto
  have h: "handle_udp_event U g (UE_PacketReceived rx m) w =
      Some (g, if is_potential_beacon p then w else w1,
        if is_potential_beacon p then [GE_ReceivedBeacon p] else [GE_Uplink p now])"
    by (simp add: handle_udp_event_def p n g_handle_uplink_def)
  have "\<exists>q. p_payload q = rx_data rx \<and> p_routing q = frame_routing (phy_payload f) \<and>
      (if is_potential_beacon p then [GE_ReceivedBeacon p] else [GE_Uplink p now]) =
        (case phy_payload f of Frame_Proprietary _ \<Rightarrow> [GE_ReceivedBeacon q]
         | _ \<Rightarrow> [GE_Uplink q (fst (udp_now U w))])"
    if "PHYPayload_ok Dir_Uplink f" "cflist_ok (phy_payload f) cf" "rx_data rx = PHYPayload_wire f cf" for f cf
    using f [OF that] n by (intro exI [of _ p]) (simp split: PHYPayloadFrame.splits)
  with h True show ?thesis by (intro exI conjI) auto
next
  case False
  then have "\<forall>p. Packet_from_rxpk (radio U) rx \<noteq> Ok p" and "Packet_from_rxpk (radio U) rx \<noteq> Panic"
    by (auto simp: Packet_from_rxpk_def Let_def bind_r_Panic_iff bind_r_Ok_iff parse_frame_Ok_iff
        PHYPayload_read_Ok_wire)
  then have "handle_udp_event U g (UE_PacketReceived rx m) w = Some (g, w, [])"
    by (auto simp: handle_udp_event_def split: rresult.splits)
  with False show ?thesis by auto
qed

definition sample_udp :: "(unit, rat) udp_ext" where
  "sample_udp = \<lparr>udp_dispatch = (\<lambda>m t w. (Tx_TooLate, w)), udp_now = (\<lambda>w. (12, w)),
     radio = sample_radio, decimals = rat_decimal\<rparr>"

definition sample_gateway :: Gateway where
  "sample_gateway = \<lparr>g_downlink_mac = [1, 2, 3, 4, 5, 6, 7, 8], g_listen_address = ''127.0.0.1:1680'',
     g_region_params = Some \<lparr>gain = 12, region = Region 0,
       params = [\<lparr>channel_frequency = 903900000, max_eirp_tenths = 360\<rparr>]\<rparr>\<rparr>"

lemma to_pull_resp_rx1:
  "to_pull_resp R p False pw =
     (case datarate_parse R (p_datarate p) of
        Inl e \<Rightarrow> Err (from_datarate_error e)
      | Inr dr \<Rightarrow> Ok (Some \<lparr>imme = False, ipol = True, modu = LORA, codr = CR_4_5, datr = dr,
          freq = fp_convert F64 (p_frequency p), tx_data = p_payload p,
          tx_size = of_nat (length (p_payload p)), powe = ucast pw, rfch = 0,
          tmst = Some (SN_N (ucast (p_timestamp p))),
          tmms = None, fdev = None, prea = None, ncrc = None\<rparr>))"
  by (auto simp: to_pull_resp_def split: sum.splits)

lemma to_pull_resp_rx2:
  "to_pull_resp R p True pw =
     (case p_rx2_window p of
        None \<Rightarrow> Ok None
      | Some rx2 \<Rightarrow> (case datarate_parse R (w_datarate rx2) of
          Inl e \<Rightarrow> Err (from_datarate_error e)
        | Inr dr \<Rightarrow> Ok (Some \<lparr>imme = False, ipol = True, modu = LORA, codr = CR_4_5, datr = dr,
            freq = fp_convert F64 (w_frequency rx2), tx_data = p_payload p,
            tx_size = of_nat (length (p_payload p)), powe = ucast pw, rfch = 0,
            tmst = Some (SN_N (ucast (w_timestamp rx2))),
            tmms = None, fdev = None, prea = None, ncrc = None\<rparr>)))"
  by (auto simp: to_pull_resp_def split: sum.splits option.splits)

definition window_datarate_ok :: "radio_codec \<Rightarrow> string \<Rightarrow> bool" where
  "window_datarate_ok R s \<longleftrightarrow> (\<exists>dr. datarate_parse R s = Inr dr)"

text \<open>
  C25. A downlink is sent to the current packet forwarder in its first window, with its own
  payload and timestamp; it is sent a second time exactly when the forwarder answered too early
  or too late and the router gave a second window, then with that window's timestamp and the
  same payload. The task ends the process exactly when a data rate it needs does not parse.
\<close>

theorem downlink_windows:
  assumes "g_region_params g = Some rp" and "tx_power (decimals U) rp = Some pw"
  shows "if window_datarate_ok (radio U) (p_datarate p)
    then \<exists>t1. tx_data t1 = p_payload p \<and> tmst t1 = Some (SN_N (ucast (p_timestamp p))) \<and> powe t1 = ucast pw \<and>
      (if fst (udp_dispatch U (g_downlink_mac g) t1 w) \<in> {Tx_TooEarly, Tx_TooLate} then
         (case p_rx2_window p of
            None \<Rightarrow> \<exists>w'. g_handle_downlink U g p w = Some (w', [GE_Dispatch (g_downlink_mac g) t1])
          | Some rx2 \<Rightarrow>
              if window_datarate_ok (radio U) (w_datarate rx2)
              then \<exists>w' t2. g_handle_downlink U g p w =
                  Some (w', [GE_Dispatch (g_downlink_mac g) t1, GE_Dispatch (g_downlink_mac g) t2]) \<and>
                tx_data t2 = p_payload p \<and> tmst t2 = Some (SN_N (ucast (w_timestamp rx2))) \<and> powe t2 = ucast pw
              else g_handle_downlink U g p w = None)
       else \<exists>w'. g_handle_downlink U g p w = Some (w', [GE_Dispatch (g_downlink_mac g) t1]))
    else g_handle_downlink U g p w = None"
proof (cases "datarate_parse (radio U) (p_datarate p)")
  case (Inl e)
  then show ?thesis
    by (simp add: window_datarate_ok_def g_handle_downlink_def assms downlink_task_def to_pull_resp_rx1)
next
  case (Inr dr)
  let ?m = "g_downlink_mac g"
  obtain t1 where t1: "to_pull_resp (radio U) p False pw = Ok (Some t1)" "tx_data t1 = p_payload p"
    "tmst t1 = Some (SN_N (ucast (p_timestamp p)))" "powe t1 = ucast pw"
    using Inr by (simp add: to_pull_resp_rx1)
  obtain r w1 where d: "udp_dispatch U ?m t1 w = (r, w1)" by fastforce
  have g: "g_handle_downlink U g p w = downlink_task U ?m p pw w" by (simp add: g_handle_downlink_def assms)
  have ok: "window_datarate_ok (radio U) (p_datarate p)" using Inr by (simp add: window_datarate_ok_def)
  show ?thesis
    unfolding g
    by (simp only: ok if_True, rule exI [of _ t1])
      (auto simp: t1 d downlink_task_def to_pull_resp_rx2 window_datarate_ok_def case_prod_beta
        split: option.splits sum.splits)
qed

theorem downlink_windows_witness:
  "\<exists>w' t1 t2. g_handle_downlink sample_udp sample_gateway
     (sample_packet 7\<lparr>p_rx2_window := Some \<lparr>w_timestamp = 9, w_frequency = FFin False 923, w_datarate = ''SF12BW500''\<rparr>\<rparr>) () =
       Some (w', [GE_Dispatch [1, 2, 3, 4, 5, 6, 7, 8] t1, GE_Dispatch [1, 2, 3, 4, 5, 6, 7, 8] t2]) \<and>
     tmst t2 = Some (SN_N 9)"
proof -
  let ?p = "sample_packet 7\<lparr>p_rx2_window := Some \<lparr>w_timestamp = 9, w_frequency = FFin False 923, w_datarate = ''SF12BW500''\<rparr>\<rparr>"
  let ?rp = "\<lparr>gain = 12, region = Region 0, params = [\<lparr>channel_frequency = 903900000, max_eirp_tenths = 360\<rparr>]\<rparr>"
  have 1: "g_region_params sample_gateway = Some ?rp" by (simp add: sample_gateway_def)
  have f: "\<lfloor>174 / 5 :: rat\<rfloor> = 34" by (rule floor_unique) simp_all
  have 2: "tx_power (decimals sample_udp) ?rp = Some 34"
    by (simp add: sample_udp_def tx_power_def max_eirp_def rat_decimal_def f)
  show ?thesis
    using downlink_windows [OF 1 2, of ?p "()"]
    by (auto simp: window_datarate_ok_def sample_udp_def sample_radio_def sample_gateway_def)
qed

lemma beacon_bytes: "PHYPayload_to_vec (PHYPayload_proprietary v) = 0xE0 # v"
  by (simp add: PHYPayload_to_vec_def PHYPayload_write_def PHYPayload_proprietary_def io_write_def
      set_bit_range_def mask_eq_exp_minus_1)

text \<open>
  C26. The frame transmitted for a beacon is the beacon's payload after one header byte, and
  its announced size is one less than its length. Since a beacon payload has at most ten bytes,
  the frame is shorter than the twelve bytes required of a proprietary frame: every gateway
  that receives it rejects it for its size, so it never becomes a witness report.
\<close>

theorem beacon_not_witnessed:
  assumes "beacon_ext_ok B" and "Beacon_new B re le ps = Ok b" and "beacon_to_pull_resp R b pw = Ok tx"
  shows "tx_data tx = 0xE0 # b_data b \<and> unat (tx_size tx) + 1 = length (tx_data tx) \<and>
    imme tx \<and> \<not> ipol tx \<and>
    (\<forall>rx. rx_data rx = tx_data tx \<and> rx_crc rx = CRC_OK \<longrightarrow>
       Packet_from_rxpk R' rx =
         Err (from_lorawan_error (InvalidPacketSize MT_Proprietary (length (tx_data tx)))))"
proof -
  have l: "5 \<le> length (b_data b) \<and> length (b_data b) \<le> 10" using Beacon_new_size [OF assms(1,2)] .
  have tx: "tx_data tx = 0xE0 # b_data b" "tx_size tx = of_nat (length (b_data b))" "imme tx" "\<not> ipol tx"
    using assms(3) by (auto simp: beacon_to_pull_resp_def beacon_bytes bind_r_Ok_iff Let_def)
  have "length (b_data b) < 2 ^ 64" using l by simp
  then have "unat (tx_size tx) = length (b_data b)"
    by (simp add: tx(2) unat_of_nat take_bit_nat_eq_self_iff)
  moreover have "MHDR_mtype (MHDR 0xE0) = MT_Proprietary"
    by (simp add: bit_range_def MType_from_u8_def mask_eq_exp_minus_1)
  then have "PHYPayload_read Dir_Uplink (0xE0 # b_data b) =
      Err (InvalidPacketSize MT_Proprietary (Suc (length (b_data b))))"
    using l unfolding PHYPayload_read_Cons by (simp add: DATA_MIN_LEN_def)
  ultimately show ?thesis
    by (simp add: tx Packet_from_rxpk_def parse_frame_def)
qed

theorem beacon_not_witnessed_witness:
  "\<exists>b tx. Beacon_new sample_beacon_ext sample_entropy sample_entropy
       [\<lparr>channel_frequency = 903900000, max_eirp_tenths = 360\<rparr>] = Ok b \<and>
     beacon_to_pull_resp sample_radio b 27 = Ok tx \<and>
     (\<exists>e. Packet_from_rxpk sample_radio (sample_rxpk (tx_data tx)) = Err e)"
proof -
  obtain b where b: "Beacon_new sample_beacon_ext sample_entropy sample_entropy
       [\<lparr>channel_frequency = 903900000, max_eirp_tenths = 360\<rparr>] = Ok b"
    using Beacon_new_cases [OF sample_beacon_ext_ok, of sample_entropy sample_entropy
       "[\<lparr>channel_frequency = 903900000, max_eirp_tenths = 360\<rparr>]"] by (auto simp: sample_entropy_def)
  obtain tx where tx: "beacon_to_pull_resp sample_radio b 27 = Ok tx"
    by (simp add: beacon_to_pull_resp_def sample_radio_def unwrap_r_def Let_def)
  show ?thesis
    using b tx beacon_not_witnessed [OF sample_beacon_ext_ok b tx, of sample_radio] by (auto simp: sample_rxpk_def)
qed

end
