(* ===== verification/Dispatcher_Props.thy ===== *)
theory Dispatcher_Props
  imports Dispatcher
begin

text \<open>
  Correctness of the dispatcher: the invariant of its router map under every step of the run
  loop, the map as a function from keys to routing entries, delivery of uplinks, and the
  height gates of the two streams.
\<close>

section \<open>The router map\<close>

definition entry_ok :: "nat \<Rightarrow> RouterKey \<times> RouterEntry \<Rightarrow> bool" where
  "entry_ok n ke \<longleftrightarrow> rk_oui (fst ke) = oui (re_routing (snd ke)) \<and>
     rk_uri (fst ke) \<in> set (uris (re_routing (snd ke))) \<and> re_dispatch (snd ke) < n"

definition routers_ok :: "Dispatcher \<Rightarrow> bool" where
  "routers_ok d \<longleftrightarrow> distinct (map fst (routers d)) \<and> distinct (map (re_dispatch \<circ> snd) (routers d)) \<and>
     list_all (entry_ok (next_channel d)) (routers d)"

definition router_table :: "Dispatcher \<Rightarrow> RouterKey \<rightharpoonup> Routing" where
  "router_table d k = map_option re_routing (map_of (routers d) k)"

definition router_channel :: "Dispatcher \<Rightarrow> RouterKey \<rightharpoonup> nat" where
  "router_channel d k = map_option re_dispatch (map_of (routers d) k)"

definition router_key :: "Routing \<Rightarrow> KeyedUri \<Rightarrow> RouterKey" where
  "router_key r u = \<lparr>rk_oui = oui r, rk_uri = u\<rparr>"

lemma start_router_eq:
  "start_router d r u =
     (Ok \<lparr>re_routing = r, re_dispatch = next_channel d\<rparr>, d\<lparr>next_channel := Suc (next_channel d)\<rparr>,
      [Eff_Spawn (next_channel d) \<lparr>rc_uri = u, rc_oui = oui r, rc_region = d_region d,
         rc_keypair = d_keypair d, rc_store = RouterStore_new (cache_max_packets d)\<rparr>])"
  by (simp add: start_router_def RouterClient_new_def Let_def)

lemma update_router_eq:
  "fst (update_router r d u) =
     (if map_of (routers d) (router_key r u) \<noteq> None
      then d\<lparr>routers := map (\<lambda>(k, e). (k, if k = router_key r u then e\<lparr>re_routing := r\<rparr> else e)) (routers d)\<rparr>
      else d\<lparr>next_channel := Suc (next_channel d),
             routers := routers d @ [(router_key r u, \<lparr>re_routing = r, re_dispatch = next_channel d\<rparr>)]\<rparr>)"
  by (auto simp: update_router_def start_router_eq router_key_def Let_def split: option.splits)

lemma map_of_update_routing:
  "map_of (map (\<lambda>(k, e). (k, if k = key then f e else e)) xs) k =
     (if k = key then map_option f (map_of xs k) else map_of xs k)"
  by (induction xs) auto

lemma router_table_update_router:
  "router_table (fst (update_router r d u)) = (router_table d)(router_key r u \<mapsto> r)"
  by (rule ext) (auto simp: router_table_def update_router_eq map_of_update_routing map_add_def
      split: option.splits)

lemma router_channel_update_router:
  "k \<in> dom (router_channel d) \<Longrightarrow> router_channel (fst (update_router r d u)) k = router_channel d k"
  by (auto simp: router_channel_def update_router_eq map_of_update_routing map_add_def dom_def
      split: option.splits)

lemma update_router_ok:
  assumes "routers_ok d" and "u \<in> set (uris r)"
  shows "routers_ok (fst (update_router r d u))"
proof (cases "map_of (routers d) (router_key r u)")
  case None
  then have "router_key r u \<notin> fst ` set (routers d)" by (simp add: map_of_eq_None_iff)
  then show ?thesis
    using assms None
    by (auto simp: update_router_eq routers_ok_def list_all_iff entry_ok_def router_key_def less_Suc_eq)
next
  case (Some e)
  let ?f = "\<lambda>(k, e). (k, if k = router_key r u then e\<lparr>re_routing := r\<rparr> else e)"
  have m: "map fst (map ?f xs) = map fst xs"
    "map (re_dispatch \<circ> snd) (map ?f xs) = map (re_dispatch \<circ> snd) xs" for xs
    by (induction xs) auto
  have "entry_ok n (?f ke)" if "entry_ok n ke" for n ke
    using that assms(2) by (cases ke) (auto simp: entry_ok_def router_key_def)
  then have "list_all (entry_ok n) xs \<Longrightarrow> list_all (entry_ok n) (map ?f xs)" for n xs
    by (auto simp: list_all_iff)
  moreover have "fst (update_router r d u) = d\<lparr>routers := map ?f (routers d)\<rparr>"
    using Some by (simp add: update_router_eq)
  moreover have "routers (d\<lparr>routers := xs\<rparr>) = xs" "next_channel (d\<lparr>routers := xs\<rparr>) = next_channel d" for xs
    by simp_all
  ultimately show ?thesis using assms(1) by (simp only: routers_ok_def m simp_thms)
qed

definition stops :: "effect list \<Rightarrow> nat list" where
  "stops eff = List.map_filter (\<lambda>e. case e of Eff_Router ch RM_Stop \<Rightarrow> Some ch | _ \<Rightarrow> None) eff"

lemma stops_simps [simp]: "stops [] = []" "stops (a @ b) = stops a @ stops b"
  by (simp_all add: stops_def map_filter_def)

lemma update_router_stops [simp]: "stops (snd (update_router r d u)) = []"
  by (auto simp: update_router_def start_router_eq stops_def map_filter_def Let_def split: option.splits)

lemma update_routers_Cons:
  "update_routers r (u # us) d =
     (fst (update_routers r us (fst (update_router r d u))),
      snd (update_router r d u) @ snd (update_routers r us (fst (update_router r d u))))"
  by (simp add: case_prod_beta Let_def)

lemma update_routers_all:
  "routers_ok d \<Longrightarrow> set us \<subseteq> set (uris r) \<Longrightarrow>
   routers_ok (fst (update_routers r us d)) \<and>
   router_table (fst (update_routers r us d)) =
     (\<lambda>k. if k \<in> router_key r ` set us then Some r else router_table d k) \<and>
   (\<forall>k\<in>dom (router_channel d). router_channel (fst (update_routers r us d)) k = router_channel d k) \<and>
   stops (snd (update_routers r us d)) = []"
proof (induction us arbitrary: d)
  case Nil
  then show ?case by simp
next
  case (Cons u us)
  let ?d = "fst (update_router r d u)"
  have d: "routers_ok ?d" and us: "set us \<subseteq> set (uris r)" using Cons.prems by (simp_all add: update_router_ok)
  note IH = Cons.IH [OF d us]
  have "router_channel ?d k = router_channel d k \<and> k \<in> dom (router_channel ?d)" if "k \<in> dom (router_channel d)" for k
    using router_channel_update_router [OF that, of r u] that by (auto simp: dom_def)
  with IH show ?case
    unfolding update_routers_Cons fst_conv snd_conv by (auto simp: router_table_update_router fun_eq_iff)
qed

lemmas update_routers_facts =
  update_routers_all [THEN conjunct1]
  update_routers_all [THEN conjunct2, THEN conjunct1]
  update_routers_all [THEN conjunct2, THEN conjunct2, THEN conjunct1, rule_format]
  update_routers_all [THEN conjunct2, THEN conjunct2, THEN conjunct2]

text \<open>With the invariant nothing is ever removable.\<close>

lemma not_removable:
  assumes "routers_ok d"
  shows "filter (removable r) (routers d) = []" and "filter (\<lambda>ke. \<not> removable r ke) (routers d) = routers d"
  using assms by (auto simp: routers_ok_def list_all_iff entry_ok_def removable_def contains_uri_iff filter_empty_conv filter_id_conv)

lemma handle_oui_routing_update_eq:
  assumes "routers_ok d"
  shows "handle_oui_routing_update r d = update_routers r (uris r) d"
proof -
  have "routers_ok (fst (update_routers r (uris r) d))" using update_routers_facts(1) [OF assms] by simp
  from not_removable [OF this, of r] show ?thesis
    by (cases "update_routers r (uris r) d") (simp add: handle_oui_routing_update_def)
qed

lemma update_routers_heights:
  "routing_height (fst (update_routers r us d)) = routing_height d \<and>
   region_height (fst (update_routers r us d)) = region_height d \<and>
   d_region (fst (update_routers r us d)) = d_region d"
proof (induction us arbitrary: d)
  case Nil
  then show ?case by simp
next
  case (Cons u us)
  have "routing_height (fst (update_router r d u)) = routing_height d \<and>
    region_height (fst (update_router r d u)) = region_height d \<and> d_region (fst (update_router r d u)) = d_region d"
    by (simp add: update_router_eq)
  with Cons show ?case unfolding update_routers_Cons fst_conv by simp
qed

lemma update_routings_ok:
  "update_routings A ps d = Ok (d', eff) \<Longrightarrow> routers_ok d \<Longrightarrow>
   routers_ok d' \<and> dom (router_table d) \<subseteq> dom (router_table d') \<and> stops eff = [] \<and>
   routing_height d' = routing_height d \<and> region_height d' = region_height d \<and> d_region d' = d_region d"
proof (induction A ps d arbitrary: d' eff rule: update_routings.induct)
  case (1 A d)
  then show ?case by simp
next
  case (2 A p ps d)
  show ?case
  proof (cases "Routing_from_proto A p")
    case (Ok r)
    let ?u = "update_routers r (uris r) d"
    have eq: "handle_oui_routing_update r d = (fst ?u, snd ?u)"
      using handle_oui_routing_update_eq [OF "2.prems"(2)] by simp
    note f = update_routers_facts [OF "2.prems"(2) order_refl, where r = r]
    obtain eff' where rec: "update_routings A ps (fst ?u) = Ok (d', eff')" and e: "eff = snd ?u @ eff'"
      using "2.prems"(1) by (auto simp: Ok eq bind_r_Ok_iff case_prod_beta)
    have "dom (router_table d) \<subseteq> dom (router_table (fst ?u))" by (auto simp: f(2) dom_def)
    with "2.IH"(1) [OF Ok eq [symmetric] refl rec f(1)] show ?thesis
      by (auto simp: e f(4) update_routers_heights)
  next
    case (Err e)
    with 2 show ?thesis by auto
  next
    case Panic
    with 2 show ?thesis by auto
  qed
qed

lemma handle_routing_update_ok:
  assumes "handle_routing_update X d resp = Ok (d', eff)" and "routers_ok d"
  shows "routers_ok d' \<and> dom (router_table d) \<subseteq> dom (router_table d') \<and> stops eff = []"
proof -
  have same: "routers_ok (d\<lparr>routing_height := h\<rparr>) = routers_ok d" "router_table (d\<lparr>routing_height := h\<rparr>) = router_table d"
    for d h by (simp_all add: routers_ok_def router_table_def fun_eq_iff)
  consider "d' = d" "eff = []"
    | d1 h ps where "update_routings (addr X) ps d = Ok (d1, eff)" "d' = d1\<lparr>routing_height := h\<rparr>"
    using assms(1) by (auto simp: handle_routing_update_def Let_def bind_r_Ok_iff split: if_splits rresult.splits)
  then show ?thesis
  proof cases
    case 1
    then show ?thesis using assms(2) by simp
  next
    case 2
    show ?thesis using update_routings_ok [OF 2(1) assms(2)] by (simp only: 2(2) same simp_thms)
  qed
qed

section \<open>Reachable states\<close>

inductive d_reachable ::
  "filter_hash \<Rightarrow> 'w gw_ext \<Rightarrow> (u32 \<Rightarrow> duration option) \<Rightarrow> Dispatcher \<Rightarrow> d_phase \<Rightarrow> Dispatcher \<Rightarrow> bool"
  for H X B d0 where
  d_start: "d_reachable H X B d0 Ph_Select d0"
| d_next: "d_reachable H X B d0 ph d \<Longrightarrow> d_step H X B ph d i w = (ph', d', w', eff) \<Longrightarrow>
    d_reachable H X B d0 ph' d'"

text \<open>Only a routing update touches the router map.\<close>

definition same_map :: "Dispatcher \<Rightarrow> Dispatcher \<Rightarrow> bool" where
  "same_map d d' \<longleftrightarrow> routers d' = routers d \<and> next_channel d' = next_channel d"

lemma same_map_ok: "same_map d d' \<Longrightarrow> routers_ok d \<Longrightarrow> routers_ok d' \<and> router_table d' = router_table d"
  by (simp add: same_map_def routers_ok_def router_table_def fun_eq_iff)

lemma handle_region_params_update_map: "same_map d (fst (handle_region_params_update X d resp))"
  by (simp add: handle_region_params_update_def same_map_def Let_def split: rresult.splits)

lemma prepare_gateway_change_map: "same_map d (fst (prepare_gateway_change H X B d i w))"
  by (auto simp: prepare_gateway_change_def same_map_def Let_def split: wait_input.splits option.splits prod.splits)

lemma select_step_map: "same_map d (fst (snd (select_step X d i w)))"
  by (auto simp: select_step_def same_map_def
      split: select_input.splits prod.splits rresult.splits option.splits)

lemma stops_uplinks [simp]: "stops (d_handle_uplink H d p t) = []"
  by (auto simp: d_handle_uplink_def stops_def map_filter_def Let_def filter_empty_conv case_prod_beta
      split: option.splits)

lemma stops_message [simp]: "stops (snd (d_handle_message H X d m g w)) = []"
  by (cases m) (auto simp: d_handle_message_def case_prod_beta Let_def stops_def [of "[_]"] map_filter_def)

lemma stops_region [simp]: "stops (snd (handle_region_params_update X d resp)) = []"
  by (auto simp: handle_region_params_update_def stops_def map_filter_def Let_def filter_empty_conv case_prod_beta
      split: rresult.splits)

lemma run_with_gateway_step_map:
  assumes "run_with_gateway_step H X g d i w = (r, d', w', eff)"
  shows "same_map d d' \<and> stops eff = [] \<or>
    (\<exists>resp. i = DI_Stream (Some (GS_Routing, Ok resp)) \<and> handle_routing_update X d resp = Ok (d', eff))"
proof (cases "\<exists>resp. i = DI_Stream (Some (GS_Routing, Ok resp))")
  case True
  then show ?thesis
    using assms by (auto simp: run_with_gateway_step_def same_map_def split: rresult.splits)
next
  case False
  show ?thesis
  proof (cases i)
    case (DI_Stream m)
    then show ?thesis
      using assms False handle_region_params_update_map [of d X] stops_region [of X d]
      by (auto simp: run_with_gateway_step_def same_map_def case_prod_beta Let_def
          split: option.splits prod.splits rresult.splits gateway_stream.splits)
  next
    case DI_Check
    then show ?thesis
      using assms by (auto simp: run_with_gateway_step_def same_map_def split: prod.splits rresult.splits)
  next
    case (DI_Message m)
    then show ?thesis
      using assms
      by (auto simp: run_with_gateway_step_def same_map_def split: option.splits prod.splits)
        (metis snd_conv stops_message)
  qed (use assms in \<open>auto simp: run_with_gateway_step_def same_map_def\<close>)
qed

lemma d_step_map:
  assumes "d_step H X B ph d i w = (ph', d', w', eff)" and "routers_ok d"
  shows "routers_ok d' \<and> dom (router_table d) \<subseteq> dom (router_table d')"
proof -
  have same: ?thesis if "same_map d d'" using same_map_ok [OF that assms(2)] by simp
  show ?thesis
  proof (cases "\<exists>g di. ph = Ph_Connected g \<and> i = RU_Connected di")
    case True
    then obtain g di r where "run_with_gateway_step H X g d di w = (r, d', w', eff)"
      using assms(1) by (auto simp: d_step_def split: prod.splits option.splits rresult.splits)
    from run_with_gateway_step_map [OF this] same handle_routing_update_ok [OF _ assms(2)] show ?thesis by blast
  next
    case False
    then have "same_map d d'"
      using assms(1) select_step_map [of d X] prepare_gateway_change_map [of d H X B]
      by (auto simp: d_step_def same_map_def split: d_phase.splits run_input.splits prod.splits)
        (metis fst_conv snd_conv)+
    then show ?thesis by (rule same)
  qed
qed

lemma d_reachable_map:
  "d_reachable H X B d0 ph d \<Longrightarrow> routers_ok d0 \<Longrightarrow> routers_ok d \<and> dom (router_table d0) \<subseteq> dom (router_table d)"
  by (induction rule: d_reachable.induct) (use d_step_map in \<open>fastforce+\<close>)

section \<open>Height gates\<close>

text \<open>
  The contract of an update that carries a height: one that is not newer than the state is
  ignored, and a newer one moves the state to its height or leaves it alone.
\<close>

locale height_gate =
  fixes level :: "'s \<Rightarrow> u64"
    and stamp :: "'m \<Rightarrow> u64"
    and upd :: "'s \<Rightarrow> 'm \<Rightarrow> 's"
  assumes stale: "stamp m \<le> level s \<Longrightarrow> upd s m = s"
    and newer: "level s < stamp m \<Longrightarrow> upd s m = s \<or> level (upd s m) = stamp m"
begin

lemma level_mono: "level s \<le> level (upd s m)"
  using stale [of m s] newer [of s m] by (cases "stamp m \<le> level s") (auto simp: not_le)

lemma replay: "upd (upd s m) m = upd s m"
  using stale [of m "upd s m"] stale [of m s] newer [of s m] by (cases "stamp m \<le> level s") (auto simp: not_le)

lemma levels_mono: "level s \<le> level (foldl upd s ms)"
proof (induction ms arbitrary: s)
  case Nil
  then show ?case by simp
next
  case (Cons m ms)
  then show ?case using level_mono [of s m] order_trans by fastforce
qed

text \<open>An update is without effect once a sequence has passed its height.\<close>

lemma late: "stamp m \<le> level s \<Longrightarrow> upd (foldl upd s ms) m = foldl upd s ms"
  using levels_mono [of s ms] stale order_trans by blast

end

definition routing_upd :: "'w gw_ext \<Rightarrow> Dispatcher \<Rightarrow> GatewayResp \<Rightarrow> Dispatcher" where
  "routing_upd X d m = (case handle_routing_update X d m of Ok (d', _) \<Rightarrow> d' | _ \<Rightarrow> d)"

definition region_upd :: "'w gw_ext \<Rightarrow> Dispatcher \<Rightarrow> GatewayResp \<Rightarrow> Dispatcher" where
  "region_upd X d m = fst (handle_region_params_update X d m)"

interpretation routing_gate: height_gate routing_height gr_height "routing_upd X" for X :: "'w gw_ext"
proof (unfold_locales, goal_cases)
  case (1 m s)
  then show ?case by (simp add: routing_upd_def handle_routing_update_def)
next
  case (2 s m)
  show ?case
  proof (cases "handle_routing_update X s m")
    case (Ok r)
    then show ?thesis
      by (auto simp: routing_upd_def handle_routing_update_def Let_def bind_r_Ok_iff
          split: if_splits rresult.splits)
  qed (simp_all add: routing_upd_def)
qed

interpretation region_gate: height_gate region_height gr_height "region_upd X" for X :: "'w gw_ext"
  by unfold_locales
    (auto simp: region_upd_def handle_region_params_update_def Let_def split: rresult.splits)

section \<open>Properties\<close>

text \<open>
  C15. In every state the dispatcher reaches, by any inputs and answers of validators, the
  router map has one entry per key, every entry has a channel of its own, and the routing of an
  entry belongs to the key's organization and lists the key's address.
\<close>

theorem routers_invariant:
  assumes "Dispatcher_new kp rg gws def m = Ok d0" and "d_reachable H X B d0 ph d"
  shows "distinct (map fst (routers d)) \<and> distinct (map (re_dispatch \<circ> snd) (routers d)) \<and>
    (\<forall>(k, e)\<in>set (routers d). rk_oui k = oui (re_routing e) \<and> contains_uri (re_routing e) (rk_uri k))"
proof -
  have "routers_ok d0" using assms(1) by (auto simp: Dispatcher_new_def routers_ok_def)
  then have "routers_ok d" using d_reachable_map [OF assms(2)] by blast
  then show ?thesis by (auto simp: routers_ok_def list_all_iff entry_ok_def contains_uri_iff)
qed

definition sample_dispatcher :: Dispatcher where
  "sample_dispatcher = \<lparr>d_keypair = sample_keypair, d_region = Region 0, d_seed_gateways = [],
     routing_height = 0, region_height = 0, cache_max_packets = 2, gateway_retry = 0, routers = [],
     default_routers = None, next_channel = 0\<rparr>"

definition sample_routing_resp :: "u64 \<Rightarrow> GatewayResp" where
  "sample_routing_resp h =
     \<lparr>gr_height = h, gr_block_age = 0, gr_signature = [42], gr_msg = Some (GM_RoutingStreamed [sample_proto])\<rparr>"

definition sample_key :: RouterKey where
  "sample_key = \<lparr>rk_oui = 1, rk_uri = \<lparr>ku_uri = [104], ku_pubkey = [1]\<rparr>\<rparr>"

definition sample_entry :: RouterEntry where
  "sample_entry = \<lparr>re_routing = \<lparr>oui = 1, uris = [\<lparr>ku_uri = [104], ku_pubkey = [1]\<rparr>], filters = [],
     subnets = [\<lparr>base = 1024, size = 1024\<rparr>]\<rparr>, re_dispatch = 0\<rparr>"

lemma sample_codec_addr: "addr sample_gw = sample_codec"
  by (simp add: sample_gw_def)

lemma sample_routing_update:
  "\<exists>eff. handle_routing_update sample_gw sample_dispatcher (sample_routing_resp 5) =
     Ok (sample_dispatcher\<lparr>routing_height := 5, routers := [(sample_key, sample_entry)], next_channel := 1\<rparr>, eff)"
  by (simp add: handle_routing_update_def sample_routing_resp_def sample_dispatcher_def response_routings_def
      sample_codec_addr sample_routing handle_oui_routing_update_def update_router_def start_router_eq Let_def
      removable_def contains_uri_def sample_key_def sample_entry_def)

definition sample_state :: Dispatcher where
  "sample_state = sample_dispatcher\<lparr>routing_height := 5, routers := [(sample_key, sample_entry)], next_channel := 1\<rparr>"

lemma sample_state_ok: "routers_ok sample_state"
  by (simp add: sample_state_def sample_dispatcher_def routers_ok_def entry_ok_def sample_key_def sample_entry_def)

text \<open>A validator that knows itself and one region with one channel.\<close>

definition sample_net :: "unit gw_ext" where
  "sample_net = sample_gw\<lparr>
     rpc_validators := (\<lambda>_ _ w. (Inr (sample_resp\<lparr>gr_msg := Some (GM_Validators [\<lparr>ra_pub_key = [1], ra_uri = [104]\<rparr>])\<rparr>), w)),
     rpc_region_params := (\<lambda>_ _ w. (Inr (sample_resp\<lparr>gr_msg := Some (GM_RegionParams
       \<lparr>rpr_region = 0, rpr_gain = 12, rpr_params = Some (params sample_region_params)\<rparr>)\<rparr>), w))\<rparr>"

lemma sample_from_utf8: "from_utf8_lossy [104] = [104]"
  by (simp add: from_utf8_lossy.simps utf8_step.simps utf8_width_def)

lemma sample_seed: "select_seed sample_net [u] () = (Ok \<lparr>gs_uri = u\<rparr>, ())"
  by (simp add: select_seed_def sample_net_def sample_gw_def GatewayService_new_def ok_or_def)

lemma sample_verified:
  "GatewayResp_verify sample_net k (sample_resp\<lparr>gr_msg := m\<rparr>) = Ok ()"
  by (simp add: GatewayResp_verify_def msg_verify_def sample_net_def sample_gw_def sample_verifier_def sample_resp_def)

lemma sample_validators: "validators sample_net g n () = (Ok [\<lparr>ku_uri = [104], ku_pubkey = [1]\<rparr>], ())"
proof -
  have "rpc_validators sample_net (gs_uri g) n () =
      (Inr (sample_resp\<lparr>gr_msg := Some (GM_Validators [\<lparr>ra_pub_key = [1], ra_uri = [104]\<rparr>])\<rparr>), ())"
    "addr sample_net = sample_codec" by (simp_all add: sample_net_def sample_gw_def)
  then show ?thesis
    by (simp add: validators_def verified_def sample_verified KeyedUri_from_address_def sample_codec_def sample_from_utf8)
qed

lemma sample_select_gateway: "select_gateway sample_net g False () = (Ok (Some \<lparr>gs_uri = \<lparr>ku_uri = [104], ku_pubkey = [1]\<rparr>\<rparr>), ())"
proof -
  have "pick_uri sample_net us () = (case us of [] \<Rightarrow> None | u # _ \<Rightarrow> Some u, ())" for us
    by (simp add: sample_net_def sample_gw_def)
  then show ?thesis by (simp add: select_gateway_def random_new_def sample_validators ok_or_def GatewayService_new_def)
qed

lemma sample_streams:
  assumes "d_keypair d = sample_keypair"
  shows "\<exists>rt rp. setup_gateway_streams sample_net d (Some g) () = (Ok (Some (g, rt, rp, sample_region_params)), ())"
proof -
  have r: "region_params_for sample_net g rg sample_keypair () = (Ok sample_region_params, ())" for rg
    by (simp add: region_params_for_def msg_sign_def sample_keypair_def sample_net_def sample_gw_def sample_resp_def
        response_region_params_def RegionParams_from_resp_def Region_from_i32_def sample_regions_def
        sample_region_params_def)
  have "\<exists>rt. gs_routing sample_net g h () = (Ok rt, ())" for h
    by (simp add: gs_routing_def sample_net_def sample_gw_def)
  moreover have "\<exists>rp. gs_region_params sample_net g sample_keypair () = (Ok rp, ())"
    by (simp add: gs_region_params_def msg_sign_def sample_keypair_def sample_net_def sample_gw_def)
  ultimately obtain rt rp where "gs_routing sample_net g (routing_height d) () = (Ok rt, ())"
    "gs_region_params sample_net g sample_keypair () = (Ok rp, ())" by blast
  then show ?thesis by (simp add: setup_gateway_streams_def assms r)
qed

lemma sample_select:
  assumes "d_seed_gateways d = [u]" "d_keypair d = sample_keypair"
  shows "select_step sample_net d (SI_Proceed False) () =
     (Ph_Connected \<lparr>gs_uri = \<lparr>ku_uri = [104], ku_pubkey = [1]\<rparr>\<rparr>, d, (), [Eff_RegionParams sample_region_params])"
  using sample_streams [OF assms(2), of "\<lparr>gs_uri = \<lparr>ku_uri = [104], ku_pubkey = [1]\<rparr>\<rparr>"]
  by (auto simp: select_step_def assms(1) sample_seed sample_select_gateway)

lemma sample_net_routing:
  "handle_routing_update sample_net (sample_dispatcher\<lparr>d_seed_gateways := gws, cache_max_packets := m\<rparr>) (sample_routing_resp 5) =
     Ok (sample_dispatcher\<lparr>d_seed_gateways := gws, cache_max_packets := m, routing_height := 5,
           routers := [(sample_key, sample_entry)], next_channel := 1\<rparr>,
       [Eff_Spawn 0 \<lparr>rc_uri = \<lparr>ku_uri = [104], ku_pubkey = [1]\<rparr>, rc_oui = 1, rc_region = Region 0,
          rc_keypair = sample_keypair, rc_store = RouterStore_new m\<rparr>])"
proof -
  have a: "addr sample_net = sample_codec" by (simp add: sample_net_def sample_gw_def)
  show ?thesis
    by (simp add: handle_routing_update_def sample_routing_resp_def sample_dispatcher_def response_routings_def
        a sample_routing handle_oui_routing_update_def update_router_def start_router_eq Let_def
        removable_def contains_uri_def sample_key_def sample_entry_def)
qed

text \<open>A dispatcher that has connected to the validator and received the routing of one router.\<close>

definition sample_seeds :: "KeyedUri list" where
  "sample_seeds = [\<lparr>ku_uri = [104], ku_pubkey = [1]\<rparr>]"

lemma sample_reached:
  "\<exists>ph. d_reachable sample_hash sample_net (\<lambda>_. None) (sample_dispatcher\<lparr>d_seed_gateways := sample_seeds\<rparr>) ph
     (sample_state\<lparr>d_seed_gateways := sample_seeds\<rparr>)"
proof -
  let ?d = "sample_dispatcher\<lparr>d_seed_gateways := sample_seeds\<rparr>"
  let ?g = "\<lparr>gs_uri = \<lparr>ku_uri = [104], ku_pubkey = [1]\<rparr>\<rparr>"
  have m: "?d = sample_dispatcher\<lparr>d_seed_gateways := sample_seeds, cache_max_packets := 2\<rparr>"
    by (simp add: sample_dispatcher_def)
  have s: "select_step sample_net ?d (SI_Proceed False) () = (Ph_Connected ?g, ?d, (), [Eff_RegionParams sample_region_params])"
    by (rule sample_select) (simp_all add: sample_dispatcher_def sample_seeds_def)
  have 1: "d_reachable sample_hash sample_net (\<lambda>_. None) ?d (Ph_Connected ?g) ?d"
    by (rule d_next [OF d_start, where i = "RU_Select (SI_Proceed False)" and w = "()"]) (simp add: d_step_def s)
  have "d_reachable sample_hash sample_net (\<lambda>_. None) ?d (Ph_Connected ?g) (sample_state\<lparr>d_seed_gateways := sample_seeds\<rparr>)"
    by (rule d_next [OF 1, where i = "RU_Connected (DI_Stream (Some (GS_Routing, Ok (sample_routing_resp 5))))" and w = "()"])
      (subst m, simp add: d_step_def run_with_gateway_step_def sample_net_routing,
       simp add: sample_state_def sample_dispatcher_def)
  then show ?thesis ..
qed

theorem routers_invariant_witness:
  "\<exists>d0 ph d. Dispatcher_new sample_keypair (Region 0) sample_seeds None 2 = Ok d0 \<and>
     d_reachable sample_hash sample_net (\<lambda>_. None) d0 ph d \<and> routers d = [(sample_key, sample_entry)] \<and>
     rk_oui sample_key = oui (re_routing sample_entry) \<and> contains_uri (re_routing sample_entry) (rk_uri sample_key)"
proof -
  have n: "Dispatcher_new sample_keypair (Region 0) sample_seeds None 2 = Ok (sample_dispatcher\<lparr>d_seed_gateways := sample_seeds\<rparr>)"
    by (simp add: Dispatcher_new_def sample_dispatcher_def)
  obtain ph where r: "d_reachable sample_hash sample_net (\<lambda>_. None) (sample_dispatcher\<lparr>d_seed_gateways := sample_seeds\<rparr>) ph
      (sample_state\<lparr>d_seed_gateways := sample_seeds\<rparr>)" using sample_reached by blast
  have e: "routers (sample_state\<lparr>d_seed_gateways := sample_seeds\<rparr>) = [(sample_key, sample_entry)]" by (simp add: sample_state_def)
  with routers_invariant [OF n r]
  have "rk_oui sample_key = oui (re_routing sample_entry) \<and> contains_uri (re_routing sample_entry) (rk_uri sample_key)" by simp
  with n r e show ?thesis by blast
qed

text \<open>
  C2. A routing update of one organization, seen on the map from keys to routings, sets the
  entry of every address it lists and changes nothing else: known routers keep their channel,
  and no router is stopped. In particular a router whose address the update no longer lists
  stays in the map with its old routing.
\<close>

theorem routing_update_refines:
  assumes "routers_ok d"
  shows "router_table (fst (handle_oui_routing_update r d)) =
      (\<lambda>k. if rk_oui k = oui r \<and> rk_uri k \<in> set (uris r) then Some r else router_table d k) \<and>
    (\<forall>k\<in>dom (router_channel d).
       router_channel (fst (handle_oui_routing_update r d)) k = router_channel d k) \<and>
    stops (snd (handle_oui_routing_update r d)) = []"
proof -
  have "k \<in> router_key r ` set (uris r) \<longleftrightarrow> rk_oui k = oui r \<and> rk_uri k \<in> set (uris r)" for k
    by (cases k) (auto simp: router_key_def image_iff)
  then show ?thesis
    using update_routers_all [OF assms order_refl, of r] by (simp only: handle_oui_routing_update_eq [OF assms]) simp
qed

theorem routing_update_refines_witness:
  "router_table (fst (handle_oui_routing_update
       \<lparr>oui = 1, uris = [\<lparr>ku_uri = [105], ku_pubkey = [2]\<rparr>], filters = [], subnets = []\<rparr> sample_state)) sample_key =
     Some (re_routing sample_entry)"
  using routing_update_refines [OF sample_state_ok,
      of "\<lparr>oui = 1, uris = [\<lparr>ku_uri = [105], ku_pubkey = [2]\<rparr>], filters = [], subnets = []\<rparr>"]
  by (simp add: sample_key_def router_table_def sample_state_def)

definition uplink_targets :: "filter_hash \<Rightarrow> Dispatcher \<Rightarrow> Packet \<Rightarrow> RouterKey set" where
  "uplink_targets H d p =
     (let matching = {k. \<exists>r. router_table d k = Some r \<and> matches_routing_info H r (p_routing p)}
      in if matching \<noteq> {} then matching
         else {k \<in> dom (router_table d). \<exists>def. default_routers d = Some def \<and> rk_uri k \<in> set def})"

lemma map_of_routers:
  assumes "routers_ok d"
  shows "(k, e) \<in> set (routers d) \<longleftrightarrow> map_of (routers d) k = Some e"
  using assms by (simp add: routers_ok_def)

lemma filter_targets:
  assumes "routers_ok d"
  shows "distinct (map (\<lambda>(_, e). Eff_Router (re_dispatch e) msg) (filter P (routers d)))"
    and "set (map (\<lambda>(_, e). Eff_Router (re_dispatch e) msg) (filter P (routers d))) =
      (\<lambda>k. Eff_Router (the (router_channel d k)) msg) ` {k. \<exists>e. map_of (routers d) k = Some e \<and> P (k, e)}"
proof -
  have "distinct (map (re_dispatch \<circ> snd) (filter P (routers d)))"
    using assms by (simp add: routers_ok_def distinct_map_filter)
  then show "distinct (map (\<lambda>(_, e). Eff_Router (re_dispatch e) msg) (filter P (routers d)))"
    by (auto simp: distinct_map inj_on_def)
  show "set (map (\<lambda>(_, e). Eff_Router (re_dispatch e) msg) (filter P (routers d))) =
      (\<lambda>k. Eff_Router (the (router_channel d k)) msg) ` {k. \<exists>e. map_of (routers d) k = Some e \<and> P (k, e)}"
    by (auto simp: map_of_routers [OF assms] router_channel_def image_iff) force+
qed

lemma d_handle_uplink_targets:
  assumes "routers_ok d"
  shows "distinct (d_handle_uplink H d p t) \<and>
    set (d_handle_uplink H d p t) =
      (\<lambda>k. Eff_Router (the (router_channel d k)) (RM_Uplink p t)) ` uplink_targets H d p"
proof -
  let ?P = "\<lambda>(_ :: RouterKey, e). matches_routing_info H (re_routing e) (p_routing p)"
  let ?M = "{k. \<exists>r. router_table d k = Some r \<and> matches_routing_info H r (p_routing p)}"
  have M: "{k. \<exists>e. map_of (routers d) k = Some e \<and> ?P (k, e)} = ?M"
    by (auto simp: router_table_def)
  have e: "filter ?P (routers d) = [] \<longleftrightarrow> ?M = {}"
    unfolding M [symmetric] by (auto simp: filter_empty_conv map_of_routers [OF assms])
  note f = filter_targets [OF assms, of "RM_Uplink p t"]
  show ?thesis
  proof (cases "?M = {}")
    case True
    show ?thesis
    proof (cases "default_routers d")
      case None
      with True e show ?thesis by (simp add: d_handle_uplink_def uplink_targets_def Let_def)
    next
      case (Some def)
      have D: "{k. \<exists>e. map_of (routers d) k = Some e \<and> (\<lambda>(k, _). List.member def (rk_uri k)) (k, e)} =
          {k \<in> dom (router_table d). rk_uri k \<in> set def}"
        by (auto simp: router_table_def)
      with True e Some f [of "\<lambda>(k, _). List.member def (rk_uri k)"] show ?thesis
        by (simp only: d_handle_uplink_def uplink_targets_def Let_def) (simp add: D)
    qed
  next
    case False
    with e f [of ?P] show ?thesis
      by (simp only: d_handle_uplink_def uplink_targets_def Let_def M) simp
  qed
qed

text \<open>
  C3. An uplink is put once into the channel of every router whose routing matches the
  packet, and into no other; only if no routing matches, it is put into the channels of those
  routers in the map that are among the default routers.
\<close>

theorem uplink_dispatch:
  assumes "routers_ok d"
  shows "distinct (d_handle_uplink H d p t) \<and>
    set (d_handle_uplink H d p t) =
      (\<lambda>k. Eff_Router (the (router_channel d k)) (RM_Uplink p t)) ` uplink_targets H d p"
  using assms by (rule d_handle_uplink_targets)

theorem uplink_dispatch_witness:
  "set (d_handle_uplink sample_hash sample_state
     (sample_packet 1\<lparr>p_routing := Some \<lparr>ri_data = Some (RD_Devaddr 1024)\<rparr>\<rparr>) 7) =
   {Eff_Router 0 (RM_Uplink (sample_packet 1\<lparr>p_routing := Some \<lparr>ri_data = Some (RD_Devaddr 1024)\<rparr>\<rparr>) 7)}"
proof -
  let ?p = "sample_packet 1\<lparr>p_routing := Some \<lparr>ri_data = Some (RD_Devaddr 1024)\<rparr>\<rparr>"
  have "{k. \<exists>r. router_table sample_state k = Some r \<and> matches_routing_info sample_hash r (p_routing ?p)} = {sample_key}"
    by (auto simp: router_table_def sample_state_def sample_entry_def matches_routing_info_def
        DevAddrFilter_contains_def BITS_23_def split: if_splits)
  then have "uplink_targets sample_hash sample_state ?p = {sample_key}" by (simp add: uplink_targets_def)
  moreover have "router_channel sample_state sample_key = Some 0"
    by (simp add: router_channel_def sample_state_def sample_entry_def)
  ultimately show ?thesis using uplink_dispatch [OF sample_state_ok, of sample_hash ?p 7] by simp
qed

lemma update_routings_panic:
  "(update_routings A ps d = Panic \<longleftrightarrow> (\<exists>p\<in>set ps. \<not> proto_ok p)) \<and> (\<forall>e. update_routings A ps d \<noteq> Err e)"
proof (induction A ps d rule: update_routings.induct)
  case (1 A d)
  then show ?case by simp
next
  case (2 A p ps d)
  show ?case
  proof (cases "Routing_from_proto A p")
    case (Ok r)
    obtain d1 eff where h: "handle_oui_routing_update r d = (d1, eff)" by fastforce
    from Ok have "proto_ok p" using Routing_from_proto_cases [of p A] by (auto split: if_splits)
    with 2(1) [OF Ok h [symmetric] refl] Ok h show ?thesis
      by (auto simp: bind_r_Panic_iff bind_r_Err_iff)
  next
    case (Err e)
    then show ?thesis using Routing_from_proto_cases [of p A] by (auto split: if_splits)
  next
    case Panic
    then show ?thesis using Routing_from_proto_cases [of p A] by (auto split: if_splits)
  qed
qed

text \<open>
  The heights of the routing and the region stream never go down while updates arrive,
  whatever they carry, and an update that arrives again changes nothing and causes no effect.
\<close>

theorem update_heights:
  "routing_height d \<le> routing_height (foldl (routing_upd X) d ms) \<and>
   region_height d \<le> region_height (foldl (region_upd X) d ms) \<and>
   handle_region_params_update X (region_upd X d m) m = (region_upd X d m, []) \<and>
   handle_routing_update X (routing_upd X d m) m \<in> {Ok (routing_upd X d m, []), Panic}"
proof (intro conjI)
  show "routing_height d \<le> routing_height (foldl (routing_upd X) d ms)" by (rule routing_gate.levels_mono)
  show "region_height d \<le> region_height (foldl (region_upd X) d ms)" by (rule region_gate.levels_mono)
  show "handle_region_params_update X (region_upd X d m) m = (region_upd X d m, [])"
    by (auto simp: region_upd_def handle_region_params_update_def Let_def split: rresult.splits)
  show "handle_routing_update X (routing_upd X d m) m \<in> {Ok (routing_upd X d m, []), Panic}"
  proof (cases "handle_routing_update X d m")
    case (Ok r)
    then show ?thesis
      by (auto simp: routing_upd_def handle_routing_update_def Let_def bind_r_Ok_iff
          split: if_splits rresult.splits)
  next
    case (Err e)
    then show ?thesis
      using update_routings_panic
      by (auto simp: handle_routing_update_def Let_def bind_r_Err_iff split: if_splits rresult.splits)
  next
    case Panic
    then show ?thesis by (simp add: routing_upd_def)
  qed
qed

text \<open>
  A newer region update with valid parameters sets the region and its height, and tells
  the gateway once and every router once; no other message is sent.
\<close>

theorem region_update_reaches_all:
  assumes "region_height d < gr_height resp" and "response_region_params X resp = Ok rp" and "routers_ok d"
  shows "\<exists>d' eff. handle_region_params_update X d resp = (d', eff) \<and>
    d_region d' = region rp \<and> region_height d' = gr_height resp \<and> router_table d' = router_table d \<and>
    distinct eff \<and>
    set eff = insert (Eff_RegionParams rp)
      ((\<lambda>k. Eff_Router (the (router_channel d k)) (RM_RegionChanged (region rp))) ` dom (router_table d))"
proof -
  have f: "filter (\<lambda>_. True) (routers d) = routers d" by simp
  have dom: "{k. \<exists>e. map_of (routers d) k = Some e \<and> True} = dom (router_table d)"
    by (auto simp: router_table_def)
  note t = filter_targets [OF assms(3), of "RM_RegionChanged (region rp)" "\<lambda>_. True", unfolded f dom]
  have "\<not> gr_height resp \<le> region_height d" using assms(1) by (simp add: not_le)
  then show ?thesis
    using assms(2) t by (auto simp: handle_region_params_update_def Let_def router_table_def fun_eq_iff)
qed

text \<open>
  C23. A routing update ends the process exactly when it is newer, carries routing entries and
  one of them has a malformed filter or subnet; otherwise it is handled, and after a handled
  update with routing entries the routing height is that of the update.
\<close>

theorem routing_update_panics_iff:
  "(handle_routing_update X d resp = Panic \<longleftrightarrow>
     routing_height d < gr_height resp \<and>
     (\<exists>ps. gr_msg resp = Some (GM_RoutingStreamed ps) \<and> (\<exists>p\<in>set ps. \<not> proto_ok p))) \<and>
   (\<forall>e. handle_routing_update X d resp \<noteq> Err e) \<and>
   (\<forall>d' eff ps. handle_routing_update X d resp = Ok (d', eff) \<and> gr_msg resp = Some (GM_RoutingStreamed ps) \<and>
      routing_height d < gr_height resp \<longrightarrow> routing_height d' = gr_height resp)"
proof -
  have r: "response_routings X resp = Ok ps \<longleftrightarrow> gr_msg resp = Some (GM_RoutingStreamed ps)" for ps
    by (auto simp: response_routings_def split: option.splits GwMsg.splits)
  have p: "response_routings X resp \<noteq> Panic"
    by (auto simp: response_routings_def split: option.splits GwMsg.splits)
  show ?thesis
  proof (cases "response_routings X resp")
    case (Ok ps)
    then have "gr_msg resp = Some (GM_RoutingStreamed ps)" using r [of ps] by simp
    with Ok show ?thesis
      using update_routings_panic [of "addr X" ps d]
      by (auto simp: handle_routing_update_def Let_def bind_r_Panic_iff bind_r_Err_iff bind_r_Ok_iff)
  next
    case (Err e)
    then have "gr_msg resp \<noteq> Some (GM_RoutingStreamed ps)" for ps using r [of ps] by auto
    with Err show ?thesis by (simp add: handle_routing_update_def Let_def)
  next
    case Panic
    with p show ?thesis by simp
  qed
qed

theorem routing_update_panics_iff_witness:
  "handle_routing_update sample_gw sample_dispatcher
     \<lparr>gr_height = 1, gr_block_age = 0, gr_signature = [42],
      gr_msg = Some (GM_RoutingStreamed [\<lparr>pr_oui = 1, pr_addresses = [], pr_filters = [], pr_subnets = [[]]\<rparr>])\<rparr> = Panic"
  using conjunct1 [OF routing_update_panics_iff [of sample_gw sample_dispatcher
     "\<lparr>gr_height = 1, gr_block_age = 0, gr_signature = [42],
      gr_msg = Some (GM_RoutingStreamed [\<lparr>pr_oui = 1, pr_addresses = [], pr_filters = [], pr_subnets = [[]]\<rparr>])\<rparr>"]]
  by (simp add: proto_ok_def sample_dispatcher_def)

text \<open>
  The periodic check keeps a validator, and clears the retry count, exactly when it
  reports a block age of at most 1800 seconds; otherwise the dispatcher leaves it. Before the
  next selection both heights are reset, so that any update of the next validator with a
  positive height is newer, and the retry count goes up by one.
\<close>

theorem gateway_check_and_change:
  "(case d_step H X B (Ph_Connected g) d (RU_Connected DI_Check) w of (ph, d', w', eff) \<Rightarrow>
      if \<exists>h age. fst (gs_height X g w) = Ok (h, age) \<and> unat age \<le> 1800
      then ph = Ph_Connected g \<and> d' = d\<lparr>gateway_retry := 0\<rparr> \<and> eff = []
      else ph = Ph_Wait \<and> d' = d \<and> eff = []) \<and>
   (i \<noteq> WI_Triggered \<longrightarrow>
     (case d_step H X B Ph_Wait d (RU_Wait i) w of (ph, d', w', eff) \<Rightarrow>
        ph = Ph_Select \<and> routing_height d' = 0 \<and> region_height d' = 0 \<and>
        gateway_retry d' = gateway_retry d + 1 \<and> router_table d' = router_table d))"
proof (intro conjI impI)
  obtain r w1 where h: "gs_height X g w = (r, w1)" by fastforce
  show "case d_step H X B (Ph_Connected g) d (RU_Connected DI_Check) w of (ph, d', w', eff) \<Rightarrow>
      if \<exists>h age. fst (gs_height X g w) = Ok (h, age) \<and> unat age \<le> 1800
      then ph = Ph_Connected g \<and> d' = d\<lparr>gateway_retry := 0\<rparr> \<and> eff = []
      else ph = Ph_Wait \<and> d' = d \<and> eff = []"
    by (cases r) (auto simp: d_step_def run_with_gateway_step_def check_gateway_def h GATEWAY_MAX_BLOCK_AGE_def
        word_less_nat_alt split: prod.splits)
next
  assume "i \<noteq> WI_Triggered"
  then show "case d_step H X B Ph_Wait d (RU_Wait i) w of (ph, d', w', eff) \<Rightarrow>
        ph = Ph_Select \<and> routing_height d' = 0 \<and> region_height d' = 0 \<and>
        gateway_retry d' = gateway_retry d + 1 \<and> router_table d' = router_table d"
    by (auto simp: d_step_def prepare_gateway_change_def Let_def router_table_def fun_eq_iff
        split: wait_input.splits option.splits prod.splits)
qed

end
