(* ===== verification/Server.thy ===== *)
theory Server
  imports Local_Api Settings Gateway_Udp Dispatcher_Props
begin

text \<open>
  The running server (\<^verbatim>\<open>src/server.rs\<close>): the beaconer, the gateway, the dispatcher with its
  router clients, the updater and the local API, joined in one process and connected by bounded
  message channels. A task handles one input at a time; the effects of handling it, sends into
  channels among them, are carried out one by one before the task looks at its next input, and a
  send waits while the channel is full. Which task makes the next move, and what comes in from the
  outside, is given by a label, so that a run is a list of labels. The channels of \<^verbatim>\<open>tokio\<close> are
  parameters with their documented laws \<open>mpsc_ok\<close>. The release profile aborts on a panic.
\<close>

section \<open>Channels\<close>

record ('m, 'q) mpsc =
  mp_new :: "nat \<Rightarrow> 'q"
  mp_send :: "'m \<Rightarrow> 'q \<Rightarrow> 'q option"
  mp_recv :: "'q \<Rightarrow> ('m \<times> 'q) option"
  mp_contents :: "'q \<Rightarrow> 'm list"
  mp_capacity :: "'q \<Rightarrow> nat"

text \<open>
  A bounded channel keeps its messages in order; a send is not completed (\<open>None\<close>) exactly while
  the channel is full, and there is something to receive exactly when it is not empty.
\<close>

definition mpsc_ok :: "('m, 'q) mpsc \<Rightarrow> bool" where
  "mpsc_ok C \<longleftrightarrow>
     (\<forall>n. 0 < n \<longrightarrow> mp_contents C (mp_new C n) = [] \<and> mp_capacity C (mp_new C n) = n) \<and>
     (\<forall>m q. mp_send C m q = None \<longleftrightarrow> mp_capacity C q \<le> length (mp_contents C q)) \<and>
     (\<forall>m q q'. mp_send C m q = Some q' \<longrightarrow>
        mp_contents C q' = mp_contents C q @ [m] \<and> mp_capacity C q' = mp_capacity C q) \<and>
     (\<forall>q. mp_recv C q = None \<longleftrightarrow> mp_contents C q = []) \<and>
     (\<forall>m q q'. mp_recv C q = Some (m, q') \<longrightarrow>
        mp_contents C q = m # mp_contents C q' \<and> mp_capacity C q' = mp_capacity C q)"

text \<open>
  The channels of the program and the senders of its components. Each of these awaits the send
  without a time limit; the errors of a closed channel are ignored by their callers.
\<close>

definition message_channel :: "('m, 'q) mpsc \<Rightarrow> nat \<Rightarrow> 'q" where
  "message_channel C n = mp_new C n"

definition beaconer_received_beacon :: "(beaconer_message, 'q) mpsc \<Rightarrow> Packet \<Rightarrow> 'q \<Rightarrow> 'q option" where
  "beaconer_received_beacon C packet q = mp_send C (BM_ReceivedBeacon packet) q"

definition beaconer_region_params_changed :: "(beaconer_message, 'q) mpsc \<Rightarrow> RegionParams \<Rightarrow> 'q \<Rightarrow> 'q option" where
  "beaconer_region_params_changed C region_params q = mp_send C (BM_RegionParamsChanged region_params) q"

definition gateway_downlink :: "(gw_message, 'q) mpsc \<Rightarrow> Packet \<Rightarrow> 'q \<Rightarrow> 'q option" where
  "gateway_downlink C packet q = mp_send C (GW_Downlink packet) q"

definition gateway_transmit_beacon :: "(gw_message, 'q) mpsc \<Rightarrow> Beacon \<Rightarrow> 'q \<Rightarrow> 'q option" where
  "gateway_transmit_beacon C beacon q = mp_send C (GW_TransmitBeacon beacon) q"

definition gateway_region_params_changed :: "(gw_message, 'q) mpsc \<Rightarrow> RegionParams \<Rightarrow> 'q \<Rightarrow> 'q option" where
  "gateway_region_params_changed C region_params q = mp_send C (GW_RegionParamsChanged region_params) q"

definition dispatcher_uplink :: "(d_message, 'q) mpsc \<Rightarrow> Packet \<Rightarrow> instant \<Rightarrow> 'q \<Rightarrow> 'q option" where
  "dispatcher_uplink C packet received_time q = mp_send C (DM_Uplink packet received_time) q"

lemmas sender_defs [simp] = message_channel_def beaconer_received_beacon_def beaconer_region_params_changed_def
  gateway_downlink_def gateway_transmit_beacon_def gateway_region_params_changed_def dispatcher_uplink_def

section \<open>The state of the server\<close>

text \<open>
  Next to the tasks' own data and channels there are, for every task, the effects of its last input
  that it has still to carry out. Of the local API, the requests that involve the dispatcher are
  kept, one response channel each, numbered in the order they are made: \<open>api_flight\<close> are those whose
  handlers have not ended and \<open>api_wait\<close> the messages of handlers that wait for room in the
  dispatcher's channel.
\<close>

datatype task = T_Beaconer | T_Gateway | T_Dispatcher | T_Updater | T_Api

record ('w, 'g, 'd, 'b, 'c) server =
  sv_beaconer :: Beaconer
  sv_gateway :: Gateway
  sv_dispatcher :: Dispatcher
  sv_phase :: d_phase
  sv_updater :: Updater
  sv_api :: LocalServer
  sv_clients :: "nat \<rightharpoonup> RouterClient"
  beaconer_q :: 'b
  gateway_q :: 'g
  dispatcher_q :: 'd
  client_q :: "nat \<Rightarrow> 'c"
  beaconer_out :: "beaconer_effect list"
  gateway_out :: "gw_effect list"
  dispatcher_out :: "effect list"
  client_out :: "nat \<Rightarrow> rc_event list"
  api_wait :: "d_message list"
  api_flight :: "nat set"
  api_next :: nat
  sv_returned :: "task set"
  sv_result :: "unit gw_result option"
  sv_world :: 'w

record ('w, 'n, 'r, 'g, 'd, 'b, 'c) server_ext =
  sx_hash :: filter_hash
  sx_validator :: "'w gw_ext"
  sx_backoff :: "u32 \<Rightarrow> duration \<Rightarrow> duration \<Rightarrow> u32 \<Rightarrow> duration option"
  sx_udp :: "('w, 'n) udp_ext"
  sx_udp_bind :: "string \<Rightarrow> 'w \<Rightarrow> (foreign + unit) \<times> 'w"
  sx_default_mac :: mac
  sx_beaconer :: "('w, 'r) beaconer_ext"
  sx_router :: "KeyedUri \<Rightarrow> 'w router_ext"
  sx_updater :: "'w updater_ext"
  sx_keypair :: "'w keypair_ext"
  sx_gateway_ch :: "(gw_message, 'g) mpsc"
  sx_dispatcher_ch :: "(d_message, 'd) mpsc"
  sx_beaconer_ch :: "(beaconer_message, 'b) mpsc"
  sx_client_ch :: "(rc_message, 'c) mpsc"

datatype sv_output =
    O_Ingest beaconer_effect
  | O_Radio mac TxPk
  | O_Router nat SCMessage
  | O_Reply nat reply

text \<open>The part of \<^verbatim>\<open>server::run\<close> before the tasks are joined.\<close>

definition server_start ::
  "('w, 'n, 'r, 'g, 'd, 'b, 'c) server_ext \<Rightarrow> 'l Settings \<Rightarrow> 'w \<Rightarrow> ('w, 'g, 'd, 'b, 'c) server gw_result \<times> 'w" where
  "server_start X settings w =
     (let gateway_ch = message_channel (sx_gateway_ch X) 10;
          dispatcher_ch = message_channel (sx_dispatcher_ch X) 20;
          beaconing_ch = message_channel (sx_beaconer_ch X) 10;
          beaconer = Beaconer_new (set_keypair settings) (set_poc settings) in
      case Dispatcher_new (set_keypair settings) (set_region settings) (set_gateways settings)
             (set_routers settings) (max_packets_setting (set_cache settings)) of
        Ok dispatcher \<Rightarrow>
          (case sx_udp_bind X (set_listen settings) w of
             (Inr _, w) \<Rightarrow>
               (let gateway = Gateway_new (sx_default_mac X) (set_listen settings) in
                case Updater_new (set_update settings) of
                  Ok updater \<Rightarrow>
                    (let (onboarding, w) = onboarding_key (sx_keypair X) settings w in
                     (map_ok (\<lambda>api.
                        \<lparr>sv_beaconer = beaconer, sv_gateway = gateway, sv_dispatcher = dispatcher,
                         sv_phase = Ph_Select, sv_updater = updater, sv_api = api, sv_clients = Map.empty,
                         beaconer_q = beaconing_ch, gateway_q = gateway_ch, dispatcher_q = dispatcher_ch,
                         client_q = (\<lambda>_. message_channel (sx_client_ch X) 10), beaconer_out = [], gateway_out = [],
                         dispatcher_out = [], client_out = (\<lambda>_. []), api_wait = [], api_flight = {}, api_next = 0,
                         sv_returned = {}, sv_result = None, sv_world = w\<rparr>)
                        (LocalServer_new (set_keypair settings) onboarding (set_api settings)), w))
                | Err e \<Rightarrow> (Err e, w)
                | Panic \<Rightarrow> (Panic, w))
           | (Inl e, w) \<Rightarrow> (Err (Error_Semtech e), w))
      | Err e \<Rightarrow> (Err e, w)
      | Panic \<Rightarrow> (Panic, w))"

text \<open>
  \<^verbatim>\<open>try_join!\<close>: the server returns when all tasks have returned, or with the first error;
  a panic in any of them ends the process.
\<close>

definition all_tasks :: "task set" where
  "all_tasks = {T_Beaconer, T_Gateway, T_Dispatcher, T_Updater, T_Api}"

definition finish :: "task \<Rightarrow> unit gw_result \<Rightarrow> ('w, 'g, 'd, 'b, 'c) server \<Rightarrow> ('w, 'g, 'd, 'b, 'c) server" where
  "finish t r s =
     (case r of
        Ok _ \<Rightarrow>
          (let s = s\<lparr>sv_returned := insert t (sv_returned s)\<rparr>
           in if all_tasks \<subseteq> sv_returned s then s\<lparr>sv_result := Some (Ok ())\<rparr> else s)
      | _ \<Rightarrow> s\<lparr>sv_result := Some r\<rparr>)"

definition crash :: "('w, 'g, 'd, 'b, 'c) server \<Rightarrow> ('w, 'g, 'd, 'b, 'c) server" where
  "crash s = s\<lparr>sv_result := Some Panic\<rparr>"

section \<open>The gateway task\<close>

definition gateway_ready :: "('w, 'g, 'd, 'b, 'c) server \<Rightarrow> bool" where
  "gateway_ready s \<longleftrightarrow> sv_result s = None \<and> T_Gateway \<notin> sv_returned s \<and> gateway_out s = []"

definition gateway_input ::
  "('w, 'n, 'r, 'g, 'd, 'b, 'c) server_ext \<Rightarrow> gw_input \<Rightarrow> ('w, 'g, 'd, 'b, 'c) server \<Rightarrow> ('w, 'g, 'd, 'b, 'c) server" where
  "gateway_input X i s =
     (case g_step (sx_udp X) (sv_gateway s) i (sv_world s) of
        Inr (g, w, eff) \<Rightarrow> s\<lparr>sv_gateway := g, sv_world := w, gateway_out := eff\<rparr>
      | Inl r \<Rightarrow> finish T_Gateway r s)"

definition gateway_do ::
  "('w, 'n, 'r, 'g, 'd, 'b, 'c) server_ext \<Rightarrow> gw_effect \<Rightarrow> ('w, 'g, 'd, 'b, 'c) server \<Rightarrow>
   (('w, 'g, 'd, 'b, 'c) server \<times> sv_output list) option" where
  "gateway_do X e s =
     (case e of
        GE_ReceivedBeacon p \<Rightarrow>
          map_option (\<lambda>q. (s\<lparr>beaconer_q := q\<rparr>, [])) (beaconer_received_beacon (sx_beaconer_ch X) p (beaconer_q s))
      | GE_BeaconerRegion rp \<Rightarrow>
          map_option (\<lambda>q. (s\<lparr>beaconer_q := q\<rparr>, [])) (beaconer_region_params_changed (sx_beaconer_ch X) rp (beaconer_q s))
      | GE_Uplink p t \<Rightarrow>
          map_option (\<lambda>q. (s\<lparr>dispatcher_q := q\<rparr>, [])) (dispatcher_uplink (sx_dispatcher_ch X) p t (dispatcher_q s))
      | GE_Dispatch m tx \<Rightarrow> Some (s, [O_Radio m tx]))"

section \<open>The beaconer task\<close>

definition beaconer_ready :: "('w, 'g, 'd, 'b, 'c) server \<Rightarrow> bool" where
  "beaconer_ready s \<longleftrightarrow> sv_result s = None \<and> T_Beaconer \<notin> sv_returned s \<and> beaconer_out s = []"

definition beaconer_input ::
  "('w, 'n, 'r, 'g, 'd, 'b, 'c) server_ext \<Rightarrow> beaconer_event \<Rightarrow> ('w, 'g, 'd, 'b, 'c) server \<Rightarrow> ('w, 'g, 'd, 'b, 'c) server" where
  "beaconer_input X ev s =
     (if ev = BT_Shutdown then finish T_Beaconer (Ok ()) s
      else case bc_step (sx_beaconer X) (sv_beaconer s) ev (sv_world s) of
        Some (b, w, eff) \<Rightarrow> s\<lparr>sv_beaconer := b, sv_world := w, beaconer_out := eff\<rparr>
      | None \<Rightarrow> crash s)"

text \<open>
  The task makes its timer before it waits for anything, as in \<open>bc_run\<close>: with a period that panics
  its first turn ends the process. The period never changes.
\<close>

definition beaconer_turn ::
  "('w, 'g, 'd, 'b, 'c) server \<Rightarrow> (('w, 'g, 'd, 'b, 'c) server \<times> sv_output list) option \<Rightarrow>
   (('w, 'g, 'd, 'b, 'c) server \<times> sv_output list) option" where
  "beaconer_turn s r =
     (if \<not> beaconer_ready s then None
      else if interval_panics (bc_interval (sv_beaconer s)) then Some (crash s, [])
      else r)"

declare beaconer_turn_def [simp]

definition beaconer_do ::
  "('w, 'n, 'r, 'g, 'd, 'b, 'c) server_ext \<Rightarrow> beaconer_effect \<Rightarrow> ('w, 'g, 'd, 'b, 'c) server \<Rightarrow>
   (('w, 'g, 'd, 'b, 'c) server \<times> sv_output list) option" where
  "beaconer_do X e s =
     (case e of
        BX_Transmit beacon \<Rightarrow>
          map_option (\<lambda>q. (s\<lparr>gateway_q := q\<rparr>, [])) (gateway_transmit_beacon (sx_gateway_ch X) beacon (gateway_q s))
      | _ \<Rightarrow> Some (s, [O_Ingest e]))"

section \<open>The dispatcher task\<close>

definition dispatcher_ready :: "('w, 'g, 'd, 'b, 'c) server \<Rightarrow> bool" where
  "dispatcher_ready s \<longleftrightarrow> sv_result s = None \<and> T_Dispatcher \<notin> sv_returned s \<and> dispatcher_out s = []"

text \<open>How long the dispatcher waits before its next try; the schedule is the crate \<^verbatim>\<open>exponential_backoff\<close>'s.\<close>

definition gateway_backoff :: "('w, 'n, 'r, 'g, 'd, 'b, 'c) server_ext \<Rightarrow> u32 \<Rightarrow> duration option" where
  "gateway_backoff X = sx_backoff X GATEWAY_BACKOFF_RETRIES GATEWAY_BACKOFF_MIN_WAIT GATEWAY_BACKOFF_MAX_WAIT"

definition dispatcher_input ::
  "('w, 'n, 'r, 'g, 'd, 'b, 'c) server_ext \<Rightarrow> run_input \<Rightarrow> ('w, 'g, 'd, 'b, 'c) server \<Rightarrow> ('w, 'g, 'd, 'b, 'c) server" where
  "dispatcher_input X i s =
     (case d_step (sx_hash X) (sx_validator X) (gateway_backoff X) (sv_phase s) (sv_dispatcher s) i (sv_world s) of
        (ph, d, w, eff) \<Rightarrow>
          (let s = s\<lparr>sv_phase := ph, sv_dispatcher := d, sv_world := w, dispatcher_out := eff\<rparr>
           in case ph of Ph_Done r \<Rightarrow> finish T_Dispatcher r s | _ \<Rightarrow> s))"

text \<open>The inputs that take a message from the dispatcher's own channel.\<close>

definition takes_message :: "run_input \<Rightarrow> bool" where
  "takes_message i =
     (case i of RU_Connected (DI_Message _) \<Rightarrow> True | RU_Wait (WI_Message _) \<Rightarrow> True | _ \<Rightarrow> False)"

definition message_input :: "d_phase \<Rightarrow> d_message \<Rightarrow> run_input option" where
  "message_input ph m =
     (case ph of
        Ph_Connected _ \<Rightarrow> Some (RU_Connected (DI_Message (Some m)))
      | Ph_Wait \<Rightarrow> Some (RU_Wait (WI_Message (Some m)))
      | _ \<Rightarrow> None)"

text \<open>
  A send to a router client that has returned fails, and the failure is ignored, as is that of an
  answer whose request has gone. An answer ends the handler that waits for it.
\<close>

definition dispatcher_do ::
  "('w, 'n, 'r, 'g, 'd, 'b, 'c) server_ext \<Rightarrow> effect \<Rightarrow> ('w, 'g, 'd, 'b, 'c) server \<Rightarrow>
   (('w, 'g, 'd, 'b, 'c) server \<times> sv_output list) option" where
  "dispatcher_do X e s =
     (case e of
        Eff_Spawn ch c \<Rightarrow>
          Some (s\<lparr>sv_clients := (sv_clients s)(ch \<mapsto> c),
                  client_q := (client_q s)(ch := message_channel (sx_client_ch X) 10),
                  client_out := (client_out s)(ch := [])\<rparr>, [])
      | Eff_Router ch m \<Rightarrow>
          (case sv_clients s ch of
             None \<Rightarrow> Some (s, [])
           | Some _ \<Rightarrow>
               map_option (\<lambda>q. (s\<lparr>client_q := (client_q s)(ch := q)\<rparr>, [])) (mp_send (sx_client_ch X) m (client_q s ch)))
      | Eff_RegionParams rp \<Rightarrow>
          map_option (\<lambda>q. (s\<lparr>gateway_q := q\<rparr>, [])) (gateway_region_params_changed (sx_gateway_ch X) rp (gateway_q s))
      | Eff_Reply n r \<Rightarrow> Some (s\<lparr>api_flight := api_flight s - {n}\<rparr>, [O_Reply n r]))"

section \<open>The router client tasks\<close>

text \<open>What a client hands to the gateway goes through the gateway's channel, below.\<close>

definition client_ext :: "('w, 'n, 'r, 'g, 'd, 'b, 'c) server_ext \<Rightarrow> RouterClient \<Rightarrow> 'w router_ext" where
  "client_ext X c = (sx_router X (rc_uri c))\<lparr>send_downlink := \<lambda>_ w. (True, w)\<rparr>"

definition client_input ::
  "('w, 'n, 'r, 'g, 'd, 'b, 'c) server_ext \<Rightarrow> nat \<Rightarrow> RouterClient \<Rightarrow> rc_input \<Rightarrow>
   ('w, 'g, 'd, 'b, 'c) server \<Rightarrow> ('w, 'g, 'd, 'b, 'c) server" where
  "client_input X ch c i s =
     (case rc_step (client_ext X c) c i (sv_world s) of
        (Running c, w, ev) \<Rightarrow>
          s\<lparr>sv_clients := (sv_clients s)(ch \<mapsto> c), sv_world := w, client_out := (client_out s)(ch := ev)\<rparr>
      | (Returned Panic, w, ev) \<Rightarrow> crash s
      | (Returned _, w, ev) \<Rightarrow> s\<lparr>sv_clients := (sv_clients s)(ch := None), sv_world := w\<rparr>)"

definition client_ready :: "nat \<Rightarrow> ('w, 'g, 'd, 'b, 'c) server \<Rightarrow> bool" where
  "client_ready ch s \<longleftrightarrow> sv_result s = None \<and> client_out s ch = []"

definition client_do ::
  "('w, 'n, 'r, 'g, 'd, 'b, 'c) server_ext \<Rightarrow> nat \<Rightarrow> rc_event \<Rightarrow> ('w, 'g, 'd, 'b, 'c) server \<Rightarrow>
   (('w, 'g, 'd, 'b, 'c) server \<times> sv_output list) option" where
  "client_do X ch e s =
     (case e of
        Ev_Routed m \<Rightarrow> Some (s, [O_Router ch m])
      | Ev_Downlink p \<Rightarrow>
          map_option (\<lambda>q. (s\<lparr>gateway_q := q\<rparr>, [])) (gateway_downlink (sx_gateway_ch X) p (gateway_q s)))"

section \<open>The updater task\<close>

definition updater_ready :: "('w, 'g, 'd, 'b, 'c) server \<Rightarrow> bool" where
  "updater_ready s \<longleftrightarrow> sv_result s = None \<and> T_Updater \<notin> sv_returned s"

text \<open>One event of the updater; a search that does not end makes no move.\<close>

definition updater_input ::
  "('w, 'n, 'r, 'g, 'd, 'b, 'c) server_ext \<Rightarrow> updater_event \<Rightarrow> ('w, 'g, 'd, 'b, 'c) server \<Rightarrow>
   (('w, 'g, 'd, 'b, 'c) server) option" where
  "updater_input X ev s =
     (case updater_run (sx_updater X) (sv_updater s) [ev] (sv_world s) of
        None \<Rightarrow> None
      | Some (None, w) \<Rightarrow> Some (s\<lparr>sv_world := w\<rparr>)
      | Some (Some r, w) \<Rightarrow> Some (finish T_Updater r (s\<lparr>sv_world := w\<rparr>)))"

section \<open>The local API task\<close>

text \<open>
  \<^verbatim>\<open>LocalServer::run\<close> returns what the transport returns: nothing after the shutdown signal and the
  end of the requests in flight, for which \<^verbatim>\<open>serve_with_shutdown\<close> waits, or its error, which can come
  at any time, first of all when the port cannot be listened on.
\<close>

definition api_result :: "foreign + unit \<Rightarrow> unit gw_result" where
  "api_result r = foreign_r (\<lambda>e. Error_Service (SE_Service e)) r"

definition api_return :: "foreign + unit \<Rightarrow> ('w, 'g, 'd, 'b, 'c) server \<Rightarrow> ('w, 'g, 'd, 'b, 'c) server" where
  "api_return r s = finish T_Api (api_result r) s"

text \<open>The response channel of a request.\<close>

definition message_response :: "d_message \<Rightarrow> nat option" where
  "message_response m =
     (case m of
        DM_Uplink _ _ \<Rightarrow> None
      | DM_Config _ response \<Rightarrow> Some response
      | DM_Height response \<Rightarrow> Some response
      | DM_Region response \<Rightarrow> Some response)"

text \<open>A request comes in, and one whose client goes away is dropped with what its handler waits for.\<close>

definition api_receive ::
  "d_message \<Rightarrow> ('w, 'g, 'd, 'b, 'c) server \<Rightarrow> ('w, 'g, 'd, 'b, 'c) server option" where
  "api_receive m s =
     (case message_response m of
        Some n \<Rightarrow>
          if api_next s \<le> n then
            Some (s\<lparr>api_wait := api_wait s @ [m], api_flight := insert n (api_flight s), api_next := Suc n\<rparr>)
          else None
      | None \<Rightarrow> None)"

definition api_drop :: "nat \<Rightarrow> ('w, 'g, 'd, 'b, 'c) server \<Rightarrow> ('w, 'g, 'd, 'b, 'c) server" where
  "api_drop n s = s\<lparr>api_wait := filter (\<lambda>m. message_response m \<noteq> Some n) (api_wait s), api_flight := api_flight s - {n}\<rparr>"

section \<open>Runs\<close>

datatype sv_label =
    L_Udp udp_event
  | L_GatewayMessage
  | L_GatewayShutdown
  | L_GatewayEffect
  | L_BeaconerTick
  | L_BeaconerMessage
  | L_BeaconerShutdown
  | L_BeaconerEffect
  | L_Dispatcher run_input
  | L_DispatcherMessage
  | L_DispatcherEffect
  | L_Client nat rc_input
  | L_ClientMessage nat
  | L_ClientEffect nat
  | L_Updater updater_event
  | L_ApiReceive d_message
  | L_ApiRequest d_message
  | L_ApiGone nat
  | L_ApiShutdown
  | L_ApiFailed foreign

definition is_client_message :: "rc_input \<Rightarrow> bool" where
  "is_client_message i = (case i of RI_Message _ \<Rightarrow> True | _ \<Rightarrow> False)"

definition is_uplink_request :: "d_message \<Rightarrow> bool" where
  "is_uplink_request m = (case m of DM_Uplink _ _ \<Rightarrow> True | _ \<Rightarrow> False)"

text \<open>
  One move. \<open>None\<close>: the task cannot make it now. The channels never close while the server
  runs, because the senders live as long as it does.
\<close>

definition sv_step ::
  "('w, 'n, 'r, 'g, 'd, 'b, 'c) server_ext \<Rightarrow> sv_label \<Rightarrow> ('w, 'g, 'd, 'b, 'c) server \<Rightarrow>
   (('w, 'g, 'd, 'b, 'c) server \<times> sv_output list) option" where
  "sv_step X l s =
     (case l of
        L_Udp ev \<Rightarrow> if gateway_ready s then Some (gateway_input X (GI_Event ev) s, []) else None
      | L_GatewayMessage \<Rightarrow>
          if gateway_ready s then
            map_option (\<lambda>(m, q). (gateway_input X (GI_Message (Some m)) (s\<lparr>gateway_q := q\<rparr>), []))
              (mp_recv (sx_gateway_ch X) (gateway_q s))
          else None
      | L_GatewayShutdown \<Rightarrow> if gateway_ready s then Some (gateway_input X GI_Shutdown s, []) else None
      | L_GatewayEffect \<Rightarrow>
          (case gateway_out s of
             e # es \<Rightarrow> if sv_result s = None then gateway_do X e (s\<lparr>gateway_out := es\<rparr>) else None
           | [] \<Rightarrow> None)
      | L_BeaconerTick \<Rightarrow> beaconer_turn s (Some (beaconer_input X BT_Tick s, []))
      | L_BeaconerMessage \<Rightarrow>
          beaconer_turn s
            (map_option (\<lambda>(m, q). (beaconer_input X (BT_Message (Some m)) (s\<lparr>beaconer_q := q\<rparr>), []))
              (mp_recv (sx_beaconer_ch X) (beaconer_q s)))
      | L_BeaconerShutdown \<Rightarrow> beaconer_turn s (Some (beaconer_input X BT_Shutdown s, []))
      | L_BeaconerEffect \<Rightarrow>
          (case beaconer_out s of
             e # es \<Rightarrow> if sv_result s = None then beaconer_do X e (s\<lparr>beaconer_out := es\<rparr>) else None
           | [] \<Rightarrow> None)
      | L_Dispatcher i \<Rightarrow>
          if dispatcher_ready s \<and> \<not> takes_message i then Some (dispatcher_input X i s, []) else None
      | L_DispatcherMessage \<Rightarrow>
          if dispatcher_ready s then
            (case mp_recv (sx_dispatcher_ch X) (dispatcher_q s) of
               Some (m, q) \<Rightarrow>
                 map_option (\<lambda>i. (dispatcher_input X i (s\<lparr>dispatcher_q := q\<rparr>), [])) (message_input (sv_phase s) m)
             | None \<Rightarrow> None)
          else None
      | L_DispatcherEffect \<Rightarrow>
          (case dispatcher_out s of
             e # es \<Rightarrow> if sv_result s = None then dispatcher_do X e (s\<lparr>dispatcher_out := es\<rparr>) else None
           | [] \<Rightarrow> None)
      | L_Client ch i \<Rightarrow>
          (case sv_clients s ch of
             Some c \<Rightarrow> if client_ready ch s \<and> \<not> is_client_message i then Some (client_input X ch c i s, []) else None
           | None \<Rightarrow> None)
      | L_ClientMessage ch \<Rightarrow>
          (case (sv_clients s ch, mp_recv (sx_client_ch X) (client_q s ch)) of
             (Some c, Some (m, q)) \<Rightarrow>
               if client_ready ch s then
                 Some (client_input X ch c (RI_Message (Some m)) (s\<lparr>client_q := (client_q s)(ch := q)\<rparr>), [])
               else None
           | _ \<Rightarrow> None)
      | L_ClientEffect ch \<Rightarrow>
          (case client_out s ch of
             e # es \<Rightarrow>
               if sv_result s = None then client_do X ch e (s\<lparr>client_out := (client_out s)(ch := es)\<rparr>) else None
           | [] \<Rightarrow> None)
      | L_Updater ev \<Rightarrow>
          if updater_ready s then map_option (\<lambda>s. (s, [])) (updater_input X ev s) else None
      | L_ApiReceive m \<Rightarrow>
          if sv_result s = None \<and> T_Api \<notin> sv_returned s \<and> \<not> is_uplink_request m then
            map_option (\<lambda>s. (s, [])) (api_receive m s)
          else None
      | L_ApiRequest m \<Rightarrow>
          if sv_result s = None \<and> T_Api \<notin> sv_returned s \<and> m \<in> set (api_wait s) \<and> \<not> is_uplink_request m then
            map_option (\<lambda>q. (s\<lparr>dispatcher_q := q, api_wait := remove1 m (api_wait s)\<rparr>, [])) (mp_send (sx_dispatcher_ch X) m (dispatcher_q s))
          else None
      | L_ApiGone n \<Rightarrow>
          if sv_result s = None \<and> n \<in> api_flight s then Some (api_drop n s, []) else None
      | L_ApiShutdown \<Rightarrow>
          if sv_result s = None \<and> T_Api \<notin> sv_returned s \<and> api_flight s = {} then Some (api_return (Inr ()) s, []) else None
      | L_ApiFailed e \<Rightarrow>
          if sv_result s = None \<and> T_Api \<notin> sv_returned s then Some (api_return (Inl e) s, []) else None)"

primrec sv_run ::
  "('w, 'n, 'r, 'g, 'd, 'b, 'c) server_ext \<Rightarrow> sv_label list \<Rightarrow> ('w, 'g, 'd, 'b, 'c) server \<Rightarrow>
   (('w, 'g, 'd, 'b, 'c) server \<times> sv_output list) option" where
  "sv_run X [] s = Some (s, [])"
| "sv_run X (l # ls) s =
     (case sv_step X l s of
        None \<Rightarrow> None
      | Some (s, out) \<Rightarrow> map_option (\<lambda>(s, out'). (s, out @ out')) (sv_run X ls s))"

section \<open>Runs and invariants\<close>

text \<open>Runs of labelled steps with outputs, and properties that every step keeps.\<close>

locale labelled_runs =
  fixes step :: "'l \<Rightarrow> 's \<Rightarrow> ('s \<times> 'o list) option"
    and run :: "'l list \<Rightarrow> 's \<Rightarrow> ('s \<times> 'o list) option"
  assumes run_Nil: "run [] s = Some (s, [])"
    and run_Cons: "run (l # ls) s =
      (case step l s of None \<Rightarrow> None | Some (s, out) \<Rightarrow> map_option (\<lambda>(s, out'). (s, out @ out')) (run ls s))"
begin

lemma run_ConsE:
  assumes "run (l # ls) s = Some (s', out)"
  obtains s1 o1 o2 where "step l s = Some (s1, o1)" "run ls s1 = Some (s', o2)" "out = o1 @ o2"
  using assms by (auto simp: run_Cons split: option.splits)

lemma run_ConsI: "step l s = Some (s1, o1) \<Longrightarrow> run ls s1 = Some (s', o2) \<Longrightarrow> run (l # ls) s = Some (s', o1 @ o2)"
  by (simp add: run_Cons)

lemma run_single: "run [l] s = step l s"
  by (simp add: run_Cons run_Nil split: option.splits)

lemma run_append:
  "run ls s = Some (s1, o1) \<Longrightarrow> run ls' s1 = Some (s2, o2) \<Longrightarrow> run (ls @ ls') s = Some (s2, o1 @ o2)"
proof (induction ls arbitrary: s o1)
  case (Cons l ls)
  from Cons.prems(1) obtain a b c where "step l s = Some (a, b)" "run ls a = Some (s1, c)" "o1 = b @ c"
    by (rule run_ConsE)
  with Cons.IH Cons.prems(2) show ?case by (simp add: run_ConsI)
qed (simp add: run_Nil)

end

locale run_invariant = labelled_runs +
  fixes admitted :: "'b \<Rightarrow> bool" and inv :: "'a \<Rightarrow> bool" and visible :: "'c \<Rightarrow> bool"
  assumes step_inv: "step l s = Some (s', out) \<Longrightarrow> admitted l \<Longrightarrow> inv s \<Longrightarrow> inv s' \<and> list_all visible out"
begin

lemma run_inv: "run ls s = Some (s', out) \<Longrightarrow> list_all admitted ls \<Longrightarrow> inv s \<Longrightarrow> inv s' \<and> list_all visible out"
proof (induction ls arbitrary: s out)
  case (Cons l ls)
  from Cons.prems(1) obtain s1 o1 o2 where "step l s = Some (s1, o1)" "run ls s1 = Some (s', o2)" "out = o1 @ o2"
    by (rule run_ConsE)
  with Cons.IH Cons.prems(2,3) step_inv show ?case by fastforce
qed (simp add: run_Nil)

end

interpretation sv: labelled_runs "sv_step X" "sv_run X" for X
  by unfold_locales simp_all

section \<open>Frames\<close>

lemma finish_frame [simp]:
  "sv_beaconer (finish t r s) = sv_beaconer s" "sv_gateway (finish t r s) = sv_gateway s"
  "sv_dispatcher (finish t r s) = sv_dispatcher s" "sv_phase (finish t r s) = sv_phase s"
  "sv_updater (finish t r s) = sv_updater s" "sv_clients (finish t r s) = sv_clients s"
  "beaconer_q (finish t r s) = beaconer_q s" "gateway_q (finish t r s) = gateway_q s"
  "dispatcher_q (finish t r s) = dispatcher_q s" "client_q (finish t r s) = client_q s"
  "beaconer_out (finish t r s) = beaconer_out s" "gateway_out (finish t r s) = gateway_out s"
  "dispatcher_out (finish t r s) = dispatcher_out s" "client_out (finish t r s) = client_out s"
  "api_wait (finish t r s) = api_wait s" "api_flight (finish t r s) = api_flight s" "api_next (finish t r s) = api_next s"
  by (simp_all add: finish_def Let_def split: rresult.splits)

lemma crash_frame [simp]:
  "sv_beaconer (crash s) = sv_beaconer s" "sv_gateway (crash s) = sv_gateway s"
  "sv_dispatcher (crash s) = sv_dispatcher s" "sv_phase (crash s) = sv_phase s"
  "sv_updater (crash s) = sv_updater s" "sv_clients (crash s) = sv_clients s"
  "beaconer_q (crash s) = beaconer_q s" "gateway_q (crash s) = gateway_q s"
  "dispatcher_q (crash s) = dispatcher_q s" "client_q (crash s) = client_q s"
  "beaconer_out (crash s) = beaconer_out s" "gateway_out (crash s) = gateway_out s"
  "dispatcher_out (crash s) = dispatcher_out s" "client_out (crash s) = client_out s"
  "api_wait (crash s) = api_wait s" "api_flight (crash s) = api_flight s" "api_next (crash s) = api_next s"
  by (simp_all add: crash_def)

lemma api_return_simps [simp]:
  "api_return (Inr ()) s = finish T_Api (Ok ()) s"
  "api_return (Inl e) s = finish T_Api (Err (Error_Service (SE_Service e))) s"
  by (simp_all add: api_return_def api_result_def)

lemma gateway_input_frame [simp]:
  "sv_beaconer (gateway_input X i s) = sv_beaconer s"
  "sv_dispatcher (gateway_input X i s) = sv_dispatcher s" "sv_phase (gateway_input X i s) = sv_phase s"
  "sv_clients (gateway_input X i s) = sv_clients s"
  "beaconer_q (gateway_input X i s) = beaconer_q s" "gateway_q (gateway_input X i s) = gateway_q s"
  "dispatcher_q (gateway_input X i s) = dispatcher_q s" "client_q (gateway_input X i s) = client_q s"
  "beaconer_out (gateway_input X i s) = beaconer_out s"
  "dispatcher_out (gateway_input X i s) = dispatcher_out s" "client_out (gateway_input X i s) = client_out s"
  "sv_updater (gateway_input X i s) = sv_updater s"
  "api_wait (gateway_input X i s) = api_wait s" "api_flight (gateway_input X i s) = api_flight s" "api_next (gateway_input X i s) = api_next s"
  by (simp_all add: gateway_input_def split: sum.splits prod.splits)

lemma beaconer_input_frame [simp]:
  "sv_gateway (beaconer_input X i s) = sv_gateway s"
  "sv_dispatcher (beaconer_input X i s) = sv_dispatcher s" "sv_phase (beaconer_input X i s) = sv_phase s"
  "sv_clients (beaconer_input X i s) = sv_clients s"
  "beaconer_q (beaconer_input X i s) = beaconer_q s" "gateway_q (beaconer_input X i s) = gateway_q s"
  "dispatcher_q (beaconer_input X i s) = dispatcher_q s" "client_q (beaconer_input X i s) = client_q s"
  "gateway_out (beaconer_input X i s) = gateway_out s"
  "dispatcher_out (beaconer_input X i s) = dispatcher_out s" "client_out (beaconer_input X i s) = client_out s"
  "sv_updater (beaconer_input X i s) = sv_updater s"
  "api_wait (beaconer_input X i s) = api_wait s" "api_flight (beaconer_input X i s) = api_flight s" "api_next (beaconer_input X i s) = api_next s"
  by (simp_all add: beaconer_input_def split: option.splits prod.splits)

lemma dispatcher_input_frame [simp]:
  "sv_beaconer (dispatcher_input X i s) = sv_beaconer s" "sv_gateway (dispatcher_input X i s) = sv_gateway s"
  "sv_clients (dispatcher_input X i s) = sv_clients s"
  "beaconer_q (dispatcher_input X i s) = beaconer_q s" "gateway_q (dispatcher_input X i s) = gateway_q s"
  "dispatcher_q (dispatcher_input X i s) = dispatcher_q s" "client_q (dispatcher_input X i s) = client_q s"
  "beaconer_out (dispatcher_input X i s) = beaconer_out s" "gateway_out (dispatcher_input X i s) = gateway_out s"
  "client_out (dispatcher_input X i s) = client_out s"
  "sv_updater (dispatcher_input X i s) = sv_updater s"
  "api_wait (dispatcher_input X i s) = api_wait s" "api_flight (dispatcher_input X i s) = api_flight s" "api_next (dispatcher_input X i s) = api_next s"
  by (simp_all add: dispatcher_input_def Let_def split: prod.splits d_phase.splits)

lemma client_input_frame [simp]:
  "sv_beaconer (client_input X ch c i s) = sv_beaconer s" "sv_gateway (client_input X ch c i s) = sv_gateway s"
  "sv_dispatcher (client_input X ch c i s) = sv_dispatcher s" "sv_phase (client_input X ch c i s) = sv_phase s"
  "beaconer_q (client_input X ch c i s) = beaconer_q s" "gateway_q (client_input X ch c i s) = gateway_q s"
  "dispatcher_q (client_input X ch c i s) = dispatcher_q s" "client_q (client_input X ch c i s) = client_q s"
  "beaconer_out (client_input X ch c i s) = beaconer_out s" "gateway_out (client_input X ch c i s) = gateway_out s"
  "dispatcher_out (client_input X ch c i s) = dispatcher_out s"
  "sv_updater (client_input X ch c i s) = sv_updater s"
  "api_wait (client_input X ch c i s) = api_wait s" "api_flight (client_input X ch c i s) = api_flight s" "api_next (client_input X ch c i s) = api_next s"
  by (simp_all add: client_input_def split: prod.splits loop_state.splits rresult.splits)

lemma updater_input_frame:
  assumes "updater_input X ev s = Some s'"
  shows "sv_beaconer s' = sv_beaconer s \<and> sv_gateway s' = sv_gateway s \<and>
    sv_dispatcher s' = sv_dispatcher s \<and> sv_phase s' = sv_phase s \<and> sv_clients s' = sv_clients s \<and>
    beaconer_q s' = beaconer_q s \<and> gateway_q s' = gateway_q s \<and>
    dispatcher_q s' = dispatcher_q s \<and> client_q s' = client_q s \<and>
    beaconer_out s' = beaconer_out s \<and> gateway_out s' = gateway_out s \<and>
    dispatcher_out s' = dispatcher_out s \<and> client_out s' = client_out s \<and>
    api_wait s' = api_wait s \<and> api_flight s' = api_flight s \<and> api_next s' = api_next s \<and>
    sv_updater s' = sv_updater s"
  using assms by (auto simp: updater_input_def split: option.splits prod.splits)

lemma api_drop_frame [simp]:
  "sv_beaconer (api_drop n s) = sv_beaconer s" "sv_gateway (api_drop n s) = sv_gateway s"
  "sv_dispatcher (api_drop n s) = sv_dispatcher s" "sv_phase (api_drop n s) = sv_phase s"
  "sv_updater (api_drop n s) = sv_updater s" "sv_clients (api_drop n s) = sv_clients s"
  "beaconer_q (api_drop n s) = beaconer_q s" "gateway_q (api_drop n s) = gateway_q s"
  "dispatcher_q (api_drop n s) = dispatcher_q s" "client_q (api_drop n s) = client_q s"
  "beaconer_out (api_drop n s) = beaconer_out s" "gateway_out (api_drop n s) = gateway_out s"
  "dispatcher_out (api_drop n s) = dispatcher_out s" "client_out (api_drop n s) = client_out s"
  "sv_returned (api_drop n s) = sv_returned s" "sv_result (api_drop n s) = sv_result s"
  by (simp_all add: api_drop_def)

lemma api_receive_frame:
  "api_receive m s = Some s' \<Longrightarrow> \<exists>ms fl k. s' = s\<lparr>api_wait := ms, api_flight := fl, api_next := k\<rparr>"
  by (auto simp: api_receive_def split: option.splits if_splits)

section \<open>Channels\<close>

lemma mpsc_new: "mpsc_ok C \<Longrightarrow> 0 < n \<Longrightarrow> mp_contents C (mp_new C n) = [] \<and> mp_capacity C (mp_new C n) = n"
  by (simp add: mpsc_ok_def)

lemma mpsc_send:
  assumes "mpsc_ok C" and "mp_send C m q = Some q'"
  shows "mp_contents C q' = mp_contents C q @ [m]" "mp_capacity C q' = mp_capacity C q"
    "length (mp_contents C q) < mp_capacity C q"
proof -
  show "mp_contents C q' = mp_contents C q @ [m]" "mp_capacity C q' = mp_capacity C q"
    using assms by (simp_all add: mpsc_ok_def)
  have "mp_send C m q = None \<longleftrightarrow> mp_capacity C q \<le> length (mp_contents C q)"
    using assms(1) unfolding mpsc_ok_def by blast
  then show "length (mp_contents C q) < mp_capacity C q" using assms(2) by simp
qed

lemma mpsc_send_ready:
  assumes "mpsc_ok C" and "length (mp_contents C q) < mp_capacity C q"
  obtains q' where "mp_send C m q = Some q'"
  using assms by (metis mpsc_ok_def not_le option.exhaust)

lemma mpsc_full: "mpsc_ok C \<Longrightarrow> mp_capacity C q \<le> length (mp_contents C q) \<Longrightarrow> mp_send C m q = None"
  by (simp add: mpsc_ok_def)

definition full :: "('m, 'q) mpsc \<Rightarrow> 'q \<Rightarrow> bool" where
  "full C q \<longleftrightarrow> mp_capacity C q \<le> length (mp_contents C q)"

lemma full_send: "mpsc_ok C \<Longrightarrow> full C q \<Longrightarrow> mp_send C m q = None"
  by (simp add: full_def mpsc_full)

lemma mpsc_recv:
  assumes "mpsc_ok C" and "mp_recv C q = Some (m, q')"
  shows "mp_contents C q = m # mp_contents C q'" "mp_capacity C q' = mp_capacity C q"
  using assms by (simp_all add: mpsc_ok_def)

lemma mpsc_recv_ready:
  assumes "mpsc_ok C" and "mp_contents C q = m # ms"
  obtains q' where "mp_recv C q = Some (m, q')" "mp_contents C q' = ms"
proof -
  have "mp_recv C q \<noteq> None" using assms by (simp add: mpsc_ok_def)
  then obtain m' q' where r: "mp_recv C q = Some (m', q')" by auto
  with mpsc_recv [OF assms(1) r] assms(2) that show ?thesis by simp
qed

definition channels_ok :: "('w, 'n, 'r, 'g, 'd, 'b, 'c) server_ext \<Rightarrow> bool" where
  "channels_ok X \<longleftrightarrow> mpsc_ok (sx_gateway_ch X) \<and> mpsc_ok (sx_dispatcher_ch X) \<and> mpsc_ok (sx_beaconer_ch X) \<and>
     mpsc_ok (sx_client_ch X)"

definition fits :: "('m, 'q) mpsc \<Rightarrow> nat \<Rightarrow> 'q \<Rightarrow> bool" where
  "fits C n q \<longleftrightarrow> mp_capacity C q = n \<and> length (mp_contents C q) \<le> n"

definition queues_within :: "('w, 'n, 'r, 'g, 'd, 'b, 'c) server_ext \<Rightarrow> ('w, 'g, 'd, 'b, 'c) server \<Rightarrow> bool" where
  "queues_within X s \<longleftrightarrow>
     fits (sx_gateway_ch X) 10 (gateway_q s) \<and> fits (sx_dispatcher_ch X) 20 (dispatcher_q s) \<and>
     fits (sx_beaconer_ch X) 10 (beaconer_q s) \<and> (\<forall>ch. fits (sx_client_ch X) 10 (client_q s ch))"

lemma fits_new: "mpsc_ok C \<Longrightarrow> 0 < n \<Longrightarrow> fits C n (mp_new C n)"
  by (simp add: fits_def mpsc_new)

lemma fits_send: "fits C n q \<Longrightarrow> mpsc_ok C \<Longrightarrow> mp_send C m q = Some q' \<Longrightarrow> fits C n q'"
  using mpsc_send [of C m q q'] by (simp add: fits_def)

lemma fits_recv: "fits C n q \<Longrightarrow> mpsc_ok C \<Longrightarrow> mp_recv C q = Some (m, q') \<Longrightarrow> fits C n q'"
  using mpsc_recv [of C q m q'] by (simp add: fits_def)

lemma fits_send_all: "\<forall>ch. fits C n (f ch) \<Longrightarrow> mpsc_ok C \<Longrightarrow> mp_send C m (f ch) = Some q' \<Longrightarrow> fits C n q'"
  by (rule fits_send [where q = "f ch"]) simp_all

lemma fits_recv_all: "\<forall>ch. fits C n (f ch) \<Longrightarrow> mpsc_ok C \<Longrightarrow> mp_recv C (f ch) = Some (m, q') \<Longrightarrow> fits C n q'"
  by (rule fits_recv [where q = "f ch"]) simp_all

lemmas do_defs = gateway_do_def beaconer_do_def dispatcher_do_def client_do_def

lemma step_within:
  assumes "sv_step X l s = Some (s', out)" and "channels_ok X" and "queues_within X s"
  shows "queues_within X s'"
  using assms
  by (cases l)
    (auto simp: sv_step_def channels_ok_def queues_within_def do_defs updater_input_frame fits_new
      intro: fits_send fits_recv elim: fits_send_all fits_recv_all
      split: if_splits list.splits option.splits prod.splits gw_effect.splits beaconer_effect.splits
        effect.splits rc_event.splits dest: updater_input_frame dest!: api_receive_frame)

interpretation bounded: run_invariant "sv_step X" "sv_run X" "\<lambda>_. True"
  "\<lambda>s. channels_ok X \<longrightarrow> queues_within X s" "\<lambda>_. True" for X
  by unfold_locales (auto simp: list_all_iff dest: step_within)

end
