(* ===== verification/Server_Props.thy ===== *)
theory Server_Props
  imports Server
begin

text \<open>
  Invariants of the running server: where the messages it sends come from, and that the beaconer
  follows the region of the gateway.
\<close>

section \<open>Routing updates by their parts\<close>

text \<open>
  A relation between the dispatcher before and after, and the effects in between, that holds for
  every single change of a routing update and can be chained, holds for the whole update.
\<close>

locale routing_change =
  fixes R :: "Dispatcher \<Rightarrow> Dispatcher \<Rightarrow> effect list \<Rightarrow> bool"
  assumes unchanged: "R d d []"
    and chain: "R d d1 eff1 \<Longrightarrow> R d1 d2 eff2 \<Longrightarrow> R d d2 (eff1 @ eff2)"
    and router: "R d (fst (update_router r d u)) (snd (update_router r d u))"
    and removed: "R d (d\<lparr>routers := filter P (routers d)\<rparr>) (map (\<lambda>ch. Eff_Router ch RM_Stop) chs)"
    and height: "R d (d\<lparr>routing_height := h\<rparr>) []"
begin

lemma update_routers: "R d (fst (update_routers r us d)) (snd (update_routers r us d))"
proof (induction us arbitrary: d)
  case (Cons u us)
  from chain [OF router Cons] show ?case by (simp add: case_prod_beta Let_def)
qed (simp add: unchanged)

lemma handle_oui_routing_update: "R d (fst (handle_oui_routing_update r d)) (snd (handle_oui_routing_update r d))"
  using chain [OF update_routers removed]
  by (simp add: handle_oui_routing_update_def case_prod_beta Let_def del: map_map)

lemma update_routings: "update_routings A ps d = Ok (d', eff) \<Longrightarrow> R d d' eff"
proof (induction ps arbitrary: d eff)
  case (Cons p ps)
  show ?case
  proof (cases "Routing_from_proto A p")
    case (Ok r)
    let ?u = "handle_oui_routing_update r d"
    obtain eff' where "update_routings A ps (fst ?u) = Ok (d', eff')" and e: "eff = snd ?u @ eff'"
      using Cons.prems Ok by (auto simp: case_prod_beta bind_r_Ok_iff)
    from chain [OF handle_oui_routing_update Cons.IH [OF this(1)]] show ?thesis by (simp only: e)
  qed (use Cons in auto)
qed (simp add: unchanged)

lemma handle_routing_update:
  assumes "handle_routing_update X d resp = Ok (d', eff)" shows "R d d' eff"
proof -
  have "R d (d1\<lparr>routing_height := h\<rparr>) e" if "update_routings A ps d = Ok (d1, e)" for A ps d1 e h
    using chain [OF update_routings [OF that] height] by simp
  with assms unchanged show ?thesis
    by (auto simp: handle_routing_update_def Let_def bind_r_Ok_iff split: if_splits rresult.splits)
qed

end

section \<open>What a dispatcher step sends\<close>

definition input_uplink :: "run_input \<Rightarrow> (Packet \<times> instant) set" where
  "input_uplink i =
     (case i of
        RU_Connected (DI_Message (Some (DM_Uplink p t))) \<Rightarrow> {(p, t)}
      | RU_Wait (WI_Message (Some (DM_Uplink p t))) \<Rightarrow> {(p, t)}
      | _ \<Rightarrow> {})"

definition effect_from :: "Keypair \<Rightarrow> (Packet \<times> instant) set \<Rightarrow> effect \<Rightarrow> bool" where
  "effect_from kp up e =
     (case e of
        Eff_Spawn _ c \<Rightarrow> rc_keypair c = kp \<and> waiting_packets (rc_store c) = []
      | Eff_Router _ (RM_Uplink p t) \<Rightarrow> (p, t) \<in> up
      | _ \<Rightarrow> True)"

lemma effect_from_mono: "effect_from kp up e \<Longrightarrow> up \<subseteq> up' \<Longrightarrow> effect_from kp up' e"
  by (auto simp: effect_from_def split: effect.splits rc_message.splits)

lemma d_handle_uplink_from: "list_all (effect_from kp {(p, t)}) (d_handle_uplink H d p t)"
  by (auto simp: d_handle_uplink_def effect_from_def list_all_iff Let_def split: option.splits)

lemma d_handle_message_from:
  "list_all (effect_from kp (case m of DM_Uplink p t \<Rightarrow> {(p, t)} | _ \<Rightarrow> {})) (snd (d_handle_message H X d m g w))"
proof (cases m)
  case (DM_Uplink p t)
  then show ?thesis using d_handle_uplink_from [of kp p t H d] by (simp add: d_handle_message_def)
qed (auto simp: d_handle_message_def Let_def case_prod_beta effect_from_def)

lemma update_router_from:
  "d_keypair (fst (update_router r d u)) = d_keypair d \<and>
   list_all (effect_from (d_keypair d) {}) (snd (update_router r d u))"
  by (auto simp: update_router_def start_router_eq RouterStore_new_def effect_from_def Let_def split: option.splits)

interpretation sends: routing_change
  "\<lambda>d d' eff. d_keypair d' = d_keypair d \<and> list_all (effect_from (d_keypair d) {}) eff"
  by unfold_locales (use update_router_from in \<open>auto simp: list_all_iff effect_from_def\<close>)

lemma handle_region_params_update_from:
  "d_keypair (fst (handle_region_params_update X d resp)) = d_keypair d \<and>
   list_all (effect_from kp {}) (snd (handle_region_params_update X d resp))"
  by (auto simp: handle_region_params_update_def effect_from_def list_all_iff Let_def split: rresult.splits)

lemma run_with_gateway_step_from:
  assumes "run_with_gateway_step H X g d i w = (r, d', w', eff)"
  shows "d_keypair d' = d_keypair d \<and> list_all (effect_from (d_keypair d) (input_uplink (RU_Connected i))) eff"
proof (cases "\<exists>m. i = DI_Message (Some m)")
  case True
  then obtain m where i: "i = DI_Message (Some m)" by blast
  have "input_uplink (RU_Connected i) = (case m of DM_Uplink p t \<Rightarrow> {(p, t)} | _ \<Rightarrow> {})"
    by (simp add: i input_uplink_def split: d_message.splits)
  with assms d_handle_message_from [of "d_keypair d" m H X d "Some g" w] show ?thesis
    by (auto simp: i run_with_gateway_step_def case_prod_beta Let_def)
next
  case False
  have "d_keypair d' = d_keypair d \<and> list_all (effect_from (d_keypair d) {}) eff"
  proof (cases i)
    case (DI_Stream m)
    then show ?thesis
      using assms handle_region_params_update_from [of X d _ "d_keypair d"]
      by (auto simp: run_with_gateway_step_def case_prod_beta Let_def dest: sends.handle_routing_update
          split: option.splits prod.splits rresult.splits gateway_stream.splits)
  qed (use assms False in \<open>auto simp: run_with_gateway_step_def split: prod.splits rresult.splits option.splits\<close>)
  then show ?thesis using effect_from_mono by (fastforce simp: list_all_iff)
qed

lemma select_step_from:
  "select_step X d i w = (ph, d', w', eff) \<Longrightarrow> d' = d \<and> list_all (effect_from kp {}) eff"
  by (auto simp: select_step_def effect_from_def
      split: select_input.splits prod.splits rresult.splits option.splits)

lemma prepare_gateway_change_from:
  assumes "prepare_gateway_change H X B d i w = (d', sl, w', eff)"
  shows "d_keypair d' = d_keypair d \<and> list_all (effect_from (d_keypair d) (input_uplink (RU_Wait i))) eff"
proof (cases "\<exists>m. i = WI_Message (Some m)")
  case True
  then obtain m where i: "i = WI_Message (Some m)" by blast
  have "input_uplink (RU_Wait i) = (case m of DM_Uplink p t \<Rightarrow> {(p, t)} | _ \<Rightarrow> {})"
    by (simp add: i input_uplink_def split: d_message.splits)
  with assms show ?thesis
    using d_handle_message_from [of "d_keypair d" m H X _ None w]
    by (auto simp: i prepare_gateway_change_def Let_def split: prod.splits) (metis snd_conv)
qed (use assms in \<open>auto simp: prepare_gateway_change_def Let_def split: wait_input.splits option.splits if_splits\<close>)

lemma d_step_from:
  assumes "d_step H X B ph d i w = (ph', d', w', eff)"
  shows "d_keypair d' = d_keypair d \<and> list_all (effect_from (d_keypair d) (input_uplink i)) eff"
proof (cases "\<exists>g di. ph = Ph_Connected g \<and> i = RU_Connected di")
  case True
  then obtain g di r where i: "i = RU_Connected di" and s: "run_with_gateway_step H X g d di w = (r, d', w', eff)"
    using assms by (auto simp: d_step_def split: prod.splits option.splits rresult.splits)
  from run_with_gateway_step_from [OF s] show ?thesis by (simp only: i)
next
  case False
  show ?thesis
  proof (cases "\<exists>wi. ph = Ph_Wait \<and> i = RU_Wait wi")
    case True
    then obtain wi sl where i: "i = RU_Wait wi" and s: "prepare_gateway_change H X B d wi w = (d', sl, w', eff)"
      using assms by (auto simp: d_step_def Let_def split: prod.splits)
    from prepare_gateway_change_from [OF s] show ?thesis by (simp only: i)
  next
    case False
    with \<open>\<nexists>g di. _\<close> assms show ?thesis
      by (auto simp: d_step_def input_uplink_def split: d_phase.splits run_input.splits
          dest: select_step_from [where kp = "d_keypair d"])
  qed
qed

section \<open>What a router client sends\<close>

text \<open>A message to a router that carries one of the given packets and is signed with the key pair.\<close>

definition routed_from :: "'w router_ext \<Rightarrow> Keypair \<Rightarrow> Packet set \<Rightarrow> SCMessage \<Rightarrow> bool" where
  "routed_from E kp ps m \<longleftrightarrow>
     (\<exists>p rg hold msg. p \<in> ps \<and> StateChannelMessage_packet (sc_encode E) p kp rg hold = Ok msg \<and> m = to_message msg)"

definition held :: "RouterClient \<Rightarrow> Packet set" where
  "held c = qp_packet ` set (waiting_packets (rc_store c))"

lemma routed_from_mono: "routed_from E kp ps m \<Longrightarrow> ps \<subseteq> ps' \<Longrightarrow> routed_from E kp ps' m"
  by (auto simp: routed_from_def)

lemma send_packet_from:
  assumes "send_packet E c q w = (r, w', ev)" and "Ev_Routed m \<in> set ev"
  shows "routed_from E (rc_keypair c) {qp_packet q} m"
  using assms
  by (auto simp: send_packet_def RouterService_route_def Let_def routed_from_def split: prod.splits rresult.splits)
    blast

lemma handle_response_from [simp]: "Ev_Routed m \<notin> set (snd (handle_response E r w))"
  by (auto simp: handle_response_def rc_handle_downlink_def split: option.splits rresult.splits prod.splits)

lemma send_waiting_packets_from:
  "send_waiting_packets E c w = (r, c', w', ev) \<Longrightarrow> Ev_Routed m \<in> set ev \<Longrightarrow>
   routed_from E (rc_keypair c) (held c) m"
proof (induction E c w arbitrary: r c' w' ev rule: send_waiting_packets.induct)
  case (1 E c w)
  show ?case
  proof (cases "waiting_packets (rc_store c)")
    case Nil
    then show ?thesis
      using "1.prems" by (simp add: send_waiting_packets.simps [of E c] pop_waiting_packet_def)
  next
    case (Cons q qs)
    let ?c = "c\<lparr>rc_store := rc_store c\<lparr>waiting_packets := qs\<rparr>\<rparr>"
    have pop: "pop_waiting_packet (rc_store c) = (Some q, rc_store c\<lparr>waiting_packets := qs\<rparr>)"
      by (simp add: pop_waiting_packet_def Cons)
    obtain a w0 ev0 where sp: "send_packet E ?c q w = (a, w0, ev0)" by (metis prod_cases3)
    have first: "routed_from E (rc_keypair c) (held c) m" if "Ev_Routed m \<in> set ev0"
      using send_packet_from [OF sp that] routed_from_mono [of E "rc_keypair c" "{qp_packet q}" m "held c"]
      by (simp add: held_def Cons)
    show ?thesis
    proof (cases a)
      case (Ok resp)
      obtain w1 ev1 where h: "handle_response E resp w0 = (w1, ev1)" by fastforce
      obtain r2 c2 w2 ev2 where s: "send_waiting_packets E ?c w1 = (r2, c2, w2, ev2)" by (metis prod_cases4)
      have "ev = ev0 @ ev1 @ ev2"
        using "1.prems"(1) by (simp add: send_waiting_packets.simps [of E c] pop sp Ok h s)
      moreover have "Ev_Routed m \<notin> set ev1" using handle_response_from [of m E resp w0] by (simp add: h)
      moreover have "routed_from E (rc_keypair c) (held c) m" if "Ev_Routed m \<in> set ev2"
        using "1.IH" [OF pop [symmetric] refl sp [symmetric, unfolded Ok] refl refl refl h [symmetric] s that]
          routed_from_mono [of E "rc_keypair c" "held ?c" m "held c"] by (auto simp: held_def Cons)
      ultimately show ?thesis using "1.prems"(2) first by auto
    qed (use "1.prems" first in \<open>auto simp: send_waiting_packets.simps [of E c] pop sp\<close>)
  qed
qed

definition client_packets :: "rc_input \<Rightarrow> Packet set" where
  "client_packets i = (case i of RI_Message (Some (RM_Uplink p t)) \<Rightarrow> {p} | _ \<Rightarrow> {})"

lemma held_push: "held (c\<lparr>rc_store := store_push (rc_store c) \<lparr>qp_received = t, qp_packet = p\<rparr>\<rparr>) \<subseteq> held c \<union> {p}"
proof -
  have "set (snd (pop_front xs)) \<subseteq> set xs" for xs :: "QuePacket list" by (cases xs) auto
  then show ?thesis
    unfolding held_def store_push_def store_waiting_packet_def Let_def by auto fastforce
qed

lemma rc_step_from:
  assumes "rc_step E c i w = (Running c', w', ev)"
  shows "held c' \<subseteq> held c \<union> client_packets i \<and> rc_keypair c' = rc_keypair c \<and> rc_uri c' = rc_uri c \<and>
    (\<forall>m. Ev_Routed m \<in> set ev \<longrightarrow> routed_from E (rc_keypair c) (held c \<union> client_packets i) m)"
proof (cases "\<exists>p t. i = RI_Message (Some (RM_Uplink p t))")
  case True
  then obtain p t where i: "i = RI_Message (Some (RM_Uplink p t))" by blast
  let ?c = "c\<lparr>rc_store := store_push (rc_store c) \<lparr>qp_received = t, qp_packet = p\<rparr>\<rparr>"
  obtain r c1 w1 ev1 where s: "send_waiting_packets E ?c w = (r, c1, w1, ev1)" by (metis prod_cases4)
  have e: "c' = c1" "ev = ev1" using assms by (cases r; simp add: rc_step_def i rc_handle_uplink_eq s)+
  obtain att where a: "waiting_packets (rc_store ?c) = att @ waiting_packets (rc_store c1)"
    "c1 = ?c\<lparr>rc_store := rc_store c1\<rparr>"
    using send_waiting_packets_split [OF s] by blast
  have "rc_keypair c1 = rc_keypair c \<and> rc_uri c1 = rc_uri c" by (subst (1 2) a(2)) simp
  moreover have "held c1 \<subseteq> held ?c" unfolding held_def a(1) by auto
  ultimately show ?thesis
    using held_push [of c t p] send_waiting_packets_from [OF s]
    by (auto simp: e i client_packets_def intro: routed_from_mono)
next
  case False
  then show ?thesis
    using assms
    by (auto simp: rc_step_def held_def gc_waiting_packets_def Let_def
        split: rc_input.splits option.splits rc_message.splits prod.splits)
qed

section \<open>Where messages come from\<close>

text \<open>
  Everything on its way through the server stems from the frames received: \<open>ups\<close> are the packets
  taken for uplinks, \<open>bcs\<close> those taken for beacons.
\<close>

definition gw_effect_from :: "Packet set \<Rightarrow> Packet set \<Rightarrow> gw_effect \<Rightarrow> bool" where
  "gw_effect_from ups bcs e = (case e of GE_Uplink p _ \<Rightarrow> p \<in> ups | GE_ReceivedBeacon p \<Rightarrow> p \<in> bcs | _ \<Rightarrow> True)"

definition d_message_from :: "Packet set \<Rightarrow> d_message \<Rightarrow> bool" where
  "d_message_from ups m = (case m of DM_Uplink p _ \<Rightarrow> p \<in> ups | _ \<Rightarrow> True)"

definition rc_message_from :: "Packet set \<Rightarrow> rc_message \<Rightarrow> bool" where
  "rc_message_from ups m = (case m of RM_Uplink p _ \<Rightarrow> p \<in> ups | _ \<Rightarrow> True)"

definition rc_event_from ::
  "('w, 'n, 'r, 'g, 'd, 'b, 'c) server_ext \<Rightarrow> Keypair \<Rightarrow> Packet set \<Rightarrow> rc_event \<Rightarrow> bool" where
  "rc_event_from X kp ups e =
     (case e of Ev_Routed m \<Rightarrow> (\<exists>u. routed_from (sx_router X u) kp ups m) | _ \<Rightarrow> True)"

definition bc_message_from :: "Packet set \<Rightarrow> beaconer_message \<Rightarrow> bool" where
  "bc_message_from bcs m = (case m of BM_ReceivedBeacon p \<Rightarrow> p \<in> bcs | _ \<Rightarrow> True)"

definition bc_effect_from ::
  "('w, 'r) beaconer_ext \<Rightarrow> Keypair \<Rightarrow> Packet set \<Rightarrow> beaconer_effect \<Rightarrow> bool" where
  "bc_effect_from Y kp bcs e =
     (case e of
        BX_SubmitWitness _ r' \<Rightarrow>
          (\<exists>p r. p \<in> bcs \<and> to_witness_report (bx_radio Y) p = Ok r \<and> signed_witness Y kp r r')
      | _ \<Rightarrow> True)"

definition client_from :: "Keypair \<Rightarrow> Packet set \<Rightarrow> RouterClient \<Rightarrow> bool" where
  "client_from kp ups c \<longleftrightarrow> rc_keypair c = kp \<and> held c \<subseteq> ups"

definition origin_ok ::
  "('w, 'n, 'r, 'g, 'd, 'b, 'c) server_ext \<Rightarrow> Keypair \<Rightarrow> Packet set \<Rightarrow> Packet set \<Rightarrow> ('w, 'g, 'd, 'b, 'c) server \<Rightarrow> bool" where
  "origin_ok X kp ups bcs s \<longleftrightarrow>
     bc_keypair (sv_beaconer s) = kp \<and> d_keypair (sv_dispatcher s) = kp \<and>
     list_all (gw_effect_from ups bcs) (gateway_out s) \<and>
     list_all (d_message_from ups) (mp_contents (sx_dispatcher_ch X) (dispatcher_q s)) \<and>
     list_all (effect_from kp (ups \<times> UNIV)) (dispatcher_out s) \<and>
     (\<forall>ch c. sv_clients s ch = Some c \<longrightarrow> client_from kp ups c) \<and>
     (\<forall>ch. list_all (rc_message_from ups) (mp_contents (sx_client_ch X) (client_q s ch))) \<and>
     (\<forall>ch. list_all (rc_event_from X kp ups) (client_out s ch)) \<and>
     list_all (bc_message_from bcs) (mp_contents (sx_beaconer_ch X) (beaconer_q s)) \<and>
     list_all (bc_effect_from (sx_beaconer X) kp bcs) (beaconer_out s)"

definition frame_from :: "('w, 'n, 'r, 'g, 'd, 'b, 'c) server_ext \<Rightarrow> Packet set \<Rightarrow> Packet set \<Rightarrow> sv_label \<Rightarrow> bool" where
  "frame_from X ups bcs l =
     (case l of
        L_Udp (UE_PacketReceived rx _) \<Rightarrow>
          (\<forall>p. Packet_from_rxpk (radio (sx_udp X)) rx = Ok p \<longrightarrow> p \<in> (if is_potential_beacon p then bcs else ups))
      | _ \<Rightarrow> True)"

definition output_from :: "('w, 'n, 'r, 'g, 'd, 'b, 'c) server_ext \<Rightarrow> Keypair \<Rightarrow> Packet set \<Rightarrow> Packet set \<Rightarrow> sv_output \<Rightarrow> bool" where
  "output_from X kp ups bcs out =
     (case out of
        O_Router _ m \<Rightarrow> (\<exists>u. routed_from (sx_router X u) kp ups m)
      | O_Ingest e \<Rightarrow> bc_effect_from (sx_beaconer X) kp bcs e
      | _ \<Rightarrow> True)"

lemmas from_defs = gw_effect_from_def d_message_from_def rc_message_from_def rc_event_from_def bc_message_from_def
  bc_effect_from_def

text \<open>The four kinds of tasks keep it, one input at a time.\<close>

lemma g_step_from:
  assumes "g_step U g i w = Inr (g', w', eff)"
    and "\<And>rx m p. i = GI_Event (UE_PacketReceived rx m) \<Longrightarrow> Packet_from_rxpk (radio U) rx = Ok p \<Longrightarrow>
      p \<in> (if is_potential_beacon p then bcs else ups)"
  shows "list_all (gw_effect_from ups bcs) eff"
proof (cases i)
  case (GI_Event ev)
  show ?thesis
  proof (cases ev)
    case (UE_PacketReceived rx m)
    then show ?thesis
      using assms(1) assms(2) [of rx m]
      by (auto simp: GI_Event g_step_def handle_udp_event_def g_handle_uplink_def gw_effect_from_def
          split: rresult.splits if_splits prod.splits option.splits)
  qed (use assms(1) in \<open>auto simp: GI_Event g_step_def handle_udp_event_def\<close>)
next
  case (GI_Message m)
  then show ?thesis
    using assms(1)
    by (auto simp: g_step_def g_handle_message_def g_handle_downlink_def handle_transmit_beacon_def downlink_task_def
        gw_effect_from_def Let_def
        split: option.splits gw_message.splits prod.splits rresult.splits if_splits)
qed (use assms(1) in \<open>simp add: g_step_def\<close>)

lemma gateway_input_from:
  assumes "origin_ok X kp ups bcs s" and "gateway_out s = []"
    and "\<And>rx m p. i = GI_Event (UE_PacketReceived rx m) \<Longrightarrow> Packet_from_rxpk (radio (sx_udp X)) rx = Ok p \<Longrightarrow>
      p \<in> (if is_potential_beacon p then bcs else ups)"
  shows "origin_ok X kp ups bcs (gateway_input X i s)"
proof -
  have "list_all (gw_effect_from ups bcs) (gateway_out (gateway_input X i s))"
    using assms(2) by (auto simp: gateway_input_def split: sum.splits intro!: g_step_from assms(3))
  with assms(1) show ?thesis by (simp add: origin_ok_def)
qed

lemma beaconer_input_from:
  assumes "origin_ok X kp ups bcs s" and "beaconer_out s = []"
    and "\<And>p. ev = BT_Message (Some (BM_ReceivedBeacon p)) \<Longrightarrow> p \<in> bcs"
  shows "origin_ok X kp ups bcs (beaconer_input X ev s)"
proof (cases "ev \<noteq> BT_Shutdown \<and> bc_step (sx_beaconer X) (sv_beaconer s) ev (sv_world s) \<noteq> None")
  case True
  then obtain b w eff where st: "bc_step (sx_beaconer X) (sv_beaconer s) ev (sv_world s) = Some (b, w, eff)" by auto
  have k: "bc_keypair (sv_beaconer s) = kp" using assms(1) by (simp add: origin_ok_def)
  have "list_all (bc_effect_from (sx_beaconer X) kp bcs) eff"
    using bc_step_cases [OF st, THEN conjunct1] assms(3) k
    by (auto simp: bc_effect_from_def elim!: step_effectsE) blast
  with assms(1) bc_step_identity(1) [OF st] st True show ?thesis
    by (simp add: origin_ok_def beaconer_input_def)
next
  case False
  then have "beaconer_input X ev s = (if ev = BT_Shutdown then finish T_Beaconer (Ok ()) s else crash s)"
    by (auto simp: beaconer_input_def split: option.splits)
  with assms(1) show ?thesis by (simp add: origin_ok_def)
qed

lemma dispatcher_input_from:
  assumes "origin_ok X kp ups bcs s" and "dispatcher_out s = []" and "input_uplink i \<subseteq> ups \<times> UNIV"
  shows "origin_ok X kp ups bcs (dispatcher_input X i s)"
proof -
  obtain ph d w eff where st:
    "d_step (sx_hash X) (sx_validator X) (gateway_backoff X) (sv_phase s) (sv_dispatcher s) i (sv_world s) = (ph, d, w, eff)"
    by (metis prod_cases4)
  have "d_keypair d = kp" "list_all (effect_from kp (ups \<times> UNIV)) eff"
    using d_step_from [OF st] assms(1,3) effect_from_mono by (auto simp: origin_ok_def list_all_iff)
  with assms(1) show ?thesis
    by (simp add: origin_ok_def dispatcher_input_def st Let_def split: d_phase.splits)
qed

lemma routed_from_client_ext [simp]: "routed_from (client_ext X c) = routed_from (sx_router X (rc_uri c))"
  by (simp add: fun_eq_iff routed_from_def client_ext_def)

lemma client_input_from:
  assumes "origin_ok X kp ups bcs s" and "sv_clients s ch = Some c" and "client_packets i \<subseteq> ups"
  shows "origin_ok X kp ups bcs (client_input X ch c i s)"
proof -
  obtain c1 w ev where st: "rc_step (client_ext X c) c i (sv_world s) = (c1, w, ev)" by (metis prod_cases3)
  have c: "rc_keypair c = kp" "held c \<subseteq> ups"
    using assms(1,2) by (simp_all add: origin_ok_def client_from_def)
  show ?thesis
  proof (cases c1)
    case (Running c')
    have "routed_from (sx_router X (rc_uri c)) kp ups m" if "Ev_Routed m \<in> set ev" for m
      using rc_step_from [OF st [unfolded Running]] that c assms(3)
        routed_from_mono [of "sx_router X (rc_uri c)" kp "held c \<union> client_packets i" m ups] by simp
    then have "rc_event_from X kp ups e" if "e \<in> set ev" for e
      using that by (auto simp: rc_event_from_def split: rc_event.splits)
    moreover have "client_from kp ups c'"
      using rc_step_from [OF st [unfolded Running]] c assms(3) by (auto simp: client_from_def)
    ultimately show ?thesis
      using assms(1) by (simp add: client_input_def st Running origin_ok_def list_all_iff)
  next
    case (Returned r)
    then show ?thesis
      using assms(1) by (cases r) (auto simp: client_input_def st origin_ok_def)
  qed
qed

lemma dispatcher_do_from:
  assumes "dispatcher_do X e s = Some (s', out)" and "channels_ok X" and "origin_ok X kp ups bcs s"
    and "effect_from kp (ups \<times> UNIV) e"
  shows "origin_ok X kp ups bcs s' \<and> list_all (output_from X kp ups bcs) out"
proof (cases e)
  case (Eff_Spawn ch c)
  then show ?thesis
    using assms mpsc_new [of "sx_client_ch X" 10]
    by (auto simp: dispatcher_do_def origin_ok_def effect_from_def channels_ok_def client_from_def [of _ _ c] held_def
        split: if_splits)
next
  case (Eff_Router ch m)
  then have "rc_message_from ups m"
    using assms(4) by (auto simp: effect_from_def rc_message_from_def split: rc_message.splits)
  then show ?thesis
    using assms mpsc_send(1) [of "sx_client_ch X" m "client_q s ch"]
    by (auto simp: Eff_Router dispatcher_do_def origin_ok_def channels_ok_def split: option.splits)
qed (use assms in \<open>auto simp: dispatcher_do_def origin_ok_def output_from_def\<close>)

lemma gateway_do_from:
  assumes "gateway_do X e s = Some (s', out)" and "channels_ok X" and "origin_ok X kp ups bcs s"
    and "gw_effect_from ups bcs e"
  shows "origin_ok X kp ups bcs s' \<and> list_all (output_from X kp ups bcs) out"
  using assms
  by (cases e) (auto simp: gateway_do_def origin_ok_def channels_ok_def mpsc_send(1) output_from_def from_defs)

lemma beaconer_do_from:
  assumes "beaconer_do X e s = Some (s', out)" and "origin_ok X kp ups bcs s"
    and "bc_effect_from (sx_beaconer X) kp bcs e"
  shows "origin_ok X kp ups bcs s' \<and> list_all (output_from X kp ups bcs) out"
  using assms by (cases e) (auto simp: beaconer_do_def origin_ok_def output_from_def)

lemma client_do_from:
  assumes "client_do X ch e s = Some (s', out)" and "origin_ok X kp ups bcs s" and "rc_event_from X kp ups e"
  shows "origin_ok X kp ups bcs s' \<and> list_all (output_from X kp ups bcs) out"
  using assms by (cases e) (auto simp: client_do_def origin_ok_def output_from_def rc_event_from_def)

lemma origin_recv:
  assumes "mpsc_ok C" and "mp_recv C q = Some (m, q')" and "list_all P (mp_contents C q)"
  shows "P m \<and> list_all P (mp_contents C q')"
  using assms mpsc_recv by fastforce

lemma message_input_from:
  "message_input ph m = Some i \<Longrightarrow> d_message_from ups m \<Longrightarrow> input_uplink i \<subseteq> ups \<times> UNIV"
  by (auto simp: message_input_def input_uplink_def d_message_from_def split: d_phase.splits d_message.splits)

lemma takes_message_from: "\<not> takes_message i \<Longrightarrow> input_uplink i = {}"
  by (auto simp: takes_message_def input_uplink_def split: run_input.splits d_input.splits wait_input.splits)

lemma is_client_message_from: "\<not> is_client_message i \<Longrightarrow> client_packets i = {}"
  by (auto simp: is_client_message_def client_packets_def split: rc_input.splits)

lemma rc_message_packets: "rc_message_from ups m \<Longrightarrow> client_packets (RI_Message (Some m)) \<subseteq> ups"
  by (auto simp: rc_message_from_def client_packets_def split: rc_message.splits)

lemma recv_from:
  assumes "origin_ok X kp ups bcs s" and "channels_ok X"
  shows "mp_recv (sx_gateway_ch X) (gateway_q s) = Some (gm, gq) \<Longrightarrow> origin_ok X kp ups bcs (s\<lparr>gateway_q := gq\<rparr>)"
    and "mp_recv (sx_beaconer_ch X) (beaconer_q s) = Some (bm, bq) \<Longrightarrow>
      bc_message_from bcs bm \<and> origin_ok X kp ups bcs (s\<lparr>beaconer_q := bq\<rparr>)"
    and "mp_recv (sx_dispatcher_ch X) (dispatcher_q s) = Some (dm, dq) \<Longrightarrow>
      d_message_from ups dm \<and> origin_ok X kp ups bcs (s\<lparr>dispatcher_q := dq\<rparr>)"
    and "mp_recv (sx_client_ch X) (client_q s ch) = Some (cm, cq) \<Longrightarrow>
      rc_message_from ups cm \<and> origin_ok X kp ups bcs (s\<lparr>client_q := (client_q s)(ch := cq)\<rparr>)"
  using assms origin_recv [of "sx_beaconer_ch X" "beaconer_q s" bm bq "bc_message_from bcs"]
    origin_recv [of "sx_dispatcher_ch X" "dispatcher_q s" dm dq "d_message_from ups"]
    origin_recv [of "sx_client_ch X" "client_q s ch" cm cq "rc_message_from ups"]
  by (simp_all add: origin_ok_def channels_ok_def)

lemma origin_ok_api [simp]:
  "origin_ok X kp ups bcs (crash s) \<longleftrightarrow> origin_ok X kp ups bcs s"
  "origin_ok X kp ups bcs (api_drop n s) \<longleftrightarrow> origin_ok X kp ups bcs s"
  "origin_ok X kp ups bcs (s\<lparr>api_wait := ms, api_flight := fl, api_next := k\<rparr>) \<longleftrightarrow> origin_ok X kp ups bcs s"
  by (simp_all add: origin_ok_def)

lemma step_from:
  assumes "sv_step X l s = Some (s', out)" and "frame_from X ups bcs l" and "channels_ok X"
    and "origin_ok X kp ups bcs s"
  shows "origin_ok X kp ups bcs s' \<and> list_all (output_from X kp ups bcs) out"
proof (cases l)
  case (L_Udp ev)
  then show ?thesis
    using assms by (auto simp: sv_step_def gateway_ready_def frame_from_def split: if_splits
        intro!: gateway_input_from)
next
  case L_GatewayMessage
  then show ?thesis
    using assms by (auto simp: sv_step_def gateway_ready_def split: if_splits
        intro!: gateway_input_from recv_from)
next
  case L_GatewayShutdown
  then show ?thesis
    using assms by (auto simp: sv_step_def gateway_ready_def split: if_splits intro!: gateway_input_from)
next
  case L_GatewayEffect
  then show ?thesis
    using assms gateway_do_from [OF _ assms(3), of _ "s\<lparr>gateway_out := tl (gateway_out s)\<rparr>" s' out kp ups bcs]
    by (auto simp: sv_step_def origin_ok_def split: if_splits list.splits)
next
  case L_BeaconerTick
  then show ?thesis
    using assms by (auto simp: sv_step_def beaconer_ready_def split: if_splits intro!: beaconer_input_from)
next
  case L_BeaconerMessage
  then show ?thesis
    using assms recv_from(2) [OF assms(4,3)]
    by (auto simp: sv_step_def beaconer_ready_def bc_message_from_def split: if_splits intro!: beaconer_input_from)
next
  case L_BeaconerShutdown
  then show ?thesis
    using assms by (auto simp: sv_step_def beaconer_ready_def split: if_splits intro!: beaconer_input_from)
next
  case L_BeaconerEffect
  then show ?thesis
    using assms beaconer_do_from [of X _ "s\<lparr>beaconer_out := tl (beaconer_out s)\<rparr>" s' out kp ups bcs]
    by (auto simp: sv_step_def origin_ok_def split: if_splits list.splits)
next
  case (L_Dispatcher i)
  then show ?thesis
    using assms
    by (auto simp: sv_step_def dispatcher_ready_def takes_message_from split: if_splits intro!: dispatcher_input_from)
next
  case L_DispatcherMessage
  then show ?thesis
    using assms recv_from(3) [OF assms(4,3)] message_input_from
    by (auto simp: sv_step_def dispatcher_ready_def split: if_splits option.splits
        intro!: dispatcher_input_from) blast
next
  case L_DispatcherEffect
  then show ?thesis
    using assms dispatcher_do_from [OF _ assms(3), of _ "s\<lparr>dispatcher_out := tl (dispatcher_out s)\<rparr>" s' out kp ups bcs]
    by (auto simp: sv_step_def origin_ok_def split: if_splits list.splits)
next
  case (L_Client ch i)
  then show ?thesis
    using assms
    by (auto simp: sv_step_def is_client_message_from split: if_splits option.splits intro!: client_input_from)
next
  case (L_ClientMessage ch)
  then obtain c m q where r: "mp_recv (sx_client_ch X) (client_q s ch) = Some (m, q)" and c: "sv_clients s ch = Some c"
    and s': "s' = client_input X ch c (RI_Message (Some m)) (s\<lparr>client_q := (client_q s)(ch := q)\<rparr>)" "out = []"
    using assms(1) by (auto simp: sv_step_def split: if_splits option.splits)
  from recv_from(4) [OF assms(4,3) r] rc_message_packets c show ?thesis by (simp add: s' client_input_from)
next
  case (L_ClientEffect ch)
  then obtain e es where c: "client_out s ch = e # es"
    and d: "client_do X ch e (s\<lparr>client_out := (client_out s)(ch := es)\<rparr>) = Some (s', out)"
    using assms(1) by (auto simp: sv_step_def split: if_splits list.splits)
  have "list_all (rc_event_from X kp ups) (client_out s ch)" using assms(4) by (simp add: origin_ok_def)
  then have e: "rc_event_from X kp ups e" "list_all (rc_event_from X kp ups) es" by (simp_all add: c)
  then have "origin_ok X kp ups bcs (s\<lparr>client_out := (client_out s)(ch := es)\<rparr>)"
    using assms(4) by (simp add: origin_ok_def)
  from client_do_from [OF d this e(1)] show ?thesis .
next
  case (L_Updater ev)
  then show ?thesis
    using assms updater_input_frame [of X ev s s']
    by (auto simp: sv_step_def origin_ok_def split: if_splits)
next
  case (L_ApiRequest m)
  then show ?thesis
    using assms
    by (auto simp: sv_step_def origin_ok_def channels_ok_def mpsc_send(1) is_uplink_request_def d_message_from_def
        split: if_splits d_message.splits)
next
  case (L_ApiReceive m)
  then show ?thesis using assms by (auto simp: sv_step_def split: if_splits dest!: api_receive_frame)
next
  case (L_ApiGone n)
  then show ?thesis using assms by (auto simp: sv_step_def split: if_splits)
next
  case L_ApiShutdown
  then show ?thesis using assms by (auto simp: sv_step_def origin_ok_def split: if_splits)
next
  case (L_ApiFailed e)
  then show ?thesis using assms by (auto simp: sv_step_def origin_ok_def split: if_splits)
qed

interpretation origin: run_invariant "sv_step X" "sv_run X" "frame_from X ups bcs"
  "\<lambda>s. channels_ok X \<longrightarrow> origin_ok X kp ups bcs s"
  "\<lambda>out. channels_ok X \<longrightarrow> output_from X kp ups bcs out" for X kp ups bcs
  by unfold_locales (auto simp: list_all_iff dest: step_from)

section \<open>The start\<close>

text \<open>What a server that could be started looks like.\<close>

lemma server_start_Ok:
  assumes "server_start X st w = (Ok s, w')" and "channels_ok X"
  shows "queues_within X s \<and> origin_ok X (set_keypair st) ups bcs s \<and>
    sv_beaconer s = Beaconer_new (set_keypair st) (set_poc st) \<and>
    Dispatcher_new (set_keypair st) (set_region st) (set_gateways st) (set_routers st)
      (max_packets_setting (set_cache st)) = Ok (sv_dispatcher s) \<and>
    sv_gateway s = Gateway_new (sx_default_mac X) (set_listen st) \<and> sv_phase s = Ph_Select \<and>
    mp_contents (sx_gateway_ch X) (gateway_q s) = [] \<and> mp_contents (sx_dispatcher_ch X) (dispatcher_q s) = [] \<and>
    mp_contents (sx_beaconer_ch X) (beaconer_q s) = [] \<and>
    beaconer_out s = [] \<and> gateway_out s = [] \<and> dispatcher_out s = [] \<and> client_out s = (\<lambda>_. []) \<and>
    sv_clients s = Map.empty \<and> sv_returned s = {} \<and> sv_result s = None \<and> sv_world s = w'"
  using assms
  by (auto simp: server_start_def Dispatcher_new_def Updater_new_def LocalServer_new_def Let_def channels_ok_def
      queues_within_def fits_new origin_ok_def mpsc_new Beaconer_new_def split: prod.splits sum.splits)

section \<open>The region of gateway and beaconer\<close>

definition region_message :: "beaconer_message \<Rightarrow> RegionParams option" where
  "region_message m = (case m of BM_RegionParamsChanged rp \<Rightarrow> Some rp | _ \<Rightarrow> None)"

definition region_effect :: "gw_effect \<Rightarrow> RegionParams option" where
  "region_effect e = (case e of GE_BeaconerRegion rp \<Rightarrow> Some rp | _ \<Rightarrow> None)"

text \<open>The region parameters on their way from the gateway to the beaconer, oldest first.\<close>

definition regions_under_way ::
  "('w, 'n, 'r, 'g, 'd, 'b, 'c) server_ext \<Rightarrow> ('w, 'g, 'd, 'b, 'c) server \<Rightarrow> RegionParams list" where
  "regions_under_way X s =
     List.map_filter region_message (mp_contents (sx_beaconer_ch X) (beaconer_q s)) @
     List.map_filter region_effect (gateway_out s)"

definition latest :: "RegionParams option \<Rightarrow> RegionParams list \<Rightarrow> RegionParams option" where
  "latest rp rps = (if rps = [] then rp else Some (last rps))"

definition regions_agree :: "('w, 'n, 'r, 'g, 'd, 'b, 'c) server_ext \<Rightarrow> ('w, 'g, 'd, 'b, 'c) server \<Rightarrow> bool" where
  "regions_agree X s \<longleftrightarrow>
     g_region_params (sv_gateway s) = latest (bc_region_params (sv_beaconer s)) (regions_under_way X s)"

lemma g_step_region:
  assumes "g_step U g i w = Inr (g', w', eff)"
  shows "g_region_params g' = latest (g_region_params g) (List.map_filter region_effect eff)"
proof (cases i)
  case (GI_Event ev)
  then show ?thesis
    using assms
    by (cases ev) (auto simp: g_step_def handle_udp_event_def g_handle_uplink_def latest_def region_effect_def
        map_filter_def split: rresult.splits if_splits prod.splits option.splits)
next
  case (GI_Message m)
  then show ?thesis
    using assms
    by (auto simp: g_step_def g_handle_message_def g_handle_downlink_def handle_transmit_beacon_def downlink_task_def
        latest_def region_effect_def map_filter_def Let_def
        split: option.splits gw_message.splits prod.splits rresult.splits if_splits)
qed (use assms in \<open>simp add: g_step_def\<close>)

lemma latest_append: "latest (latest rp xs) ys = latest rp (xs @ ys)"
  by (simp add: latest_def)

lemma map_filter_snoc: "List.map_filter f (xs @ [x]) = List.map_filter f xs @ (case f x of None \<Rightarrow> [] | Some y \<Rightarrow> [y])"
  by (simp add: map_filter_def split: option.splits)

lemma map_filter_Cons: "List.map_filter f (x # xs) = (case f x of None \<Rightarrow> [] | Some y \<Rightarrow> [y]) @ List.map_filter f xs"
  by (simp add: map_filter_def split: option.splits)

lemma gateway_input_region:
  assumes "regions_agree X s" and "gateway_out s = []"
  shows "regions_agree X (gateway_input X i s)"
proof (cases "g_step (sx_udp X) (sv_gateway s) i (sv_world s)")
  case (Inr a)
  obtain g w eff where a: "a = (g, w, eff)" by (metis prod_cases3)
  from g_step_region [OF Inr [unfolded a]] assms show ?thesis
    by (simp add: regions_agree_def regions_under_way_def gateway_input_def Inr a latest_append map_filter_def)
qed (use assms in \<open>simp add: regions_agree_def regions_under_way_def gateway_input_def\<close>)

lemma beaconer_input_region:
  assumes "regions_agree X s" and "\<And>m. ev \<noteq> BT_Message m"
  shows "regions_agree X (beaconer_input X ev s)"
proof -
  have "bc_region_params b = bc_region_params (sv_beaconer s)"
    if "bc_step (sx_beaconer X) (sv_beaconer s) ev (sv_world s) = Some (b, w, eff)" for b w eff
    using bc_step_cases [OF that] assms(2) by (cases ev) auto
  with assms(1) show ?thesis
    by (auto simp: beaconer_input_def regions_agree_def regions_under_way_def simp del: bc_step.simps split: option.splits)
qed

lemma beaconer_message_region:
  assumes "regions_agree X s" and "channels_ok X" and "mp_recv (sx_beaconer_ch X) (beaconer_q s) = Some (m, q)"
    and "beacon_ext_ok (bx_beacon (sx_beaconer X))"
  shows "regions_agree X (beaconer_input X (BT_Message (Some m)) (s\<lparr>beaconer_q := q\<rparr>))"
proof -
  have ok: "mpsc_ok (sx_beaconer_ch X)" using assms(2) by (simp add: channels_ok_def)
  obtain b w eff where st: "bc_step (sx_beaconer X) (sv_beaconer s) (BT_Message (Some m)) (sv_world s) = Some (b, w, eff)"
    using bc_step_total [OF assms(4)] by blast
  have "bc_region_params b = latest (bc_region_params (sv_beaconer s)) (case region_message m of None \<Rightarrow> [] | Some y \<Rightarrow> [y])"
    using bc_step_cases [OF st] by (auto simp: region_message_def latest_def split: beaconer_message.splits)
  with assms(1) show ?thesis
    by (simp add: regions_agree_def regions_under_way_def beaconer_input_def st mpsc_recv(1) [OF ok assms(3)]
        map_filter_Cons latest_append del: bc_step.simps split: option.splits)
qed

lemma gateway_do_region:
  assumes "gateway_do X e (s\<lparr>gateway_out := es\<rparr>) = Some (s', out)" and "channels_ok X" and "regions_agree X s"
    and "gateway_out s = e # es"
  shows "regions_agree X s'"
  using assms
  by (cases e) (auto simp: gateway_do_def regions_agree_def regions_under_way_def channels_ok_def mpsc_send(1)
      map_filter_Cons map_filter_snoc region_effect_def region_message_def)

lemma regions_agree_api [simp]:
  "regions_agree X (crash s) \<longleftrightarrow> regions_agree X s"
  "regions_agree X (api_drop n s) \<longleftrightarrow> regions_agree X s"
  "regions_agree X (s\<lparr>api_wait := ms, api_flight := fl, api_next := k\<rparr>) \<longleftrightarrow> regions_agree X s"
  by (simp_all add: regions_agree_def regions_under_way_def)

lemma step_region:
  assumes "sv_step X l s = Some (s', out)" and "channels_ok X" and "beacon_ext_ok (bx_beacon (sx_beaconer X))"
    and "regions_agree X s"
  shows "regions_agree X s'"
proof (cases l)
  case L_GatewayMessage
  then show ?thesis
    using assms gateway_input_region [of X "s\<lparr>gateway_q := _\<rparr>"]
    by (auto simp: sv_step_def gateway_ready_def regions_agree_def regions_under_way_def split: if_splits)
next
  case L_GatewayEffect
  then show ?thesis using assms gateway_do_region by (auto simp: sv_step_def split: if_splits list.splits)
next
  case L_BeaconerMessage
  then show ?thesis using assms beaconer_message_region by (auto simp: sv_step_def split: if_splits)
next
  case (L_Updater ev)
  then show ?thesis
    using assms updater_input_frame [of X ev s s']
    by (auto simp: sv_step_def regions_agree_def regions_under_way_def split: if_splits)
next
  case L_BeaconerEffect
  then show ?thesis
    using assms by (auto simp: sv_step_def beaconer_do_def regions_agree_def regions_under_way_def
        split: if_splits list.splits beaconer_effect.splits)
next
  case L_DispatcherEffect
  then show ?thesis
    using assms by (auto simp: sv_step_def dispatcher_do_def regions_agree_def regions_under_way_def
        split: if_splits list.splits effect.splits option.splits)
next
  case (L_ClientEffect ch)
  then show ?thesis
    using assms by (auto simp: sv_step_def client_do_def regions_agree_def regions_under_way_def
        split: if_splits list.splits rc_event.splits)
next
  case (L_Udp ev)
  then show ?thesis using assms gateway_input_region by (auto simp: sv_step_def gateway_ready_def split: if_splits)
next
  case L_GatewayShutdown
  then show ?thesis using assms gateway_input_region by (auto simp: sv_step_def gateway_ready_def split: if_splits)
next
  case L_BeaconerTick
  then show ?thesis using assms beaconer_input_region by (auto simp: sv_step_def split: if_splits)
next
  case L_BeaconerShutdown
  then show ?thesis using assms beaconer_input_region by (auto simp: sv_step_def split: if_splits)
next
  case (L_ApiReceive m)
  then show ?thesis using assms by (auto simp: sv_step_def split: if_splits dest!: api_receive_frame)
next
  case (L_ApiGone n)
  then show ?thesis using assms by (auto simp: sv_step_def split: if_splits)
qed (use assms in \<open>auto simp: sv_step_def regions_agree_def regions_under_way_def split: if_splits option.splits\<close>)

interpretation region: run_invariant "sv_step X" "sv_run X" "\<lambda>_. True"
  "\<lambda>s. channels_ok X \<and> beacon_ext_ok (bx_beacon (sx_beaconer X)) \<longrightarrow> regions_agree X s" "\<lambda>_. True" for X
  by unfold_locales (auto simp: list_all_iff dest: step_region)

lemma routed_verifies:
  assumes "routed_from E kp ps m" and "verifies V kp"
  shows "\<exists>p\<in>ps. routed_packet (Ev_Routed m) = Some p \<and> SCMessage_verify (sc_encode E) V (kp_public kp) m = Ok ()"
proof -
  obtain p rg hold msg where p: "p \<in> ps" "StateChannelMessage_packet (sc_encode E) p kp rg hold = Ok msg" "m = to_message msg"
    using assms(1) by (auto simp: routed_from_def)
  have "routed_packet (Ev_Routed m) = Some p"
    using p(2,3) by (auto simp: StateChannelMessage_packet_def bind_r_Ok_iff routed_packet_def)
  with p packet_message_verifies [OF p(2) assms(2)] show ?thesis by blast
qed

lemma witness_verifies:
  assumes "to_witness_report R p = Ok r" and "signed_witness Y kp r r'" and "verifies V kp"
  shows "(\<exists>h. p_payload p = h # wr_data r') \<and> wr_pub_key r' = kp_public kp \<and>
    V (kp_public kp) (bx_encode_witness Y (WitnessReport_clear r')) (wr_signature r') = Inr ()"
  using assms by (auto simp: signed_witness_def verifies_def witness_report_Ok_iff)

lemma Packet_from_rxpk_received:
  "Packet_from_rxpk R rx = Ok p \<Longrightarrow> rx_crc rx = CRC_OK \<and> p_payload p = rx_data rx \<and> p_datarate p = rx_datr rx"
  by (auto simp: Packet_from_rxpk_def Let_def bind_r_Ok_iff split: if_splits)

end
