(* ===== verification/Server_Radio.thy ===== *)
theory Server_Radio
  imports Server_Props
begin

text \<open>
  What the running server lets the radio transmit: every frame is a beacon of the gateway's own
  making or a router's answer to a packet the gateway had received, with a power that follows from
  region parameters a validator has delivered, and goes to a packet forwarder that is known.
\<close>

section \<open>What may be transmitted\<close>

text \<open>The router behind \<open>E\<close> can answer the message \<open>m\<close> with the packet \<open>p\<close>.\<close>

definition answered :: "'w router_ext \<Rightarrow> SCMessage \<Rightarrow> Packet \<Rightarrow> bool" where
  "answered E m p \<longleftrightarrow>
     (\<exists>w r w' msg. rpc_route E m w = (Inr r, w') \<and> from_message r = Some msg \<and> to_downlink msg = Ok (Some p))"

definition answer_from ::
  "('w, 'n, 'r, 'g, 'd, 'b, 'c) server_ext \<Rightarrow> Keypair \<Rightarrow> Packet set \<Rightarrow> Packet \<Rightarrow> bool" where
  "answer_from X kp ups p \<longleftrightarrow>
     (\<exists>u m. routed_from (sx_router X u) kp ups m \<and> answered (sx_router X u) m p)"

definition beacon_from :: "('w, 'n, 'r, 'g, 'd, 'b, 'c) server_ext \<Rightarrow> RegionParams set \<Rightarrow> Beacon \<Rightarrow> bool" where
  "beacon_from X regs b \<longleftrightarrow>
     (\<exists>rp re le. rp \<in> regs \<and> Beacon_new (bx_beacon (sx_beaconer X)) re le (params rp) = Ok b)"

definition tx_from ::
  "('w, 'n, 'r, 'g, 'd, 'b, 'c) server_ext \<Rightarrow> Keypair \<Rightarrow> Packet set \<Rightarrow> RegionParams set \<Rightarrow> TxPk \<Rightarrow> bool" where
  "tx_from X kp ups regs tx \<longleftrightarrow>
     (\<exists>rp pw. rp \<in> regs \<and> tx_power (decimals (sx_udp X)) rp = Some pw \<and>
        ((\<exists>p rx2. answer_from X kp ups p \<and> to_pull_resp (radio (sx_udp X)) p rx2 pw = Ok (Some tx)) \<or>
         (\<exists>b. beacon_from X regs b \<and> beacon_to_pull_resp (radio (sx_udp X)) b (ucast pw) = Ok tx)))"

section \<open>On the way to the radio\<close>

text \<open>
  The parts of the server on the way to the radio, with \<open>regs\<close> the region parameters delivered,
  \<open>macs\<close> the packet forwarders known and \<open>ups\<close> the uplinks received.
\<close>

definition gw_effect_tx ::
  "('w, 'n, 'r, 'g, 'd, 'b, 'c) server_ext \<Rightarrow> Keypair \<Rightarrow> Packet set \<Rightarrow> RegionParams set \<Rightarrow> mac set \<Rightarrow> gw_effect \<Rightarrow> bool" where
  "gw_effect_tx X kp ups regs macs e =
     (case e of
        GE_Dispatch m tx \<Rightarrow> m \<in> macs \<and> tx_from X kp ups regs tx
      | GE_BeaconerRegion rp \<Rightarrow> rp \<in> regs
      | _ \<Rightarrow> True)"

definition gw_message_tx ::
  "('w, 'n, 'r, 'g, 'd, 'b, 'c) server_ext \<Rightarrow> Keypair \<Rightarrow> Packet set \<Rightarrow> RegionParams set \<Rightarrow> gw_message \<Rightarrow> bool" where
  "gw_message_tx X kp ups regs m =
     (case m of
        GW_Downlink p \<Rightarrow> answer_from X kp ups p
      | GW_TransmitBeacon b \<Rightarrow> beacon_from X regs b
      | GW_RegionParamsChanged rp \<Rightarrow> rp \<in> regs)"

definition effect_tx :: "RegionParams set \<Rightarrow> effect \<Rightarrow> bool" where
  "effect_tx regs e = (case e of Eff_RegionParams rp \<Rightarrow> rp \<in> regs | _ \<Rightarrow> True)"

definition rc_event_tx ::
  "('w, 'n, 'r, 'g, 'd, 'b, 'c) server_ext \<Rightarrow> Keypair \<Rightarrow> Packet set \<Rightarrow> rc_event \<Rightarrow> bool" where
  "rc_event_tx X kp ups e = (case e of Ev_Downlink p \<Rightarrow> answer_from X kp ups p | _ \<Rightarrow> True)"

definition bc_effect_tx ::
  "('w, 'n, 'r, 'g, 'd, 'b, 'c) server_ext \<Rightarrow> RegionParams set \<Rightarrow> beaconer_effect \<Rightarrow> bool" where
  "bc_effect_tx X regs e = (case e of BX_Transmit b \<Rightarrow> beacon_from X regs b | _ \<Rightarrow> True)"

definition bc_message_tx :: "RegionParams set \<Rightarrow> beaconer_message \<Rightarrow> bool" where
  "bc_message_tx regs m = (case m of BM_RegionParamsChanged rp \<Rightarrow> rp \<in> regs | _ \<Rightarrow> True)"

lemmas tx_defs = gw_effect_tx_def gw_message_tx_def effect_tx_def rc_event_tx_def bc_effect_tx_def bc_message_tx_def

definition radio_ok ::
  "('w, 'n, 'r, 'g, 'd, 'b, 'c) server_ext \<Rightarrow> Keypair \<Rightarrow> Packet set \<Rightarrow> RegionParams set \<Rightarrow> mac set \<Rightarrow>
   ('w, 'g, 'd, 'b, 'c) server \<Rightarrow> bool" where
  "radio_ok X kp ups regs macs s \<longleftrightarrow>
     g_downlink_mac (sv_gateway s) \<in> macs \<and>
     set_option (g_region_params (sv_gateway s)) \<subseteq> regs \<and> set_option (bc_region_params (sv_beaconer s)) \<subseteq> regs \<and>
     list_all (gw_effect_tx X kp ups regs macs) (gateway_out s) \<and>
     list_all (gw_message_tx X kp ups regs) (mp_contents (sx_gateway_ch X) (gateway_q s)) \<and>
     list_all (effect_tx regs) (dispatcher_out s) \<and>
     (\<forall>ch. list_all (rc_event_tx X kp ups) (client_out s ch)) \<and>
     list_all (bc_effect_tx X regs) (beaconer_out s) \<and>
     list_all (bc_message_tx regs) (mp_contents (sx_beaconer_ch X) (beaconer_q s))"

text \<open>The parameters an input of the dispatcher can bring.\<close>

definition input_regions :: "'w gw_ext \<Rightarrow> run_input \<Rightarrow> RegionParams set" where
  "input_regions V i =
     (case i of
        RU_Select (SI_Proceed _) \<Rightarrow> {rp. \<exists>g rg kp w w'. region_params_for V g rg kp w = (Ok rp, w')}
      | RU_Connected (DI_Stream (Some (GS_RegionParams, Ok resp))) \<Rightarrow> {rp. response_region_params V resp = Ok rp}
      | _ \<Rightarrow> {})"

definition brings_from ::
  "('w, 'n, 'r, 'g, 'd, 'b, 'c) server_ext \<Rightarrow> RegionParams set \<Rightarrow> mac set \<Rightarrow> sv_label \<Rightarrow> bool" where
  "brings_from X regs macs l =
     (case l of
        L_Udp (UE_NewClient m _) \<Rightarrow> m \<in> macs
      | L_Dispatcher i \<Rightarrow> input_regions (sx_validator X) i \<subseteq> regs
      | _ \<Rightarrow> True)"

definition output_tx ::
  "('w, 'n, 'r, 'g, 'd, 'b, 'c) server_ext \<Rightarrow> Keypair \<Rightarrow> Packet set \<Rightarrow> RegionParams set \<Rightarrow> mac set \<Rightarrow> sv_output \<Rightarrow> bool" where
  "output_tx X kp ups regs macs out = (case out of O_Radio m tx \<Rightarrow> m \<in> macs \<and> tx_from X kp ups regs tx | _ \<Rightarrow> True)"

section \<open>The gateway\<close>

lemma downlink_task_tx:
  assumes "downlink_task (sx_udp X) m p pw w = Some (w', eff)" and "rp \<in> regs" and "m \<in> macs"
    and "tx_power (decimals (sx_udp X)) rp = Some pw" and "answer_from X kp ups p"
  shows "list_all (gw_effect_tx X kp ups regs macs) eff"
proof -
  have "gw_effect_tx X kp ups regs macs (GE_Dispatch m tx)" if "to_pull_resp (radio (sx_udp X)) p b pw = Ok (Some tx)" for b tx
    using that assms(2-5) by (auto simp: gw_effect_tx_def tx_from_def)
  then show ?thesis
    using assms(1) by (auto simp: downlink_task_def Let_def split: rresult.splits option.splits prod.splits if_splits)
qed

lemma handle_transmit_beacon_tx:
  assumes "handle_transmit_beacon (sx_udp X) g b w = Some (w', eff)" and "set_option (g_region_params g) \<subseteq> regs"
    and "g_downlink_mac g \<in> macs" and "beacon_from X regs b"
  shows "list_all (gw_effect_tx X kp ups regs macs) eff"
  using assms
  by (auto simp: handle_transmit_beacon_def gw_effect_tx_def tx_from_def Let_def
      split: option.splits rresult.splits prod.splits) blast

lemma g_handle_message_tx:
  assumes "g_handle_message (sx_udp X) g m w = Some (g', w', eff)" and "gw_message_tx X kp ups regs m"
    and "set_option (g_region_params g) \<subseteq> regs" and "g_downlink_mac g \<in> macs"
  shows "set_option (g_region_params g') \<subseteq> regs \<and> g_downlink_mac g' \<in> macs \<and>
    list_all (gw_effect_tx X kp ups regs macs) eff"
proof (cases m)
  case (GW_Downlink p)
  then show ?thesis
    using assms downlink_task_tx [of X "g_downlink_mac g" p _ w w' eff _ regs macs kp ups]
    by (auto simp: g_handle_message_def g_handle_downlink_def gw_message_tx_def split: option.splits)
next
  case (GW_TransmitBeacon b)
  then show ?thesis
    using assms handle_transmit_beacon_tx by (auto simp: g_handle_message_def gw_message_tx_def)
qed (use assms in \<open>auto simp: g_handle_message_def tx_defs\<close>)

lemma handle_udp_event_tx:
  assumes "handle_udp_event U g ev w = Some (g', w', eff)" and "\<And>m a. ev = UE_NewClient m a \<Longrightarrow> m \<in> macs"
    and "g_downlink_mac g \<in> macs"
  shows "g_region_params g' = g_region_params g \<and> g_downlink_mac g' \<in> macs \<and>
    list_all (gw_effect_tx X kp ups regs macs) eff"
  using assms
  by (cases ev) (auto simp: handle_udp_event_def g_handle_uplink_def gw_effect_tx_def
      split: rresult.splits if_splits prod.splits)

lemma gateway_input_tx:
  assumes "radio_ok X kp ups regs macs s" and "gateway_out s = []"
    and "\<And>m a. i = GI_Event (UE_NewClient m a) \<Longrightarrow> m \<in> macs"
    and "\<And>m. i = GI_Message (Some m) \<Longrightarrow> gw_message_tx X kp ups regs m"
  shows "radio_ok X kp ups regs macs (gateway_input X i s)"
proof (cases "g_step (sx_udp X) (sv_gateway s) i (sv_world s)")
  case (Inr a)
  obtain g w eff where a: "a = (g, w, eff)" by (metis prod_cases3)
  have s: "set_option (g_region_params (sv_gateway s)) \<subseteq> regs" "g_downlink_mac (sv_gateway s) \<in> macs"
    using assms(1) by (simp_all add: radio_ok_def)
  have "set_option (g_region_params g) \<subseteq> regs \<and> g_downlink_mac g \<in> macs \<and> list_all (gw_effect_tx X kp ups regs macs) eff"
  proof (cases i)
    case (GI_Event ev)
    then show ?thesis
      using Inr s assms(3) handle_udp_event_tx [of "sx_udp X" "sv_gateway s" ev "sv_world s" g w eff macs X kp ups regs]
      by (auto simp: a g_step_def split: option.splits)
  next
    case (GI_Message m)
    then show ?thesis
      using Inr s assms(4) g_handle_message_tx [of X "sv_gateway s" "the m" "sv_world s" g w eff kp ups regs macs]
      by (auto simp: a g_step_def split: option.splits)
  qed (use Inr in \<open>simp add: g_step_def\<close>)
  with assms(1) show ?thesis by (simp add: radio_ok_def gateway_input_def Inr a)
qed (use assms in \<open>simp add: radio_ok_def gateway_input_def\<close>)

section \<open>The beaconer\<close>

lemma submit_beacon_tx: "submit_beacon Y u r kp w = (x, w', eff) \<Longrightarrow> BX_Transmit beacon \<notin> set eff"
  using submit_beacon_effects [of Y u r kp w] by auto

lemma send_beacon_tx:
  assumes "send_beacon Y b w = Some (w', eff)" and "BX_Transmit beacon \<in> set eff"
  shows "\<exists>rp re le. bc_region_params b = Some rp \<and> Beacon_new (bx_beacon Y) re le (params rp) = Ok beacon"
proof -
  obtain w1 where "mk_beacon Y b w = (Ok beacon, w1)"
    using assms by (auto simp: send_beacon_def Let_def dest: submit_beacon_tx split: prod.splits rresult.splits)
  then show ?thesis
    by (auto simp: mk_beacon_def Let_def case_prod_beta bind_r_Ok_iff split: rresult.splits prod.splits option.splits)
qed

lemma beaconer_input_tx:
  assumes "radio_ok X kp ups regs macs s" and "beaconer_out s = []"
    and "\<And>m. ev = BT_Message (Some m) \<Longrightarrow> bc_message_tx regs m"
  shows "radio_ok X kp ups regs macs (beaconer_input X ev s)"
proof (cases "ev \<noteq> BT_Shutdown \<and> bc_step (sx_beaconer X) (sv_beaconer s) ev (sv_world s) \<noteq> None")
  case True
  then obtain b w eff where st: "bc_step (sx_beaconer X) (sv_beaconer s) ev (sv_world s) = Some (b, w, eff)" by auto
  note c = bc_step_cases [OF st]
  have r: "set_option (bc_region_params (sv_beaconer s)) \<subseteq> regs" using assms(1) by (simp add: radio_ok_def)
  then have "set_option (bc_region_params b) \<subseteq> regs"
    using c assms(3) by (auto simp: bc_message_tx_def split: beaconer_event.splits option.splits beaconer_message.splits)
  moreover have "bc_effect_tx X regs e" if "e \<in> set eff" for e
  proof (cases e)
    case (BX_Transmit beacon)
    then have "ev = BT_Tick" using c that by (auto elim!: step_effectsE)
    then show ?thesis
      using st send_beacon_tx [of "sx_beaconer X" "sv_beaconer s" "sv_world s" w eff beacon] that r
      by (auto simp: BX_Transmit bc_effect_tx_def beacon_from_def)
  qed (simp_all add: bc_effect_tx_def)
  ultimately show ?thesis
    using assms(1) st True by (simp add: radio_ok_def beaconer_input_def list_all_iff del: bc_step.simps)
next
  case False
  then have "beaconer_input X ev s = (if ev = BT_Shutdown then finish T_Beaconer (Ok ()) s else crash s)"
    by (auto simp: beaconer_input_def split: option.splits)
  with assms(1) show ?thesis by (simp add: radio_ok_def)
qed

section \<open>The dispatcher\<close>

lemma update_router_tx: "list_all (effect_tx regs) (snd (update_router r d u))"
  by (auto simp: update_router_def start_router_eq effect_tx_def Let_def split: option.splits)

interpretation tells: routing_change "\<lambda>d d' eff. list_all (effect_tx regs) eff" for regs
  by unfold_locales (use update_router_tx in \<open>auto simp: list_all_iff effect_tx_def\<close>)

lemma d_handle_message_tx: "list_all (effect_tx regs) (snd (d_handle_message H V d m g w))"
  by (cases m) (auto simp: d_handle_message_def d_handle_uplink_def effect_tx_def list_all_iff Let_def case_prod_beta
      split: option.splits)

lemma run_with_gateway_step_tx:
  assumes "run_with_gateway_step H V g d i w = (r, d', w', eff)" and "input_regions V (RU_Connected i) \<subseteq> regs"
  shows "list_all (effect_tx regs) eff"
proof (cases i)
  case (DI_Stream m)
  show ?thesis
  proof (cases "\<exists>resp. m = Some (GS_RegionParams, Ok resp)")
    case True
    then show ?thesis
      using assms
      by (auto simp: DI_Stream run_with_gateway_step_def handle_region_params_update_def input_regions_def effect_tx_def
          list_all_iff Let_def split: if_splits rresult.splits)
  next
    case False
    then show ?thesis
      using assms(1)
      by (auto simp: DI_Stream run_with_gateway_step_def case_prod_beta Let_def dest: tells.handle_routing_update
          split: option.splits prod.splits rresult.splits gateway_stream.splits)
  qed
next
  case (DI_Message m)
  then show ?thesis
    using assms(1) d_handle_message_tx [of regs H V d _ "Some g" w]
    by (auto simp: run_with_gateway_step_def case_prod_beta Let_def split: option.splits) (metis snd_conv)
qed (use assms(1) in \<open>auto simp: run_with_gateway_step_def split: prod.splits rresult.splits\<close>)

lemma setup_gateway_streams_region:
  assumes "setup_gateway_streams V d gw w = (Ok (Some (g, rt, st, rp)), w')"
  shows "\<exists>w1. region_params_for V g (d_region d) (d_keypair d) w = (Ok rp, w1)"
  using assms by (auto simp: setup_gateway_streams_def Let_def case_prod_beta bind_r_Ok_iff
      split: option.splits prod.splits rresult.splits) (metis prod.collapse)

lemma select_step_tx:
  assumes "select_step V d i w = (ph, d', w', eff)" and "input_regions V (RU_Select i) \<subseteq> regs"
  shows "list_all (effect_tx regs) eff"
  using assms
  by (auto simp: select_step_def effect_tx_def input_regions_def dest!: setup_gateway_streams_region
      split: select_input.splits prod.splits rresult.splits option.splits) blast

lemma d_step_tx:
  assumes "d_step H V B ph d i w = (ph', d', w', eff)" and "input_regions V i \<subseteq> regs"
  shows "list_all (effect_tx regs) eff"
proof (cases i)
  case (RU_Select si)
  then show ?thesis using assms select_step_tx by (auto simp: d_step_def split: d_phase.splits)
next
  case (RU_Connected di)
  then show ?thesis
    using assms run_with_gateway_step_tx
    by (auto simp: d_step_def split: d_phase.splits prod.splits option.splits rresult.splits)
next
  case (RU_Wait wi)
  have "list_all (effect_tx regs) (snd (snd (snd (prepare_gateway_change H V B d wi w))))"
    using d_handle_message_tx
    by (auto simp: prepare_gateway_change_def Let_def case_prod_beta split: wait_input.splits option.splits)
  then show ?thesis using assms(1) by (auto simp: RU_Wait d_step_def Let_def split: d_phase.splits prod.splits)
qed

lemma dispatcher_input_tx:
  assumes "radio_ok X kp ups regs macs s" and "dispatcher_out s = []" and "input_regions (sx_validator X) i \<subseteq> regs"
  shows "radio_ok X kp ups regs macs (dispatcher_input X i s)"
proof -
  obtain ph d w eff where st:
    "d_step (sx_hash X) (sx_validator X) (gateway_backoff X) (sv_phase s) (sv_dispatcher s) i (sv_world s) = (ph, d, w, eff)"
    by (metis prod_cases4)
  from d_step_tx [OF st assms(3)] assms(1) show ?thesis
    by (simp add: radio_ok_def dispatcher_input_def st Let_def split: d_phase.splits)
qed

section \<open>The router clients\<close>

lemma handle_response_answer:
  "Ev_Downlink p \<in> set (snd (handle_response E r w)) \<Longrightarrow> \<exists>msg. r = Some msg \<and> to_downlink msg = Ok (Some p)"
  by (auto simp: handle_response_def rc_handle_downlink_def split: option.splits rresult.splits prod.splits)

lemma send_packet_answer:
  assumes "send_packet E c q w = (r, w', ev)"
  shows "Ev_Downlink p \<notin> set ev"
    and "r = Ok (Some msg) \<Longrightarrow> to_downlink msg = Ok (Some p) \<Longrightarrow>
      \<exists>m. routed_from E (rc_keypair c) {qp_packet q} m \<and> answered E m p"
proof -
  show "Ev_Downlink p \<notin> set ev"
    using assms by (auto simp: send_packet_def RouterService_route_def Let_def split: prod.splits rresult.splits)
  assume "r = Ok (Some msg)" "to_downlink msg = Ok (Some p)"
  with assms obtain hold m0 w0 resp w1 where
    "StateChannelMessage_packet (sc_encode E) (qp_packet q) (rc_keypair c) (rc_region c) hold = Ok m0"
    "rpc_route E (to_message m0) w0 = (Inr resp, w1)" "from_message resp = Some msg"
    by (auto simp: send_packet_def RouterService_route_def foreign_r_def Let_def split: prod.splits rresult.splits sum.splits)
  with \<open>to_downlink msg = _\<close> show "\<exists>m. routed_from E (rc_keypair c) {qp_packet q} m \<and> answered E m p"
    unfolding routed_from_def answered_def by blast
qed

lemma send_waiting_packets_answer:
  "send_waiting_packets E c w = (r, c', w', ev) \<Longrightarrow> Ev_Downlink p \<in> set ev \<Longrightarrow>
   \<exists>m. routed_from E (rc_keypair c) (held c) m \<and> answered E m p"
proof (induction E c w arbitrary: r c' w' ev rule: send_waiting_packets.induct)
  case (1 E c w)
  show ?case
  proof (cases "waiting_packets (rc_store c)")
    case Nil
    then show ?thesis
      using "1.prems" by (simp add: send_waiting_packets.simps [of E c] pop_waiting_packet_def)
  next
    case (Cons q qs)
    let ?c = "c\<lparr>rc_store := rc_store c\<lparr>waiting_packets := qs\<rparr>\<rparr>"
    have pop: "pop_waiting_packet (rc_store c) = (Some q, rc_store c\<lparr>waiting_packets := qs\<rparr>)"
      by (simp add: pop_waiting_packet_def Cons)
    obtain a w0 ev0 where sp: "send_packet E ?c q w = (a, w0, ev0)" by (metis prod_cases3)
    note none = send_packet_answer(1) [OF sp, of p]
    have sub: "held ?c \<subseteq> held c" "{qp_packet q} \<subseteq> held c" by (auto simp: held_def Cons)
    show ?thesis
    proof (cases a)
      case (Ok resp)
      obtain w1 ev1 where h: "handle_response E resp w0 = (w1, ev1)" by fastforce
      obtain r2 c2 w2 ev2 where s: "send_waiting_packets E ?c w1 = (r2, c2, w2, ev2)" by (metis prod_cases4)
      have "ev = ev0 @ ev1 @ ev2"
        using "1.prems"(1) by (simp add: send_waiting_packets.simps [of E c] pop sp Ok h s)
      with "1.prems"(2) none consider "Ev_Downlink p \<in> set ev1" | "Ev_Downlink p \<in> set ev2" by auto
      then show ?thesis
      proof cases
        case 1
        with handle_response_answer [of p E resp w0] h Ok send_packet_answer(2) [OF sp] sub(2)
        show ?thesis by (fastforce intro: routed_from_mono)
      next
        case 2
        from "1.IH" [OF pop [symmetric] refl sp [symmetric, unfolded Ok] refl refl refl h [symmetric] s 2] sub(1)
        show ?thesis by (auto intro: routed_from_mono)
      qed
    qed (use "1.prems" none in \<open>auto simp: send_waiting_packets.simps [of E c] pop sp\<close>)
  qed
qed

lemma rc_step_answer:
  assumes "rc_step E c i w = (Running c', w', ev)" and "Ev_Downlink p \<in> set ev"
  shows "\<exists>m. routed_from E (rc_keypair c) (held c \<union> client_packets i) m \<and> answered E m p"
proof (cases "\<exists>p t. i = RI_Message (Some (RM_Uplink p t))")
  case True
  then obtain q t where i: "i = RI_Message (Some (RM_Uplink q t))" by blast
  let ?c = "c\<lparr>rc_store := store_push (rc_store c) \<lparr>qp_received = t, qp_packet = q\<rparr>\<rparr>"
  obtain r c1 w1 ev1 where s: "send_waiting_packets E ?c w = (r, c1, w1, ev1)" by (metis prod_cases4)
  have "ev = ev1" using assms(1) by (cases r) (simp_all add: rc_step_def i rc_handle_uplink_eq s)
  with send_waiting_packets_answer [OF s, of p] assms(2) held_push [of c t q] show ?thesis
    by (auto simp: i client_packets_def intro: routed_from_mono)
next
  case False
  then show ?thesis
    using assms
    by (auto simp: rc_step_def Let_def split: rc_input.splits option.splits rc_message.splits prod.splits)
qed

lemma answered_client_ext [simp]: "answered (client_ext X c) = answered (sx_router X (rc_uri c))"
  by (simp add: fun_eq_iff answered_def client_ext_def)

lemma client_input_tx:
  assumes "radio_ok X kp ups regs macs s" and "client_from kp ups c" and "client_packets i \<subseteq> ups"
  shows "radio_ok X kp ups regs macs (client_input X ch c i s)"
proof -
  obtain c1 w ev where st: "rc_step (client_ext X c) c i (sv_world s) = (c1, w, ev)" by (metis prod_cases3)
  show ?thesis
  proof (cases c1)
    case (Running c')
    have "answer_from X kp ups p" if p: "Ev_Downlink p \<in> set ev" for p
    proof -
      from rc_step_answer [OF st [unfolded Running] p] obtain m where
        "routed_from (sx_router X (rc_uri c)) (rc_keypair c) (held c \<union> client_packets i) m" "answered (sx_router X (rc_uri c)) m p"
        by auto
      moreover from this(1) have "routed_from (sx_router X (rc_uri c)) kp ups m"
        using assms(2,3) by (auto simp: client_from_def intro: routed_from_mono)
      ultimately show ?thesis unfolding answer_from_def by blast
    qed
    then have "list_all (rc_event_tx X kp ups) ev" by (auto simp: list_all_iff rc_event_tx_def split: rc_event.splits)
    with assms(1) show ?thesis by (simp add: client_input_def st Running radio_ok_def)
  next
    case (Returned r)
    then show ?thesis using assms(1) by (cases r) (auto simp: client_input_def st radio_ok_def)
  qed
qed

section \<open>Effects\<close>

lemma gateway_do_tx:
  assumes "gateway_do X e s = Some (s', out)" and "channels_ok X" and "radio_ok X kp ups regs macs s"
    and "gw_effect_tx X kp ups regs macs e"
  shows "radio_ok X kp ups regs macs s' \<and> list_all (output_tx X kp ups regs macs) out"
  using assms
  by (cases e) (auto simp: gateway_do_def radio_ok_def channels_ok_def mpsc_send(1) output_tx_def tx_defs)

lemma beaconer_do_tx:
  assumes "beaconer_do X e s = Some (s', out)" and "channels_ok X" and "radio_ok X kp ups regs macs s"
    and "bc_effect_tx X regs e"
  shows "radio_ok X kp ups regs macs s' \<and> list_all (output_tx X kp ups regs macs) out"
  using assms
  by (cases e) (auto simp: beaconer_do_def radio_ok_def channels_ok_def mpsc_send(1) output_tx_def tx_defs)

lemma dispatcher_do_tx:
  assumes "dispatcher_do X e s = Some (s', out)" and "channels_ok X" and "radio_ok X kp ups regs macs s"
    and "effect_tx regs e"
  shows "radio_ok X kp ups regs macs s' \<and> list_all (output_tx X kp ups regs macs) out"
  using assms
  by (cases e) (auto simp: dispatcher_do_def radio_ok_def channels_ok_def mpsc_send(1) output_tx_def tx_defs
      split: option.splits)

lemma client_do_tx:
  assumes "client_do X ch e s = Some (s', out)" and "channels_ok X" and "radio_ok X kp ups regs macs s"
    and "rc_event_tx X kp ups e"
  shows "radio_ok X kp ups regs macs s' \<and> list_all (output_tx X kp ups regs macs) out"
  using assms
  by (cases e) (auto simp: client_do_def radio_ok_def channels_ok_def mpsc_send(1) output_tx_def tx_defs)

section \<open>Runs\<close>

lemma recv_tx:
  assumes "radio_ok X kp ups regs macs s" and "channels_ok X"
  shows "mp_recv (sx_gateway_ch X) (gateway_q s) = Some (gm, gq) \<Longrightarrow>
      gw_message_tx X kp ups regs gm \<and> radio_ok X kp ups regs macs (s\<lparr>gateway_q := gq\<rparr>)"
    and "mp_recv (sx_beaconer_ch X) (beaconer_q s) = Some (bm, bq) \<Longrightarrow>
      bc_message_tx regs bm \<and> radio_ok X kp ups regs macs (s\<lparr>beaconer_q := bq\<rparr>)"
  using assms origin_recv [of "sx_gateway_ch X" "gateway_q s" gm gq "gw_message_tx X kp ups regs"]
    origin_recv [of "sx_beaconer_ch X" "beaconer_q s" bm bq "bc_message_tx regs"]
  by (simp_all add: radio_ok_def channels_ok_def)

lemma message_input_regions: "message_input ph m = Some i \<Longrightarrow> input_regions V i = {}"
  by (auto simp: message_input_def input_regions_def split: d_phase.splits)

lemma radio_ok_api [simp]:
  "radio_ok X kp ups regs macs (crash s) \<longleftrightarrow> radio_ok X kp ups regs macs s"
  "radio_ok X kp ups regs macs (api_drop n s) \<longleftrightarrow> radio_ok X kp ups regs macs s"
  "radio_ok X kp ups regs macs (s\<lparr>api_wait := ms, api_flight := fl, api_next := k\<rparr>) \<longleftrightarrow> radio_ok X kp ups regs macs s"
  by (simp_all add: radio_ok_def)

lemma step_tx:
  assumes "sv_step X l s = Some (s', out)" and "brings_from X regs macs l" and "channels_ok X"
    and "origin_ok X kp ups bcs s" and "radio_ok X kp ups regs macs s"
  shows "radio_ok X kp ups regs macs s' \<and> list_all (output_tx X kp ups regs macs) out"
proof (cases l)
  case (L_Udp ev)
  then show ?thesis
    using assms by (auto simp: sv_step_def gateway_ready_def brings_from_def split: if_splits intro!: gateway_input_tx)
next
  case L_GatewayMessage
  then show ?thesis
    using assms recv_tx(1) [OF assms(5,3)]
    by (auto simp: sv_step_def gateway_ready_def split: if_splits intro!: gateway_input_tx)
next
  case L_GatewayShutdown
  then show ?thesis
    using assms by (auto simp: sv_step_def gateway_ready_def split: if_splits intro!: gateway_input_tx)
next
  case L_GatewayEffect
  then show ?thesis
    using assms gateway_do_tx [OF _ assms(3), of _ "s\<lparr>gateway_out := tl (gateway_out s)\<rparr>" s' out kp ups regs macs]
    by (auto simp: sv_step_def radio_ok_def split: if_splits list.splits)
next
  case L_BeaconerTick
  then show ?thesis
    using assms by (auto simp: sv_step_def beaconer_ready_def split: if_splits intro!: beaconer_input_tx)
next
  case L_BeaconerMessage
  then show ?thesis
    using assms recv_tx(2) [OF assms(5,3)]
    by (auto simp: sv_step_def beaconer_ready_def split: if_splits intro!: beaconer_input_tx)
next
  case L_BeaconerShutdown
  then show ?thesis
    using assms by (auto simp: sv_step_def beaconer_ready_def split: if_splits intro!: beaconer_input_tx)
next
  case L_BeaconerEffect
  then show ?thesis
    using assms beaconer_do_tx [OF _ assms(3), of _ "s\<lparr>beaconer_out := tl (beaconer_out s)\<rparr>" s' out kp ups regs macs]
    by (auto simp: sv_step_def radio_ok_def split: if_splits list.splits)
next
  case (L_Dispatcher i)
  then show ?thesis
    using assms
    by (auto simp: sv_step_def dispatcher_ready_def brings_from_def split: if_splits intro!: dispatcher_input_tx)
next
  case L_DispatcherMessage
  then obtain m q i where "dispatcher_out s = []" "message_input (sv_phase s) m = Some i"
    and s': "s' = dispatcher_input X i (s\<lparr>dispatcher_q := q\<rparr>)" "out = []"
    using assms(1) by (auto simp: sv_step_def dispatcher_ready_def split: if_splits option.splits)
  moreover have "radio_ok X kp ups regs macs (s\<lparr>dispatcher_q := q\<rparr>)" using assms(5) by (simp add: radio_ok_def)
  ultimately show ?thesis by (simp add: dispatcher_input_tx message_input_regions)
next
  case L_DispatcherEffect
  then show ?thesis
    using assms dispatcher_do_tx [OF _ assms(3), of _ "s\<lparr>dispatcher_out := tl (dispatcher_out s)\<rparr>" s' out kp ups regs macs]
    by (auto simp: sv_step_def radio_ok_def split: if_splits list.splits)
next
  case (L_Client ch i)
  then obtain c where c: "sv_clients s ch = Some c" and "\<not> is_client_message i"
    and s': "s' = client_input X ch c i s" "out = []"
    using assms(1) by (auto simp: sv_step_def split: if_splits option.splits)
  moreover have "client_from kp ups c" using c assms(4) by (simp add: origin_ok_def)
  ultimately show ?thesis using assms(5) by (simp add: client_input_tx is_client_message_from)
next
  case (L_ClientMessage ch)
  then obtain c m q where r: "mp_recv (sx_client_ch X) (client_q s ch) = Some (m, q)" and c: "sv_clients s ch = Some c"
    and s': "s' = client_input X ch c (RI_Message (Some m)) (s\<lparr>client_q := (client_q s)(ch := q)\<rparr>)" "out = []"
    using assms(1) by (auto simp: sv_step_def split: if_splits option.splits)
  have "client_from kp ups c" using c assms(4) by (simp add: origin_ok_def)
  moreover have "client_packets (RI_Message (Some m)) \<subseteq> ups"
    using recv_from(4) [OF assms(4,3) r] rc_message_packets by blast
  moreover have "radio_ok X kp ups regs macs (s\<lparr>client_q := (client_q s)(ch := q)\<rparr>)" using assms(5) by (simp add: radio_ok_def)
  ultimately show ?thesis by (simp add: s' client_input_tx)
next
  case (L_ClientEffect ch)
  then obtain e es where c: "client_out s ch = e # es"
    and d: "client_do X ch e (s\<lparr>client_out := (client_out s)(ch := es)\<rparr>) = Some (s', out)"
    using assms(1) by (auto simp: sv_step_def split: if_splits list.splits)
  have "list_all (rc_event_tx X kp ups) (client_out s ch)" using assms(5) by (simp add: radio_ok_def)
  then have e: "rc_event_tx X kp ups e" "list_all (rc_event_tx X kp ups) es" by (simp_all add: c)
  then have "radio_ok X kp ups regs macs (s\<lparr>client_out := (client_out s)(ch := es)\<rparr>)"
    using assms(5) by (simp add: radio_ok_def)
  from client_do_tx [OF d assms(3) this e(1)] show ?thesis .
next
  case (L_Updater ev)
  then show ?thesis
    using assms updater_input_frame [of X ev s s']
    by (auto simp: sv_step_def radio_ok_def split: if_splits)
next
  case (L_ApiReceive m)
  then show ?thesis using assms by (auto simp: sv_step_def split: if_splits dest!: api_receive_frame)
next
  case (L_ApiGone n)
  then show ?thesis using assms by (auto simp: sv_step_def split: if_splits)
qed (use assms in \<open>auto simp: sv_step_def radio_ok_def split: if_splits\<close>)

interpretation radio_use: run_invariant "sv_step X" "sv_run X"
  "\<lambda>l. frame_from X ups bcs l \<and> brings_from X regs macs l"
  "\<lambda>s. channels_ok X \<longrightarrow> origin_ok X kp ups bcs s \<and> radio_ok X kp ups regs macs s"
  "\<lambda>out. channels_ok X \<longrightarrow> output_tx X kp ups regs macs out" for X kp ups bcs regs macs
  by unfold_locales (auto simp: list_all_iff dest: step_from step_tx)

lemma server_start_radio:
  assumes "server_start X st w = (Ok s, w')" and "channels_ok X" and "sx_default_mac X \<in> macs"
  shows "radio_ok X kp ups regs macs s"
  using server_start_Ok [OF assms(1,2), of "{}" "{}"] assms(3)
  by (simp add: radio_ok_def Gateway_new_def Beaconer_new_def)

section \<open>The frames transmitted\<close>

text \<open>The region parameters that validators have delivered in the course of a run.\<close>

definition delivered_regions :: "('w, 'n, 'r, 'g, 'd, 'b, 'c) server_ext \<Rightarrow> sv_label list \<Rightarrow> RegionParams set" where
  "delivered_regions X ls = (\<Union>i\<in>{i. L_Dispatcher i \<in> set ls}. input_regions (sx_validator X) i)"

definition known_macs :: "('w, 'n, 'r, 'g, 'd, 'b, 'c) server_ext \<Rightarrow> sv_label list \<Rightarrow> mac set" where
  "known_macs X ls = insert (sx_default_mac X) {m. \<exists>a. L_Udp (UE_NewClient m a) \<in> set ls}"

definition received_uplinks :: "('w, 'n, 'r, 'g, 'd, 'b, 'c) server_ext \<Rightarrow> sv_label list \<Rightarrow> Packet set" where
  "received_uplinks X ls = {p. \<exists>rx m. L_Udp (UE_PacketReceived rx m) \<in> set ls \<and>
     Packet_from_rxpk (radio (sx_udp X)) rx = Ok p \<and> \<not> is_potential_beacon p}"

text \<open>A frame that may be transmitted, by what it carries.\<close>

lemma answer_frame:
  assumes "to_pull_resp R d rx2 pw = Ok (Some tx)"
  shows "powe tx = ucast pw \<and> tx_data tx = p_payload d \<and> ipol tx \<and>
    (\<exists>t \<in> insert (p_timestamp d) (w_timestamp ` set_option (p_rx2_window d)). tmst tx = Some (SN_N (ucast t)))"
  using assms by (cases rx2) (auto simp: to_pull_resp_rx1 to_pull_resp_rx2 split: sum.splits option.splits)

lemma beacon_frame:
  assumes "beacon_to_pull_resp R b pw = Ok tx"
  shows "powe tx = pw \<and> tx_data tx = 0xE0 # b_data b \<and> \<not> ipol tx \<and> imme tx"
  using assms by (auto simp: beacon_to_pull_resp_def beacon_bytes bind_r_Ok_iff Let_def)

lemma tx_from_frame:
  assumes "tx_from X kp ups regs tx"
  shows "\<exists>rp pw. rp \<in> regs \<and> tx_power (decimals (sx_udp X)) rp = Some pw \<and> powe tx = ucast pw \<and>
    ((\<exists>u m d. routed_from (sx_router X u) kp ups m \<and> answered (sx_router X u) m d \<and> tx_data tx = p_payload d \<and> ipol tx \<and>
        (\<exists>t \<in> insert (p_timestamp d) (w_timestamp ` set_option (p_rx2_window d)). tmst tx = Some (SN_N (ucast t)))) \<or>
     (\<exists>rp' re le b. rp' \<in> regs \<and> Beacon_new (bx_beacon (sx_beaconer X)) re le (params rp') = Ok b \<and>
        tx_data tx = 0xE0 # b_data b \<and> \<not> ipol tx \<and> imme tx))"
proof -
  obtain rp pw where rp: "rp \<in> regs" "tx_power (decimals (sx_udp X)) rp = Some pw"
    and tx: "(\<exists>p rx2. answer_from X kp ups p \<and> to_pull_resp (radio (sx_udp X)) p rx2 pw = Ok (Some tx)) \<or>
      (\<exists>b. beacon_from X regs b \<and> beacon_to_pull_resp (radio (sx_udp X)) b (ucast pw) = Ok tx)"
    using assms unfolding tx_from_def by blast
  from tx show ?thesis
  proof (elim disjE exE conjE)
    fix d rx2
    assume a: "answer_from X kp ups d" and t: "to_pull_resp (radio (sx_udp X)) d rx2 pw = Ok (Some tx)"
    from a obtain u m where "routed_from (sx_router X u) kp ups m" "answered (sx_router X u) m d"
      unfolding answer_from_def by blast
    with rp answer_frame [OF t] show ?thesis
      by (intro exI [of _ rp] exI [of _ pw] conjI disjI1 exI [of _ u] exI [of _ m] exI [of _ d]) auto
  next
    fix b
    assume a: "beacon_from X regs b" and t: "beacon_to_pull_resp (radio (sx_udp X)) b (ucast pw) = Ok tx"
    from a obtain rp' re le where "rp' \<in> regs" "Beacon_new (bx_beacon (sx_beaconer X)) re le (params rp') = Ok b"
      unfolding beacon_from_def by blast
    with rp beacon_frame [OF t] show ?thesis
      by - (rule exI [of _ rp], rule exI [of _ pw], blast)
  qed
qed

lemma run_tx:
  assumes "channels_ok X" and "server_start X st w = (Ok s0, w0)" and "sv_run X ls s0 = Some (s, out)"
    and "O_Radio m tx \<in> set out"
  shows "m \<in> known_macs X ls \<and> tx_from X (set_keypair st) (received_uplinks X ls) (delivered_regions X ls) tx"
proof -
  let ?ups = "received_uplinks X ls" and ?regs = "delivered_regions X ls" and ?macs = "known_macs X ls"
  have "list_all (\<lambda>l. frame_from X ?ups UNIV l \<and> brings_from X ?regs ?macs l) ls"
    by (auto simp: list_all_iff frame_from_def brings_from_def received_uplinks_def delivered_regions_def known_macs_def
        split: sv_label.splits udp_event.splits)
  moreover have "origin_ok X (set_keypair st) ?ups UNIV s0" "radio_ok X (set_keypair st) ?ups ?regs ?macs s0"
    using server_start_Ok [OF assms(2,1)] server_start_radio [OF assms(2,1)] by (simp_all add: known_macs_def)
  ultimately have "\<forall>x\<in>set out. output_tx X (set_keypair st) ?ups ?regs ?macs x"
    using radio_use.run_inv [OF assms(3), of ?ups UNIV ?regs ?macs "set_keypair st"] assms(1) by (simp add: list_all_iff)
  from bspec [OF this assms(4)] show ?thesis by (simp add: output_tx_def)
qed

section \<open>An answer is transmitted\<close>

text \<open>A router that answers every message with the same downlink.\<close>

definition answers_with :: "'w router_ext \<Rightarrow> Packet \<Rightarrow> bool" where
  "answers_with E d \<longleftrightarrow>
     (\<forall>m w. \<exists>w'. rpc_route E m w = (Inr \<lparr>scm_msg = Some (Msg_Response \<lparr>scr_downlink = Some d\<rparr>)\<rparr>, w'))"

definition signs :: "Keypair \<Rightarrow> bool" where
  "signs kp \<longleftrightarrow> (\<forall>buf. \<exists>sig. kp_sign kp buf = Inr sig)"

lemma packet_message_signs:
  assumes "signs kp"
  obtains m where "StateChannelMessage_packet enc p kp rg h = Ok m" "routed_packet (Ev_Routed (to_message m)) = Some p"
proof -
  obtain m where "StateChannelMessage_packet enc p kp rg h = Ok m"
    using assms by (auto simp: signs_def StateChannelMessage_packet_def SCPacket_sign_def msg_sign_def Let_def)
      (metis bind_r.simps(1) foreign_r_simps(2))
  moreover from this have "routed_packet (Ev_Routed (to_message m)) = Some p"
    by (auto simp: StateChannelMessage_packet_def bind_r_Ok_iff routed_packet_def)
  ultimately show ?thesis by (rule that)
qed

lemma client_answers:
  assumes "answers_with E d" and "signs (rc_keypair c)" and "waiting_packets (rc_store c) = []"
    and "0 < max_packets (rc_store c)"
  obtains c' w' m where "rc_step E c (RI_Message (Some (RM_Uplink p t))) w = (Running c', w', [Ev_Routed m, Ev_Downlink d])"
    "routed_packet (Ev_Routed m) = Some p"
proof -
  let ?q = "\<lparr>qp_received = t, qp_packet = p\<rparr>"
  let ?c = "c\<lparr>rc_store := store_push (rc_store c) ?q\<rparr>"
  let ?cd = "c\<lparr>rc_store := (store_push (rc_store c) ?q)\<lparr>waiting_packets := []\<rparr>\<rparr>"
  have "0 < unat (max_packets (rc_store c))" using assms(4) by (simp add: word_less_nat_alt)
  then have "waiting_packets (store_push (rc_store c) ?q) = [?q]"
    using rs.push_contents [of "rc_store c" ?q] assms(3) by (simp add: lastn_def)
  then have w: "waiting_packets (rc_store ?c) = [?q]" by simp
  obtain now w1 where n: "clock_now E w = (now, w1)" by fastforce
  obtain m where m: "StateChannelMessage_packet (sc_encode E) p (rc_keypair c) (rc_region c)
      (of_nat (hold_time now ?q div 1000000)) = Ok m" "routed_packet (Ev_Routed (to_message m)) = Some p"
    by (rule packet_message_signs [OF assms(2)])
  obtain w2 where r: "rpc_route E (to_message m) w1 = (Inr \<lparr>scm_msg = Some (Msg_Response \<lparr>scr_downlink = Some d\<rparr>)\<rparr>, w2)"
    using assms(1) by (auto simp: answers_with_def)
  have sp: "send_packet E ?cd ?q w =
      (Ok (Some (StateChannelMessage (Msg_Response \<lparr>scr_downlink = Some d\<rparr>))), w2, [Ev_Routed (to_message m)])"
    using m(1) by (simp add: send_packet_def n RouterService_route_def r from_message_def)
  obtain b w3 where h: "send_downlink E d w2 = (b, w3)" by fastforce
  have none: "send_waiting_packets E ?cd w3 = (Ok (), ?cd, w3, [])"
    by (simp add: send_waiting_packets.simps [of E ?cd] pop_waiting_packet_def)
  have pop: "pop_waiting_packet (store_push (rc_store c) ?q) = (Some ?q, (store_push (rc_store c) ?q)\<lparr>waiting_packets := []\<rparr>)"
    using w by (simp add: pop_waiting_packet_def)
  have "send_waiting_packets E ?c w = (Ok (), ?cd, w3, [Ev_Routed (to_message m), Ev_Downlink d])"
    using sp by (simp add: send_waiting_packets.simps [of E ?c] pop handle_response_def from_state_channel_response_def
        rc_handle_downlink_def h none)
  then have "rc_step E c (RI_Message (Some (RM_Uplink p t))) w = (Running ?cd, w3, [Ev_Routed (to_message m), Ev_Downlink d])"
    by (simp add: rc_step_def rc_handle_uplink_eq)
  with m(2) that show ?thesis by blast
qed

lemma downlink_transmitted:
  assumes "to_pull_resp (radio U) d False pw = Ok (Some tx)"
    and "\<And>rx2. p_rx2_window d = Some rx2 \<Longrightarrow> window_datarate_ok (radio U) (w_datarate rx2)"
  shows "\<exists>w' eff. downlink_task U m d pw w = Some (w', GE_Dispatch m tx # eff)"
proof -
  obtain o2 where "to_pull_resp (radio U) d True pw = Ok o2"
    using assms(2) by (cases "p_rx2_window d") (auto simp: to_pull_resp_rx2 window_datarate_ok_def)
  with assms(1) show ?thesis
    by (auto simp: downlink_task_def case_prod_beta Let_def split: option.splits)
qed

lemma answer_transmitted:
  assumes ok: "channels_ok X" and q: "queues_within X s" and "sv_result s = None"
    and c: "sv_clients s ch = Some c" "client_out s ch = []" "waiting_packets (rc_store c) = []" "0 < max_packets (rc_store c)"
    and "signs (rc_keypair c)" and "answers_with (sx_router X (rc_uri c)) d"
    and m: "mp_contents (sx_client_ch X) (client_q s ch) = RM_Uplink p t # ms"
    and g: "gateway_ready s" "mp_contents (sx_gateway_ch X) (gateway_q s) = []"
    and "g_region_params (sv_gateway s) = Some rp" and "tx_power (decimals (sx_udp X)) rp = Some pw"
    and "to_pull_resp (radio (sx_udp X)) d False pw = Ok (Some tx)"
    and "\<And>rx2. p_rx2_window d = Some rx2 \<Longrightarrow> window_datarate_ok (radio (sx_udp X)) (w_datarate rx2)"
  shows "\<exists>s' m. sv_run X [L_ClientMessage ch, L_ClientEffect ch, L_ClientEffect ch, L_GatewayMessage, L_GatewayEffect] s =
      Some (s', [O_Router ch m, O_Radio (g_downlink_mac (sv_gateway s)) tx]) \<and> routed_packet (Ev_Routed m) = Some p"
proof -
  obtain cq where r: "mp_recv (sx_client_ch X) (client_q s ch) = Some (RM_Uplink p t, cq)"
    using mpsc_recv_ready [OF _ m] ok by (auto simp: channels_ok_def)
  have "answers_with (client_ext X c) d" using assms(9) by (simp add: answers_with_def client_ext_def)
  from client_answers [OF this assms(8) c(3,4)] obtain c' w1 m where
    st: "rc_step (client_ext X c) c (RI_Message (Some (RM_Uplink p t))) (sv_world s) =
      (Running c', w1, [Ev_Routed m, Ev_Downlink d])" and rp: "routed_packet (Ev_Routed m) = Some p" by blast
  let ?s1 = "s\<lparr>client_q := (client_q s)(ch := cq), sv_clients := (sv_clients s)(ch \<mapsto> c'), sv_world := w1,
    client_out := (client_out s)(ch := [Ev_Routed m, Ev_Downlink d])\<rparr>"
  have 1: "sv_step X (L_ClientMessage ch) s = Some (?s1, [])"
    by (simp add: sv_step_def c r client_ready_def assms(3) client_input_def st)
  let ?s2 = "?s1\<lparr>client_out := (client_out s)(ch := [Ev_Downlink d])\<rparr>"
  have 2: "sv_step X (L_ClientEffect ch) ?s1 = Some (?s2, [O_Router ch m])"
    by (simp add: sv_step_def client_do_def assms(3))
  obtain gq where sd: "mp_send (sx_gateway_ch X) (GW_Downlink d) (gateway_q s) = Some gq"
    using mpsc_send_ready [of "sx_gateway_ch X" "gateway_q s" "GW_Downlink d"] ok q g(2)
    by (auto simp: channels_ok_def queues_within_def fits_def)
  let ?s3 = "?s2\<lparr>client_out := (client_out s)(ch := []), gateway_q := gq\<rparr>"
  have 3: "sv_step X (L_ClientEffect ch) ?s2 = Some (?s3, [])"
    by (simp add: sv_step_def client_do_def assms(3) sd)
  have "mp_contents (sx_gateway_ch X) gq = [GW_Downlink d]"
    using mpsc_send(1) [OF _ sd] ok g(2) by (simp add: channels_ok_def)
  then obtain gq' where rd: "mp_recv (sx_gateway_ch X) gq = Some (GW_Downlink d, gq')"
    using mpsc_recv_ready [of "sx_gateway_ch X" gq] ok by (auto simp: channels_ok_def)
  obtain w2 eff where dt: "downlink_task (sx_udp X) (g_downlink_mac (sv_gateway s)) d pw w1 =
      Some (w2, GE_Dispatch (g_downlink_mac (sv_gateway s)) tx # eff)"
    using downlink_transmitted [OF assms(15,16)] by blast
  let ?s4 = "?s3\<lparr>gateway_q := gq', sv_world := w2, gateway_out := GE_Dispatch (g_downlink_mac (sv_gateway s)) tx # eff\<rparr>"
  have 4: "sv_step X L_GatewayMessage ?s3 = Some (?s4, [])"
    using g(1) by (simp add: sv_step_def gateway_ready_def rd gateway_input_def g_step_def g_handle_message_def
        g_handle_downlink_def assms(13,14) dt)
  have 5: "sv_step X L_GatewayEffect ?s4 = Some (?s4\<lparr>gateway_out := eff\<rparr>, [O_Radio (g_downlink_mac (sv_gateway s)) tx])"
    by (simp add: sv_step_def gateway_do_def assms(3))
  show ?thesis
    using sv.run_ConsI [OF 1 sv.run_ConsI [OF 2 sv.run_ConsI [OF 3 sv.run_ConsI [OF 4 sv.run_ConsI [OF 5 sv.run_Nil]]]]] rp
    by (simp only: append_Nil append_Cons append_Nil2) blast
qed

end
