(* ===== verification/Server_Runs.thy ===== *)
theory Server_Runs
  imports Server_Props
begin

text \<open>
  Runs of the server: how an uplink travels from the packet forwarder to the channels of the
  routers it is for, how a server at rest shuts down, and how the gateway and the beaconer can
  block each other for good.
\<close>

section \<open>The way of an uplink\<close>

definition channels_of :: "Dispatcher \<Rightarrow> nat set" where
  "channels_of d = (re_dispatch \<circ> snd) ` set (routers d)"

definition spawned :: "effect list \<Rightarrow> nat set" where
  "spawned eff = {ch. \<exists>c. Eff_Spawn ch c \<in> set eff}"

lemma spawned_simps [simp]:
  "spawned [] = {}" "spawned (a @ b) = spawned a \<union> spawned b"
  "spawned (Eff_Spawn ch c # eff) = insert ch (spawned eff)"
  "spawned (Eff_Router ch m # eff) = spawned eff"
  "spawned (Eff_RegionParams rp # eff) = spawned eff" "spawned (Eff_Reply n r # eff) = spawned eff"
  by (auto simp: spawned_def)

text \<open>Every router in the map is reached through a channel it had, or one of a client just spawned.\<close>

lemma update_router_channels: "channels_of (fst (update_router r d u)) \<subseteq> channels_of d \<union> spawned (snd (update_router r d u))"
  by (auto simp: update_router_def start_router_eq channels_of_def Let_def split: option.splits if_splits)
    (force simp: image_iff)+

interpretation channels: routing_change "\<lambda>d d' eff. channels_of d' \<subseteq> channels_of d \<union> spawned eff"
proof unfold_locales
  fix d d1 d2 eff1 eff2
  assume "channels_of d1 \<subseteq> channels_of d \<union> spawned eff1" and "channels_of d2 \<subseteq> channels_of d1 \<union> spawned eff2"
  then show "channels_of d2 \<subseteq> channels_of d \<union> spawned (eff1 @ eff2)" by auto
qed (use update_router_channels in \<open>auto simp: channels_of_def\<close>)

lemma same_map_channels: "same_map d d' \<Longrightarrow> channels_of d' = channels_of d"
  by (simp add: same_map_def channels_of_def)

lemma stops_of_message: "d_handle_message H X d m g w = (w', eff) \<Longrightarrow> stops eff = []"
  using stops_message [of H X d m g w] by simp

lemma d_step_channels:
  assumes "d_step H X B ph d i w = (ph', d', w', eff)" and "routers_ok d"
  shows "channels_of d' \<subseteq> channels_of d \<union> spawned eff \<and> stops eff = []"
proof (cases "\<exists>g di. ph = Ph_Connected g \<and> i = RU_Connected di")
  case True
  then obtain g di r where s: "run_with_gateway_step H X g d di w = (r, d', w', eff)"
    using assms(1) by (auto simp: d_step_def split: prod.splits option.splits rresult.splits)
  from run_with_gateway_step_map [OF s] show ?thesis
    using same_map_channels channels.handle_routing_update handle_routing_update_ok [OF _ assms(2)] by blast
next
  case False
  note nc = this
  show ?thesis
  proof (cases "\<exists>wi. ph = Ph_Wait \<and> i = RU_Wait wi")
    case True
    then obtain wi sl where s: "prepare_gateway_change H X B d wi w = (d', sl, w', eff)"
      using assms(1) by (auto simp: d_step_def Let_def split: prod.splits)
    have "stops eff = []"
      using s by (auto simp: prepare_gateway_change_def Let_def
          split: wait_input.splits option.splits if_splits prod.splits dest: stops_of_message)
    then show ?thesis using same_map_channels prepare_gateway_change_map [of d H X B wi w] s by auto
  next
    case False
    with nc assms(1) show ?thesis
      by (auto simp: d_step_def select_step_def stops_def map_filter_def
          split: d_phase.splits run_input.splits select_input.splits prod.splits rresult.splits option.splits)
  qed
qed

text \<open>
  As long as no router client is told to shut down, every router the dispatcher knows has a
  running client, or one about to be spawned.
\<close>

definition no_stop :: "rc_message \<Rightarrow> bool" where
  "no_stop m = (m \<noteq> RM_Stop)"

definition clients_ok :: "('w, 'n, 'r, 'g, 'd, 'b, 'c) server_ext \<Rightarrow> ('w, 'g, 'd, 'b, 'c) server \<Rightarrow> bool" where
  "clients_ok X s \<longleftrightarrow> routers_ok (sv_dispatcher s) \<and>
     channels_of (sv_dispatcher s) \<subseteq> dom (sv_clients s) \<union> spawned (dispatcher_out s) \<and>
     stops (dispatcher_out s) = [] \<and> (\<forall>ch. list_all no_stop (mp_contents (sx_client_ch X) (client_q s ch)))"

definition keeps_clients :: "sv_label \<Rightarrow> bool" where
  "keeps_clients l = (case l of L_Client _ RI_Shutdown \<Rightarrow> False | _ \<Rightarrow> True)"

lemma dispatcher_input_clients:
  assumes "clients_ok X s" and "dispatcher_out s = []"
  shows "clients_ok X (dispatcher_input X i s)"
proof -
  obtain ph d w eff where st:
    "d_step (sx_hash X) (sx_validator X) (gateway_backoff X) (sv_phase s) (sv_dispatcher s) i (sv_world s) = (ph, d, w, eff)"
    by (metis prod_cases4)
  have ok: "routers_ok (sv_dispatcher s)" using assms(1) by (simp add: clients_ok_def)
  from d_step_channels [OF st ok] d_step_map [OF st ok] assms show ?thesis
    by (auto simp: clients_ok_def dispatcher_input_def st Let_def split: d_phase.splits)
qed

lemma client_input_clients:
  assumes "clients_ok X s" and "sv_clients s ch = Some c" and "i \<noteq> RI_Shutdown" and "i \<noteq> RI_Message (Some RM_Stop)"
  shows "clients_ok X (client_input X ch c i s)"
proof -
  obtain c1 w ev where st: "rc_step (client_ext X c) c i (sv_world s) = (c1, w, ev)" by (metis prod_cases3)
  have "c1 = Returned Panic \<or> (\<exists>c'. c1 = Running c')"
    using st assms(3,4)
    by (auto simp: rc_step_def Let_def split: rc_input.splits option.splits rc_message.splits prod.splits rresult.splits)
  with assms(1,2) show ?thesis by (auto simp: clients_ok_def client_input_def st)
qed

lemma stops_Cons [simp]:
  "stops (e # eff) = (case e of Eff_Router ch RM_Stop \<Rightarrow> ch # stops eff | _ \<Rightarrow> stops eff)"
  by (auto simp: stops_def map_filter_def split: effect.splits rc_message.splits)

lemma dispatcher_do_clients:
  assumes "dispatcher_do X e (s\<lparr>dispatcher_out := es\<rparr>) = Some (s', out)" and "channels_ok X" and "clients_ok X s"
    and "dispatcher_out s = e # es"
  shows "clients_ok X s'"
proof (cases e)
  case (Eff_Router ch m)
  have all: "list_all no_stop (mp_contents (sx_client_ch X) (client_q s ch))" for ch
    using assms(3) by (simp add: clients_ok_def)
  have "no_stop m" "stops es = []"
    using assms(3,4) Eff_Router by (auto simp: clients_ok_def no_stop_def split: rc_message.splits)
  then show ?thesis
    using assms all mpsc_send(1) [of "sx_client_ch X" m "client_q s ch"]
    by (auto simp: Eff_Router dispatcher_do_def clients_ok_def channels_ok_def split: option.splits)
qed (use assms mpsc_new [of "sx_client_ch X" 10] in \<open>auto simp: dispatcher_do_def clients_ok_def channels_ok_def\<close>)

lemma clients_ok_recv:
  assumes "clients_ok X s" and "channels_ok X" and "mp_recv (sx_client_ch X) (client_q s ch) = Some (m, q)"
  shows "m \<noteq> RM_Stop \<and> clients_ok X (s\<lparr>client_q := (client_q s)(ch := q)\<rparr>)"
proof -
  have "list_all no_stop (mp_contents (sx_client_ch X) (client_q s ch))" using assms(1) by (simp add: clients_ok_def)
  then have "no_stop m \<and> list_all no_stop (mp_contents (sx_client_ch X) q)"
    using origin_recv assms(2,3) by (metis channels_ok_def)
  with assms(1) show ?thesis by (auto simp: clients_ok_def no_stop_def)
qed

lemma step_clients:
  assumes "sv_step X l s = Some (s', out)" and "keeps_clients l" and "channels_ok X" and "clients_ok X s"
  shows "clients_ok X s'"
proof (cases l)
  case (L_Dispatcher i)
  then show ?thesis
    using assms by (auto simp: sv_step_def dispatcher_ready_def split: if_splits intro: dispatcher_input_clients)
next
  case L_DispatcherMessage
  then obtain i q where "s' = dispatcher_input X i (s\<lparr>dispatcher_q := q\<rparr>)" "dispatcher_out s = []"
    using assms(1) by (auto simp: sv_step_def dispatcher_ready_def split: if_splits option.splits)
  then show ?thesis
    using assms(4) dispatcher_input_clients [of X "s\<lparr>dispatcher_q := q\<rparr>" i] by (simp add: clients_ok_def)
next
  case L_DispatcherEffect
  then show ?thesis
    using assms dispatcher_do_clients by (auto simp: sv_step_def split: if_splits list.splits)
next
  case (L_Client ch i)
  then show ?thesis
    using assms
    by (auto simp: sv_step_def keeps_clients_def is_client_message_def split: if_splits option.splits rc_input.splits
        intro!: client_input_clients)
next
  case (L_ClientMessage ch)
  then obtain c m q where r: "mp_recv (sx_client_ch X) (client_q s ch) = Some (m, q)" and c: "sv_clients s ch = Some c"
    and s': "s' = client_input X ch c (RI_Message (Some m)) (s\<lparr>client_q := (client_q s)(ch := q)\<rparr>)"
    using assms(1) by (auto simp: sv_step_def split: if_splits option.splits)
  from clients_ok_recv [OF assms(4,3) r] c show ?thesis by (simp add: s' client_input_clients)
next
  case (L_Updater ev)
  then show ?thesis
    using assms updater_input_frame [of X ev s s'] by (auto simp: sv_step_def clients_ok_def split: if_splits)
next
  case (L_ApiReceive m)
  then show ?thesis using assms by (auto simp: sv_step_def clients_ok_def split: if_splits dest!: api_receive_frame)
qed (use assms in \<open>auto simp: sv_step_def clients_ok_def do_defs
    split: if_splits list.splits option.splits gw_effect.splits beaconer_effect.splits rc_event.splits\<close>)

interpretation clients: run_invariant "sv_step X" "sv_run X" keeps_clients
  "\<lambda>s. channels_ok X \<longrightarrow> clients_ok X s" "\<lambda>_. True" for X
  by unfold_locales (auto simp: list_all_iff dest: step_clients)

lemma Dispatcher_new_empty: "Dispatcher_new kp rg gs df m = Ok d \<Longrightarrow> routers d = [] \<and> next_channel d = 0"
  by (auto simp: Dispatcher_new_def)

lemma server_start_clients:
  assumes "server_start X st w = (Ok s, w')" and "channels_ok X"
  shows "clients_ok X s"
proof -
  note s = server_start_Ok [OF assms, of "{}" "{}"]
  then have "routers (sv_dispatcher s) = []" "next_channel (sv_dispatcher s) = 0" using Dispatcher_new_empty by blast+
  moreover have "client_q s = (\<lambda>_. mp_new (sx_client_ch X) 10)"
    using assms(1) by (auto simp: server_start_def Dispatcher_new_def Updater_new_def LocalServer_new_def Let_def
        split: prod.splits sum.splits)
  moreover have "mp_contents (sx_client_ch X) (mp_new (sx_client_ch X) 10) = []"
    using assms(2) by (simp add: channels_ok_def mpsc_new)
  ultimately show ?thesis using s by (simp add: clients_ok_def routers_ok_def channels_of_def)
qed

text \<open>The dispatcher empties its list of sends, one client after the other.\<close>

lemma drain:
  assumes "channels_ok X"
  shows "dispatcher_out s = map (\<lambda>ch. Eff_Router ch m) chs \<Longrightarrow> distinct chs \<Longrightarrow> sv_result s = None \<Longrightarrow>
    \<forall>ch\<in>set chs. sv_clients s ch \<noteq> None \<and> \<not> full (sx_client_ch X) (client_q s ch) \<Longrightarrow>
    \<exists>cq. sv_run X (replicate (length chs) L_DispatcherEffect) s = Some (s\<lparr>dispatcher_out := [], client_q := cq\<rparr>, []) \<and>
      (\<forall>ch. mp_contents (sx_client_ch X) (cq ch) =
         mp_contents (sx_client_ch X) (client_q s ch) @ (if ch \<in> set chs then [m] else []))"
proof (induction chs arbitrary: s)
  case Nil
  then show ?case by (intro exI [of _ "client_q s"]) simp
next
  case (Cons ch chs)
  have ok: "mpsc_ok (sx_client_ch X)" using assms by (simp add: channels_ok_def)
  obtain c where c: "sv_clients s ch = Some c" using Cons.prems(4) by auto
  obtain q where q: "mp_send (sx_client_ch X) m (client_q s ch) = Some q"
    using mpsc_send_ready [OF ok] Cons.prems(4) by (metis full_def list.set_intros(1) not_le)
  let ?s = "s\<lparr>dispatcher_out := map (\<lambda>ch. Eff_Router ch m) chs, client_q := (client_q s)(ch := q)\<rparr>"
  have 1: "sv_step X L_DispatcherEffect s = Some (?s, [])"
    using Cons.prems by (simp add: sv_step_def dispatcher_do_def c q)
  have "\<forall>ch\<in>set chs. sv_clients ?s ch \<noteq> None \<and> \<not> full (sx_client_ch X) (client_q ?s ch)"
    using Cons.prems by auto
  from Cons.IH [of ?s, OF _ _ _ this] Cons.prems obtain cq where
    2: "sv_run X (replicate (length chs) L_DispatcherEffect) ?s = Some (?s\<lparr>dispatcher_out := [], client_q := cq\<rparr>, [])"
    and 3: "\<And>ch'. mp_contents (sx_client_ch X) (cq ch') =
         mp_contents (sx_client_ch X) (client_q ?s ch') @ (if ch' \<in> set chs then [m] else [])" by auto
  from sv.run_ConsI [OF 1 2] 3 Cons.prems(2) show ?case
    by (intro exI [of _ cq]) (auto simp: mpsc_send(1) [OF ok q])
qed

lemma uplink_sends:
  assumes "routers_ok d"
  obtains chs where "d_handle_uplink H d p t = map (\<lambda>ch. Eff_Router ch (RM_Uplink p t)) chs" "distinct chs"
    and "set chs = (\<lambda>k. the (router_channel d k)) ` uplink_targets H d p"
proof -
  let ?E = "\<lambda>ch. Eff_Router ch (RM_Uplink p t)"
  let ?eff = "d_handle_uplink H d p t"
  let ?chs = "map (\<lambda>e. case e of Eff_Router ch _ \<Rightarrow> ch | _ \<Rightarrow> 0) ?eff"
  note t = d_handle_uplink_targets [OF assms, of H p t]
  then have s: "set ?eff = ?E ` (\<lambda>k. the (router_channel d k)) ` uplink_targets H d p" by (simp add: image_image)
  then have e: "?eff = map ?E ?chs" by (auto simp: map_idI intro!: map_idI [symmetric])
  have "distinct ?chs" using t e by (metis distinct_map)
  moreover have "set ?chs = (\<lambda>k. the (router_channel d k)) ` uplink_targets H d p" using s by (auto simp: image_image)
  ultimately show ?thesis using e that by blast
qed

lemma target_channel:
  assumes "k \<in> uplink_targets H d p" shows "the (router_channel d k) \<in> channels_of d"
proof -
  obtain e where e: "map_of (routers d) k = Some e"
    using assms by (auto simp: uplink_targets_def router_table_def Let_def split: if_splits)
  with map_of_SomeD [OF e] show ?thesis by (force simp: router_channel_def channels_of_def)
qed

text \<open>From the packet forwarder into the channels of the routers it is for.\<close>

lemma uplink_delivery:
  assumes c: "channels_ok X" and cl: "clients_ok X s" and qw: "queues_within X s"
    and r: "gateway_ready s" "dispatcher_ready s" "sv_phase s = Ph_Connected g"
    and e: "mp_contents (sx_dispatcher_ch X) (dispatcher_q s) = []"
    and p: "Packet_from_rxpk (radio (sx_udp X)) rx = Ok p" "\<not> is_potential_beacon p"
    and room: "\<forall>k\<in>uplink_targets (sx_hash X) (sv_dispatcher s) p.
      \<not> full (sx_client_ch X) (client_q s (the (router_channel (sv_dispatcher s) k)))"
  defines "dests \<equiv> (\<lambda>k. the (router_channel (sv_dispatcher s) k)) ` uplink_targets (sx_hash X) (sv_dispatcher s) p"
  shows "\<exists>s'. sv_run X ([L_Udp (UE_PacketReceived rx m), L_GatewayEffect, L_DispatcherMessage] @
        replicate (card dests) L_DispatcherEffect) s = Some (s', []) \<and>
      (\<forall>ch. mp_contents (sx_client_ch X) (client_q s' ch) = mp_contents (sx_client_ch X) (client_q s ch) @
         (if ch \<in> dests then [RM_Uplink p (fst (udp_now (sx_udp X) (sv_world s)))] else [])) \<and>
      dests \<subseteq> dom (sv_clients s') \<and> gateway_ready s' \<and> dispatcher_ready s'"
proof -
  have ok: "mpsc_ok (sx_dispatcher_ch X)" using c by (simp add: channels_ok_def)
  have cap: "mp_capacity (sx_dispatcher_ch X) (dispatcher_q s) = 20"
    using qw by (simp add: queues_within_def fits_def)
  obtain t w1 where t: "udp_now (sx_udp X) (sv_world s) = (t, w1)" by fastforce
  have rd: "routers_ok (sv_dispatcher s)" using cl by (simp add: clients_ok_def)
  obtain chs where chs: "d_handle_uplink (sx_hash X) (sv_dispatcher s) p t = map (\<lambda>ch. Eff_Router ch (RM_Uplink p t)) chs"
    "distinct chs" "set chs = dests"
    using uplink_sends [OF rd, where H = "sx_hash X"] unfolding dests_def by metis
  have res: "sv_result s = None" "gateway_out s = []" "dispatcher_out s = []"
    using r(1,2) by (simp_all add: gateway_ready_def dispatcher_ready_def)
  have live: "dests \<subseteq> dom (sv_clients s)"
    using cl res(3) target_channel by (fastforce simp: clients_ok_def dests_def)
  obtain q where q: "mp_send (sx_dispatcher_ch X) (DM_Uplink p t) (dispatcher_q s) = Some q"
    using mpsc_send_ready [OF ok] e cap by (metis list.size(3) zero_less_numeral)
  have qc: "mp_contents (sx_dispatcher_ch X) q = [DM_Uplink p t]" using mpsc_send(1) [OF ok q] e by simp
  obtain q' where q': "mp_recv (sx_dispatcher_ch X) q = Some (DM_Uplink p t, q')" using mpsc_recv_ready [OF ok qc] by metis
  let ?s1 = "s\<lparr>sv_world := w1, gateway_out := [GE_Uplink p t]\<rparr>"
  let ?s2 = "s\<lparr>sv_world := w1, dispatcher_q := q\<rparr>"
  let ?s3 = "s\<lparr>sv_world := w1, dispatcher_q := q', dispatcher_out := map (\<lambda>ch. Eff_Router ch (RM_Uplink p t)) chs\<rparr>"
  have 1: "sv_step X (L_Udp (UE_PacketReceived rx m)) s = Some (?s1, [])"
    using r(1) by (simp add: sv_step_def gateway_input_def g_step_def handle_udp_event_def p t g_handle_uplink_def)
  have 2: "sv_step X L_GatewayEffect ?s1 = Some (?s2, [])"
    using res by (simp add: sv_step_def gateway_do_def q)
  have 3: "sv_step X L_DispatcherMessage ?s2 = Some (?s3, [])"
    using r(2,3) by (simp add: sv_step_def dispatcher_ready_def q' message_input_def dispatcher_input_def d_step_def
        run_with_gateway_step_def d_handle_message_def chs(1))
  have "\<forall>ch\<in>set chs. sv_clients ?s3 ch \<noteq> None \<and> \<not> full (sx_client_ch X) (client_q ?s3 ch)"
    using live room chs(3) by (auto simp: dests_def)
  from drain [OF c _ chs(2) _ this] res obtain cq where
    4: "sv_run X (replicate (length chs) L_DispatcherEffect) ?s3 = Some (?s3\<lparr>dispatcher_out := [], client_q := cq\<rparr>, [])"
    and cq: "\<And>ch. mp_contents (sx_client_ch X) (cq ch) =
         mp_contents (sx_client_ch X) (client_q s ch) @ (if ch \<in> dests then [RM_Uplink p t] else [])"
    by (auto simp: chs(3))
  have n: "card dests = length chs" using chs(2,3) distinct_card by metis
  from sv.run_ConsI [OF 1 sv.run_ConsI [OF 2 sv.run_ConsI [OF 3 4]]] cq live r show ?thesis
    by (auto simp: n t gateway_ready_def dispatcher_ready_def)
qed

section \<open>Shutting down\<close>

definition tasks_ok :: "('w, 'g, 'd, 'b, 'c) server \<Rightarrow> bool" where
  "tasks_ok s \<longleftrightarrow> sv_result s = None \<longrightarrow>
     \<not> all_tasks \<subseteq> sv_returned s \<and> ((\<exists>r. sv_phase s = Ph_Done r) \<longrightarrow> T_Dispatcher \<in> sv_returned s)"

lemma tasks_ok_finish: "tasks_ok s \<Longrightarrow> sv_result s = None \<Longrightarrow> tasks_ok (finish t r s)"
  by (auto simp: tasks_ok_def finish_def Let_def split: rresult.splits)

lemma tasks_ok_crash [simp]: "tasks_ok (crash s)"
  by (simp add: tasks_ok_def crash_def)

lemma tasks_ok_frame:
  assumes "tasks_ok s" "sv_result s' = sv_result s" "sv_returned s' = sv_returned s" "sv_phase s' = sv_phase s"
  shows "tasks_ok s'"
  using assms by (simp add: tasks_ok_def)

lemma dispatcher_input_tasks:
  assumes "tasks_ok s" and "sv_result s = None"
  shows "tasks_ok (dispatcher_input X i s)"
proof -
  obtain ph d w eff where st:
    "d_step (sx_hash X) (sx_validator X) (gateway_backoff X) (sv_phase s) (sv_dispatcher s) i (sv_world s) = (ph, d, w, eff)"
    by (metis prod_cases4)
  show ?thesis
    using assms by (auto simp: tasks_ok_def dispatcher_input_def st finish_def Let_def split: d_phase.splits rresult.splits)
qed

lemma client_input_tasks: "tasks_ok s \<Longrightarrow> tasks_ok (client_input X ch c i s)"
  by (auto simp: client_input_def tasks_ok_def crash_def split: prod.splits loop_state.splits rresult.splits)

lemma gateway_input_tasks: "tasks_ok s \<Longrightarrow> sv_result s = None \<Longrightarrow> tasks_ok (gateway_input X i s)"
  by (auto simp: gateway_input_def tasks_ok_finish split: sum.splits prod.splits intro: tasks_ok_frame)

lemma beaconer_input_tasks: "tasks_ok s \<Longrightarrow> sv_result s = None \<Longrightarrow> tasks_ok (beaconer_input X i s)"
  by (auto simp: beaconer_input_def tasks_ok_finish simp del: bc_step.simps split: option.splits intro: tasks_ok_frame)

lemma updater_input_tasks: "updater_input X ev s = Some s' \<Longrightarrow> tasks_ok s \<Longrightarrow> sv_result s = None \<Longrightarrow> tasks_ok s'"
  by (auto simp: updater_input_def split: option.splits prod.splits intro!: tasks_ok_finish intro: tasks_ok_frame)

lemma step_tasks:
  assumes "sv_step X l s = Some (s', out)" and "tasks_ok s"
  shows "tasks_ok s'"
proof -
  have t: "tasks_ok (s\<lparr>gateway_q := q1\<rparr>)" "tasks_ok (s\<lparr>beaconer_q := q2\<rparr>)" "tasks_ok (s\<lparr>dispatcher_q := q3\<rparr>)"
    "tasks_ok (s\<lparr>client_q := q4\<rparr>)" for q1 q2 q3 q4
    using assms(2) by (simp_all add: tasks_ok_def)
  show ?thesis
  proof (cases l)
    case L_GatewayEffect
    then show ?thesis
      using assms by (auto simp: sv_step_def gateway_do_def tasks_ok_def split: if_splits list.splits gw_effect.splits)
  next
    case L_BeaconerEffect
    then show ?thesis
      using assms by (auto simp: sv_step_def beaconer_do_def tasks_ok_def split: if_splits list.splits beaconer_effect.splits)
  next
    case L_DispatcherEffect
    then show ?thesis
      using assms by (auto simp: sv_step_def dispatcher_do_def tasks_ok_def
          split: if_splits list.splits effect.splits option.splits)
  next
    case (L_ClientEffect ch)
    then show ?thesis
      using assms by (auto simp: sv_step_def client_do_def tasks_ok_def split: if_splits list.splits rc_event.splits)
  next
    case (L_ApiReceive m)
    then show ?thesis using assms by (auto simp: sv_step_def tasks_ok_def split: if_splits dest!: api_receive_frame)
  next
    case (L_ApiRequest m)
    then show ?thesis using assms by (auto simp: sv_step_def tasks_ok_def split: if_splits)
  next
    case (L_ApiGone n)
    then show ?thesis using assms by (auto simp: sv_step_def tasks_ok_def split: if_splits)
  qed (use assms t in \<open>auto simp: sv_step_def gateway_ready_def beaconer_ready_def dispatcher_ready_def updater_ready_def
      split: if_splits option.splits
      intro: gateway_input_tasks beaconer_input_tasks dispatcher_input_tasks client_input_tasks
        client_input_tasks [OF t(4)] tasks_ok_finish
      dest: updater_input_tasks\<close>)
qed

interpretation tasks: run_invariant "sv_step X" "sv_run X" "\<lambda>_. True" tasks_ok "\<lambda>_. True" for X
  by unfold_locales (auto simp: list_all_iff dest: step_tasks)

text \<open>The moves of the tasks that notice the shutdown signal.\<close>

definition shutdown_labels :: "sv_label set" where
  "shutdown_labels = {L_BeaconerShutdown, L_GatewayShutdown, L_Updater UT_Shutdown, L_ApiShutdown,
     L_Dispatcher (RU_Connected DI_Shutdown), L_Dispatcher (RU_Wait WI_Triggered), L_Dispatcher (RU_Select SI_Triggered)}"

text \<open>The timers of the beaconer and, when it is enabled, of the updater can be made.\<close>

definition timers_run :: "('w, 'g, 'd, 'b, 'c) server \<Rightarrow> bool" where
  "timers_run s \<longleftrightarrow> \<not> interval_panics (bc_interval (sv_beaconer s)) \<and>
     (up_enabled (sv_updater s) \<longrightarrow> \<not> interval_panics (secs (unat (up_interval_secs (sv_updater s)))))"

lemma timers_run_frame [simp]:
  "timers_run (s\<lparr>sv_world := w\<rparr>) \<longleftrightarrow> timers_run s" "timers_run (s\<lparr>sv_phase := ph\<rparr>) \<longleftrightarrow> timers_run s"
  "timers_run (s\<lparr>dispatcher_out := eff\<rparr>) \<longleftrightarrow> timers_run s" "timers_run (s\<lparr>sv_result := r\<rparr>) \<longleftrightarrow> timers_run s"
  "timers_run (s\<lparr>sv_returned := ts\<rparr>) \<longleftrightarrow> timers_run s"
  by (simp_all add: timers_run_def)

lemma beaconer_input_interval [simp]: "bc_interval (sv_beaconer (beaconer_input X ev s)) = bc_interval (sv_beaconer s)"
proof -
  have "bc_interval b = bc_interval (sv_beaconer s)"
    if "bc_step (sx_beaconer X) (sv_beaconer s) ev (sv_world s) = Some (b, w, eff)" for b w eff
    using bc_step_cases [OF that] by (auto split: beaconer_event.splits option.splits beaconer_message.splits)
  then show ?thesis by (auto simp: beaconer_input_def simp del: bc_step.simps split: option.splits)
qed

lemma step_timers:
  assumes "sv_step X l s = Some (s', out)"
  shows "timers_run s' \<longleftrightarrow> timers_run s"
proof -
  have "bc_interval (sv_beaconer s') = bc_interval (sv_beaconer s) \<and> sv_updater s' = sv_updater s"
    using assms
    by (cases l) (auto simp: sv_step_def do_defs dest: updater_input_frame dest!: api_receive_frame
        split: if_splits list.splits option.splits gw_effect.splits beaconer_effect.splits effect.splits rc_event.splits)
  then show ?thesis by (simp add: timers_run_def)
qed

lemma server_start_timers:
  assumes "server_start X st w = (Ok s, w')"
  shows "timers_run s \<longleftrightarrow> 0 < poc_beacon_interval (set_poc st) \<and> poc_beacon_interval (set_poc st) < 2 ^ 62 \<and>
    (us_enabled (set_update st) \<longrightarrow> us_interval (set_update st) \<noteq> 0)"
proof -
  have u: "Updater_new (set_update st) = Ok (sv_updater s)" and b: "sv_beaconer s = Beaconer_new (set_keypair st) (set_poc st)"
    using assms by (auto simp: server_start_def Dispatcher_new_def Updater_new_def LocalServer_new_def Let_def
        split: prod.splits sum.splits)
  have "up_enabled (sv_updater s) = us_enabled (set_update st)" using u [symmetric] by (simp add: Updater_new_def)
  moreover have "interval_panics (bc_interval (sv_beaconer s)) \<longleftrightarrow>
      poc_beacon_interval (set_poc st) = 0 \<or> 2 ^ 62 \<le> poc_beacon_interval (set_poc st)"
    by (simp add: b Beaconer_new_def interval_panics_secs)
  ultimately show ?thesis by (auto simp: timers_run_def Updater_new_interval [OF u] word_neq_0_conv)
qed

text \<open>No task has anything left to do, no request is in flight, and the server has returned exactly when all of them have.\<close>

definition orderly :: "('w, 'g, 'd, 'b, 'c) server \<Rightarrow> bool" where
  "orderly s \<longleftrightarrow> beaconer_out s = [] \<and> gateway_out s = [] \<and> dispatcher_out s = [] \<and> api_flight s = {} \<and> timers_run s \<and>
     sv_result s = (if all_tasks \<subseteq> sv_returned s then Some (Ok ()) else None) \<and>
     ((\<exists>r. sv_phase s = Ph_Done r) \<longrightarrow> T_Dispatcher \<in> sv_returned s)"

lemma orderly_finish:
  "orderly s \<Longrightarrow> sv_result s = None \<Longrightarrow>
   orderly (finish t (Ok ()) s) \<and> sv_returned (finish t (Ok ()) s) = insert t (sv_returned s)"
  by (auto simp: orderly_def finish_def Let_def)

lemma orderly_running: "orderly s \<Longrightarrow> t \<in> all_tasks \<Longrightarrow> t \<notin> sv_returned s \<Longrightarrow> sv_result s = None"
  by (auto simp: orderly_def)

definition shuts :: "('w, 'n, 'r, 'g, 'd, 'b, 'c) server_ext \<Rightarrow> task \<Rightarrow> ('w, 'g, 'd, 'b, 'c) server \<Rightarrow> ('w, 'g, 'd, 'b, 'c) server \<Rightarrow> bool" where
  "shuts X t s s' \<longleftrightarrow> orderly s' \<and> sv_returned s' = insert t (sv_returned s) \<and>
     (\<exists>ls. set ls \<subseteq> shutdown_labels \<and> sv_run X ls s = Some (s', []))"

lemma shuts_step:
  assumes "orderly s" and "t \<notin> sv_returned s" and "l \<in> shutdown_labels" and "sv_result s = None"
    and "sv_step X l s = Some (finish t (Ok ()) (s\<lparr>sv_world := w\<rparr>), [])"
  shows "\<exists>s'. shuts X t s s'"
proof -
  have "orderly (s\<lparr>sv_world := w\<rparr>)" "sv_result (s\<lparr>sv_world := w\<rparr>) = None" using assms(1,4) by (simp_all add: orderly_def)
  from orderly_finish [OF this] have "shuts X t s (finish t (Ok ()) (s\<lparr>sv_world := w\<rparr>))"
    unfolding shuts_def using assms(3,5) by (auto simp: sv.run_single intro!: exI [of _ "[l]"])
  then show ?thesis ..
qed

lemma shuts_phase:
  assumes "orderly s" and "sv_result s = None" and "T_Dispatcher \<notin> sv_returned s"
  shows "\<exists>s'. shuts X T_Dispatcher s s'"
proof -
  let ?fin = "\<lambda>s. finish T_Dispatcher (Ok ()) (s\<lparr>sv_phase := Ph_Done (Ok ()), dispatcher_out := []\<rparr>)"
  have o: "beaconer_out s = []" "gateway_out s = []" "dispatcher_out s = []" using assms(1) by (simp_all add: orderly_def)
  have wt: "prepare_gateway_change H V B d WI_Triggered w = (d, 0, w, [])" for H B d w and V :: "'a gw_ext"
    by (simp add: prepare_gateway_change_def)
  have sel: "sv_run X [L_Dispatcher (RU_Select SI_Triggered)] (s\<lparr>sv_phase := Ph_Select\<rparr>) = Some (?fin s, [])"
    using assms o by (simp add: sv_step_def dispatcher_ready_def takes_message_def dispatcher_input_def d_step_def select_step_def)
  have wai: "sv_run X [L_Dispatcher (RU_Wait WI_Triggered), L_Dispatcher (RU_Select SI_Triggered)] (s\<lparr>sv_phase := Ph_Wait\<rparr>)
      = Some (?fin s, [])"
    using assms o sel by (simp add: sv_step_def dispatcher_ready_def takes_message_def dispatcher_input_def d_step_def wt)
  have con: "sv_run X [L_Dispatcher (RU_Connected DI_Shutdown), L_Dispatcher (RU_Wait WI_Triggered),
      L_Dispatcher (RU_Select SI_Triggered)] (s\<lparr>sv_phase := Ph_Connected g\<rparr>) = Some (?fin s, [])" for g
    using assms o wai by (simp add: sv_step_def dispatcher_ready_def takes_message_def dispatcher_input_def d_step_def
        run_with_gateway_step_def)
  have "orderly (?fin s)" "sv_returned (?fin s) = insert T_Dispatcher (sv_returned s)"
    using assms by (auto simp: orderly_def finish_def Let_def)
  moreover have "\<exists>ls. set ls \<subseteq> shutdown_labels \<and> sv_run X ls s = Some (?fin s, [])"
  proof (cases "sv_phase s")
    case Ph_Select
    then have "s = s\<lparr>sv_phase := Ph_Select\<rparr>" by simp
    with sel show ?thesis by (intro exI [of _ "[L_Dispatcher (RU_Select SI_Triggered)]"]) (simp add: shutdown_labels_def)
  next
    case (Ph_Connected g)
    then have "s = s\<lparr>sv_phase := Ph_Connected g\<rparr>" by simp
    with con [of g] show ?thesis
      by (intro exI [of _ "[L_Dispatcher (RU_Connected DI_Shutdown), L_Dispatcher (RU_Wait WI_Triggered),
          L_Dispatcher (RU_Select SI_Triggered)]"]) (simp add: shutdown_labels_def)
  next
    case Ph_Wait
    then have "s = s\<lparr>sv_phase := Ph_Wait\<rparr>" by simp
    with wai show ?thesis
      by (intro exI [of _ "[L_Dispatcher (RU_Wait WI_Triggered), L_Dispatcher (RU_Select SI_Triggered)]"])
        (simp add: shutdown_labels_def)
  next
    case (Ph_Done r)
    then show ?thesis using assms by (simp add: orderly_def)
  qed
  ultimately show ?thesis unfolding shuts_def by blast
qed

lemma shuts_task:
  assumes "orderly s" and "t \<in> all_tasks"
  shows "\<exists>s'. shuts X t s s'"
proof (cases "t \<in> sv_returned s")
  case True
  then have "shuts X t s s"
    unfolding shuts_def using assms(1) by (auto simp: sv.run_Nil insert_absorb intro!: exI [of _ "[]"])
  then show ?thesis ..
next
  case False
  note run = orderly_running [OF assms False]
  have o: "beaconer_out s = []" "gateway_out s = []" "api_flight s = {}" and tm: "timers_run s"
    using assms(1) by (simp_all add: orderly_def)
  note st = shuts_step [OF assms(1) False _ run, where w = "sv_world s"]
  show ?thesis
  proof (cases t)
    case T_Beaconer
    with run False o tm show ?thesis
      by (intro st [of L_BeaconerShutdown])
        (simp_all add: shutdown_labels_def sv_step_def beaconer_ready_def beaconer_input_def timers_run_def)
  next
    case T_Gateway
    with run False o show ?thesis
      by (intro st [of L_GatewayShutdown])
        (simp_all add: shutdown_labels_def sv_step_def gateway_ready_def gateway_input_def g_step_def)
  next
    case T_Dispatcher
    with run False assms(1) shuts_phase show ?thesis by blast
  next
    case T_Updater
    with run False tm show ?thesis
      by (intro st [of "L_Updater UT_Shutdown"])
        (simp_all add: shutdown_labels_def sv_step_def updater_ready_def updater_input_def updater_run_def timers_run_def)
  next
    case T_Api
    with run False o show ?thesis
      by (intro st [of L_ApiShutdown]) (simp_all add: shutdown_labels_def sv_step_def)
  qed
qed

lemma shuts_all:
  "orderly s \<Longrightarrow> set ts \<subseteq> all_tasks \<Longrightarrow>
   \<exists>ls s'. set ls \<subseteq> shutdown_labels \<and> sv_run X ls s = Some (s', []) \<and> orderly s' \<and> set ts \<subseteq> sv_returned s' \<and>
     sv_returned s \<subseteq> sv_returned s'"
proof (induction ts arbitrary: s)
  case Nil
  then show ?case by (intro exI [of _ "[]"] exI [of _ s]) simp
next
  case (Cons t ts)
  then obtain s1 ls1 where 1: "orderly s1" "sv_returned s1 = insert t (sv_returned s)"
    "set ls1 \<subseteq> shutdown_labels" "sv_run X ls1 s = Some (s1, [])"
    using shuts_task [of s t X] by (auto simp: shuts_def)
  from Cons.IH [OF 1(1)] Cons.prems(2) obtain ls2 s2 where 2: "set ls2 \<subseteq> shutdown_labels"
    "sv_run X ls2 s1 = Some (s2, [])" "orderly s2" "set ts \<subseteq> sv_returned s2" "sv_returned s1 \<subseteq> sv_returned s2"
    by auto
  from sv.run_append [OF 1(4) 2(2)] 1 2 show ?case by (intro exI [of _ "ls1 @ ls2"] exI [of _ s2]) auto
qed

lemma orderly_shutdown:
  assumes "orderly s"
  shows "\<exists>ls s'. set ls \<subseteq> shutdown_labels \<and> sv_run X ls s = Some (s', []) \<and> sv_result s' = Some (Ok ())"
  using shuts_all [OF assms, of "[T_Beaconer, T_Gateway, T_Dispatcher, T_Updater, T_Api]" X]
  by (auto simp: all_tasks_def orderly_def)

section \<open>Tasks that block each other\<close>

text \<open>
  The gateway waits to hand a message to the beaconer, whose channel is full, while the beaconer
  waits to hand a beacon to the gateway, whose channel is full.
\<close>

definition to_beaconer :: "gw_effect \<Rightarrow> bool" where
  "to_beaconer e = (case e of GE_ReceivedBeacon _ \<Rightarrow> True | GE_BeaconerRegion _ \<Rightarrow> True | _ \<Rightarrow> False)"

definition jammed :: "('w, 'n, 'r, 'g, 'd, 'b, 'c) server_ext \<Rightarrow> ('w, 'g, 'd, 'b, 'c) server \<Rightarrow> bool" where
  "jammed X s \<longleftrightarrow>
     (\<exists>e es. gateway_out s = e # es \<and> to_beaconer e) \<and> full (sx_beaconer_ch X) (beaconer_q s) \<and>
     (\<exists>beacon es. beaconer_out s = BX_Transmit beacon # es) \<and> full (sx_gateway_ch X) (gateway_q s) \<and>
     T_Gateway \<notin> sv_returned s \<and> T_Beaconer \<notin> sv_returned s \<and> sv_result s \<noteq> Some (Ok ())"

text \<open>What a step must leave alone for the two to stay where they are.\<close>

definition undisturbed :: "('w, 'g, 'd, 'b, 'c) server \<Rightarrow> ('w, 'g, 'd, 'b, 'c) server \<Rightarrow> bool" where
  "undisturbed s s' \<longleftrightarrow> gateway_out s' = gateway_out s \<and> beaconer_out s' = beaconer_out s \<and>
     gateway_q s' = gateway_q s \<and> beaconer_q s' = beaconer_q s \<and>
     sv_gateway s' = sv_gateway s \<and> sv_beaconer s' = sv_beaconer s \<and>
     sv_returned s' \<subseteq> sv_returned s \<union> {T_Dispatcher, T_Updater, T_Api} \<and>
     (sv_result s' = Some (Ok ()) \<longrightarrow> all_tasks \<subseteq> sv_returned s' \<or> sv_result s = Some (Ok ()))"

definition silent :: "sv_output \<Rightarrow> bool" where
  "silent out = (case out of O_Radio _ _ \<Rightarrow> False | O_Ingest _ \<Rightarrow> False | _ \<Rightarrow> True)"

lemma undisturbed_finish:
  "undisturbed s s' \<Longrightarrow> t \<in> {T_Dispatcher, T_Updater, T_Api} \<Longrightarrow> undisturbed s (finish t r s')"
  by (auto simp: undisturbed_def finish_def Let_def split: rresult.splits)

lemma undisturbed_dispatcher: "undisturbed s (dispatcher_input X i s)"
proof -
  obtain ph d w eff where st:
    "d_step (sx_hash X) (sx_validator X) (gateway_backoff X) (sv_phase s) (sv_dispatcher s) i (sv_world s) = (ph, d, w, eff)"
    by (metis prod_cases4)
  have "undisturbed s (s\<lparr>sv_phase := ph, sv_dispatcher := d, sv_world := w, dispatcher_out := eff\<rparr>)"
    by (auto simp: undisturbed_def)
  then show ?thesis
    by (auto simp: dispatcher_input_def st Let_def split: d_phase.splits intro: undisturbed_finish)
qed

lemma undisturbed_updater: "updater_input X ev s = Some s' \<Longrightarrow> undisturbed s s'"
  by (auto simp: updater_input_def split: option.splits prod.splits intro!: undisturbed_finish)
    (auto simp: undisturbed_def)

lemma undisturbed_client: "undisturbed s (client_input X ch c i s)"
  by (auto simp: client_input_def crash_def undisturbed_def split: prod.splits loop_state.splits rresult.splits)

lemma undisturbed_trans_q:
  "undisturbed (s\<lparr>dispatcher_q := q\<rparr>) s' \<longleftrightarrow> undisturbed s s'"
  "undisturbed (s\<lparr>client_q := cq\<rparr>) s' \<longleftrightarrow> undisturbed s s'"
  by (simp_all add: undisturbed_def)

lemma jammed_undisturbed: "jammed X s \<Longrightarrow> undisturbed s s' \<Longrightarrow> jammed X s'"
  by (auto simp: jammed_def undisturbed_def all_tasks_def)

lemma step_jammed:
  assumes "sv_step X l s = Some (s', out)" and "channels_ok X" and "jammed X s"
  shows "undisturbed s s' \<and> list_all silent out"
proof -
  have c: "mpsc_ok (sx_gateway_ch X)" "mpsc_ok (sx_beaconer_ch X)" using assms(2) by (simp_all add: channels_ok_def)
  obtain e es beacon bs where j: "gateway_out s = e # es" "to_beaconer e" "beaconer_out s = BX_Transmit beacon # bs"
    "full (sx_beaconer_ch X) (beaconer_q s)" "full (sx_gateway_ch X) (gateway_q s)"
    using assms(3) by (auto simp: jammed_def)
  note send = full_send [OF c(1) j(5)] full_send [OF c(2) j(4)]
  have busy: "\<not> gateway_ready s" "\<not> beaconer_ready s" by (simp_all add: gateway_ready_def beaconer_ready_def j)
  show ?thesis
  proof (cases l)
    case L_GatewayEffect
    then show ?thesis
      using assms(1) j(1,2) by (auto simp: sv_step_def gateway_do_def send to_beaconer_def split: if_splits gw_effect.splits)
  next
    case (L_Dispatcher i)
    then show ?thesis
      using assms(1) undisturbed_dispatcher [of s X i] by (auto simp: sv_step_def split: if_splits)
  next
    case L_DispatcherMessage
    then obtain i q where "s' = dispatcher_input X i (s\<lparr>dispatcher_q := q\<rparr>)" "out = []"
      using assms(1) by (auto simp: sv_step_def split: if_splits option.splits)
    then show ?thesis
      using undisturbed_dispatcher [of "s\<lparr>dispatcher_q := q\<rparr>" X i] by (simp add: undisturbed_trans_q)
  next
    case L_DispatcherEffect
    then show ?thesis
      using assms(1)
      by (auto simp: sv_step_def dispatcher_do_def send silent_def undisturbed_def
          split: if_splits list.splits effect.splits option.splits)
  next
    case (L_Client ch i)
    then show ?thesis
      using assms(1) undisturbed_client by (auto simp: sv_step_def split: if_splits option.splits)
  next
    case (L_ClientMessage ch)
    then obtain c i q where "s' = client_input X ch c i (s\<lparr>client_q := q\<rparr>)" "out = []"
      using assms(1) by (auto simp: sv_step_def split: if_splits option.splits)
    then show ?thesis
      using undisturbed_client [of "s\<lparr>client_q := q\<rparr>" X ch c i] by (simp add: undisturbed_trans_q)
  next
    case (L_ClientEffect ch)
    then show ?thesis
      using assms(1)
      by (auto simp: sv_step_def client_do_def send silent_def undisturbed_def split: if_splits list.splits rc_event.splits)
  next
    case (L_Updater ev)
    then show ?thesis
      using assms(1) undisturbed_updater by (auto simp: sv_step_def split: if_splits)
  next
    case (L_ApiRequest m)
    then show ?thesis using assms(1) by (auto simp: sv_step_def undisturbed_def split: if_splits)
  next
    case (L_ApiReceive m)
    then show ?thesis using assms(1) by (auto simp: sv_step_def undisturbed_def split: if_splits dest!: api_receive_frame)
  next
    case (L_ApiGone n)
    then show ?thesis using assms(1) by (auto simp: sv_step_def undisturbed_def split: if_splits)
  next
    case L_ApiShutdown
    then show ?thesis
      using assms(1) undisturbed_finish [of s s T_Api] by (auto simp: sv_step_def undisturbed_def split: if_splits)
  next
    case (L_ApiFailed e)
    then show ?thesis
      using assms(1) undisturbed_finish [of s s T_Api] by (auto simp: sv_step_def undisturbed_def split: if_splits)
  qed (use assms(1) busy j send in \<open>auto simp: sv_step_def beaconer_do_def split: if_splits\<close>)
qed

interpretation jam: run_invariant "sv_step X" "sv_run X" "\<lambda>_. True"
  "\<lambda>s. channels_ok X \<and> jammed X s \<and> sv_gateway s = g \<and> sv_beaconer s = b" "silent" for X g b
proof unfold_locales
  fix l s s' out
  assume st: "sv_step X l s = Some (s', out)"
    and inv: "channels_ok X \<and> jammed X s \<and> sv_gateway s = g \<and> sv_beaconer s = b"
  from step_jammed [OF st] inv have "undisturbed s s'" "list_all silent out" by simp_all
  with inv jammed_undisturbed show "(channels_ok X \<and> jammed X s' \<and> sv_gateway s' = g \<and> sv_beaconer s' = b) \<and> list_all silent out"
    by (auto simp: undisturbed_def)
qed

text \<open>
  Both tasks at rest, and a schedule of beacon frames and timer ticks that leads from there into
  the jam: each tick puts a beacon into the gateway's channel, each frame a message into the
  beaconer's, until both channels are full and one more of each blocks them.
\<close>

definition both_idle ::
  "('w, 'n, 'r, 'g, 'd, 'b, 'c) server_ext \<Rightarrow> Beaconer \<Rightarrow> ('w, 'g, 'd, 'b, 'c) server \<Rightarrow> bool" where
  "both_idle X b s \<longleftrightarrow> queues_within X s \<and> gateway_ready s \<and> beaconer_ready s \<and> sv_beaconer s = b"

definition beaconing :: "('w, 'r) beaconer_ext \<Rightarrow> Beaconer \<Rightarrow> bool" where
  "beaconing Y b \<longleftrightarrow> \<not> interval_panics (bc_interval b) \<and>
     (\<forall>w. \<exists>w' beacon eff. send_beacon Y b w = Some (w', BX_Transmit beacon # eff))"

lemma beaconing_step:
  assumes "beaconing Y b"
  obtains w' beacon eff where "bc_step Y b BT_Tick w = Some (b, w', BX_Transmit beacon # eff)"
    and "eff = [] \<or> (\<exists>u r. eff = [BX_SubmitBeacon u r])"
proof -
  obtain w' beacon eff where s: "send_beacon Y b w = Some (w', BX_Transmit beacon # eff)"
    using assms unfolding beaconing_def by blast
  from send_beacon_effects [OF s] have "eff = [] \<or> (\<exists>u r. eff = [BX_SubmitBeacon u r])"
    by (auto elim: step_effectsE)
  with s that show ?thesis by simp
qed

lemma one_tick:
  assumes c: "channels_ok X" and idle: "both_idle X b s" and can: "beaconing (sx_beaconer X) b"
    and room: "length (mp_contents (sx_gateway_ch X) (gateway_q s)) < 10"
  shows "\<exists>ls s' out. sv_run X ls s = Some (s', out) \<and> both_idle X b s' \<and> beaconer_q s' = beaconer_q s \<and>
    length (mp_contents (sx_gateway_ch X) (gateway_q s')) = Suc (length (mp_contents (sx_gateway_ch X) (gateway_q s)))"
proof -
  have ok: "mpsc_ok (sx_gateway_ch X)" using c by (simp add: channels_ok_def)
  have cap: "mp_capacity (sx_gateway_ch X) (gateway_q s) = 10"
    using idle by (simp add: both_idle_def queues_within_def fits_def)
  obtain w' beacon eff where st: "bc_step (sx_beaconer X) b BT_Tick (sv_world s) = Some (b, w', BX_Transmit beacon # eff)"
    and eff: "eff = [] \<or> (\<exists>u r. eff = [BX_SubmitBeacon u r])" using beaconing_step [OF can] by metis
  obtain q where q: "mp_send (sx_gateway_ch X) (GW_TransmitBeacon beacon) (gateway_q s) = Some q"
    using mpsc_send_ready [OF ok] room cap by metis
  let ?s = "s\<lparr>sv_beaconer := b, sv_world := w', beaconer_out := BX_Transmit beacon # eff\<rparr>"
  have r: "beaconer_ready s" "gateway_ready s" "sv_beaconer s = b" "queues_within X s"
    using idle by (simp_all add: both_idle_def)
  have 1: "sv_step X L_BeaconerTick s = Some (?s, [])"
    using r(1) can by (simp add: sv_step_def beaconer_input_def r(3) st beaconing_def del: bc_step.simps)
  have 2: "sv_step X L_BeaconerEffect ?s = Some (?s\<lparr>beaconer_out := eff, gateway_q := q\<rparr>, [])"
    using r(1) by (simp add: sv_step_def beaconer_do_def q beaconer_ready_def)
  have 3: "sv_run X (if eff = [] then [] else [L_BeaconerEffect]) (?s\<lparr>beaconer_out := eff, gateway_q := q\<rparr>) =
      Some (?s\<lparr>beaconer_out := [], gateway_q := q\<rparr>, map O_Ingest eff)"
    using eff r(1) by (auto simp: sv_step_def beaconer_do_def beaconer_ready_def)
  have "both_idle X b (?s\<lparr>beaconer_out := [], gateway_q := q\<rparr>)"
    using r mpsc_send [OF ok q] room by (auto simp: both_idle_def gateway_ready_def beaconer_ready_def queues_within_def fits_def)
  moreover have "length (mp_contents (sx_gateway_ch X) q) = Suc (length (mp_contents (sx_gateway_ch X) (gateway_q s)))"
    by (simp add: mpsc_send [OF ok q])
  ultimately show ?thesis
    using sv.run_ConsI [OF 1 sv.run_ConsI [OF 2 3]] by fastforce
qed

lemma one_frame:
  assumes c: "channels_ok X" and idle: "both_idle X b s"
    and p: "Packet_from_rxpk (radio (sx_udp X)) rx = Ok p" "is_potential_beacon p"
    and room: "length (mp_contents (sx_beaconer_ch X) (beaconer_q s)) < 10"
  shows "\<exists>ls s' out. sv_run X ls s = Some (s', out) \<and> both_idle X b s' \<and> gateway_q s' = gateway_q s \<and>
    length (mp_contents (sx_beaconer_ch X) (beaconer_q s')) = Suc (length (mp_contents (sx_beaconer_ch X) (beaconer_q s)))"
proof -
  have ok: "mpsc_ok (sx_beaconer_ch X)" using c by (simp add: channels_ok_def)
  have cap: "mp_capacity (sx_beaconer_ch X) (beaconer_q s) = 10"
    using idle by (simp add: both_idle_def queues_within_def fits_def)
  obtain q where q: "mp_send (sx_beaconer_ch X) (BM_ReceivedBeacon p) (beaconer_q s) = Some q"
    using mpsc_send_ready [OF ok] room cap by metis
  let ?s = "s\<lparr>sv_gateway := sv_gateway s, sv_world := sv_world s, gateway_out := [GE_ReceivedBeacon p]\<rparr>"
  have r: "beaconer_ready s" "gateway_ready s" "sv_beaconer s = b" "queues_within X s"
    using idle by (simp_all add: both_idle_def)
  have 1: "sv_step X (L_Udp (UE_PacketReceived rx [])) s = Some (?s, [])"
    using r(2) by (simp add: sv_step_def gateway_input_def g_step_def handle_udp_event_def p)
  have 2: "sv_step X L_GatewayEffect ?s = Some (?s\<lparr>gateway_out := [], beaconer_q := q\<rparr>, [])"
    using r(2) by (simp add: sv_step_def gateway_do_def q gateway_ready_def)
  have "both_idle X b (?s\<lparr>gateway_out := [], beaconer_q := q\<rparr>)"
    using r mpsc_send [OF ok q] room by (auto simp: both_idle_def gateway_ready_def beaconer_ready_def queues_within_def fits_def)
  moreover have "length (mp_contents (sx_beaconer_ch X) q) = Suc (length (mp_contents (sx_beaconer_ch X) (beaconer_q s)))"
    by (simp add: mpsc_send [OF ok q])
  ultimately show ?thesis
    using sv.run_ConsI [OF 1 sv.run_ConsI [OF 2 sv.run_Nil]] by fastforce
qed

lemma fill_gateway:
  assumes "channels_ok X" and "beaconing (sx_beaconer X) b"
  shows "both_idle X b s \<Longrightarrow> length (mp_contents (sx_gateway_ch X) (gateway_q s)) + n = 10 \<Longrightarrow>
    \<exists>ls s' out. sv_run X ls s = Some (s', out) \<and> both_idle X b s' \<and> beaconer_q s' = beaconer_q s \<and>
      length (mp_contents (sx_gateway_ch X) (gateway_q s')) = 10"
proof (induction n arbitrary: s)
  case 0
  then show ?case by (metis add_0_right sv.run_Nil)
next
  case (Suc n)
  from one_tick [OF assms(1) Suc.prems(1) assms(2)] Suc.prems(2) obtain ls s1 out where
    1: "sv_run X ls s = Some (s1, out)" "both_idle X b s1" "beaconer_q s1 = beaconer_q s"
      "length (mp_contents (sx_gateway_ch X) (gateway_q s1)) + n = 10" by auto
  from Suc.IH [OF 1(2,4)] sv.run_append [OF 1(1)] 1(3) show ?case by metis
qed

lemma fill_beaconer:
  assumes "channels_ok X" and "Packet_from_rxpk (radio (sx_udp X)) rx = Ok p" and "is_potential_beacon p"
  shows "both_idle X b s \<Longrightarrow> length (mp_contents (sx_beaconer_ch X) (beaconer_q s)) + n = 10 \<Longrightarrow>
    \<exists>ls s' out. sv_run X ls s = Some (s', out) \<and> both_idle X b s' \<and> gateway_q s' = gateway_q s \<and>
      length (mp_contents (sx_beaconer_ch X) (beaconer_q s')) = 10"
proof (induction n arbitrary: s)
  case 0
  then show ?case by (metis add_0_right sv.run_Nil)
next
  case (Suc n)
  from one_frame [OF assms(1) Suc.prems(1) assms(2,3)] Suc.prems(2) obtain ls s1 out where
    1: "sv_run X ls s = Some (s1, out)" "both_idle X b s1" "gateway_q s1 = gateway_q s"
      "length (mp_contents (sx_beaconer_ch X) (beaconer_q s1)) + n = 10" by auto
  from Suc.IH [OF 1(2,4)] sv.run_append [OF 1(1)] 1(3) show ?case by metis
qed

lemma last_straw:
  assumes idle: "both_idle X b s" and can: "beaconing (sx_beaconer X) b"
    and p: "Packet_from_rxpk (radio (sx_udp X)) rx = Ok p" "is_potential_beacon p"
    and full: "length (mp_contents (sx_gateway_ch X) (gateway_q s)) = 10"
      "length (mp_contents (sx_beaconer_ch X) (beaconer_q s)) = 10"
  shows "\<exists>s'. sv_run X [L_BeaconerTick, L_Udp (UE_PacketReceived rx [])] s = Some (s', []) \<and> jammed X s'"
proof -
  have r: "beaconer_ready s" "gateway_ready s" "sv_beaconer s = b" "queues_within X s"
    using idle by (simp_all add: both_idle_def)
  obtain w' beacon eff where st: "bc_step (sx_beaconer X) b BT_Tick (sv_world s) = Some (b, w', BX_Transmit beacon # eff)"
    using beaconing_step [OF can] by metis
  let ?s = "s\<lparr>sv_beaconer := b, sv_world := w', beaconer_out := BX_Transmit beacon # eff\<rparr>"
  have 1: "sv_step X L_BeaconerTick s = Some (?s, [])"
    using r(1) can by (simp add: sv_step_def beaconer_input_def r(3) st beaconing_def del: bc_step.simps)
  have 2: "sv_step X (L_Udp (UE_PacketReceived rx [])) ?s = Some (?s\<lparr>gateway_out := [GE_ReceivedBeacon p]\<rparr>, [])"
    using r(2) by (simp add: sv_step_def gateway_input_def g_step_def handle_udp_event_def p gateway_ready_def)
  have "jammed X (?s\<lparr>gateway_out := [GE_ReceivedBeacon p]\<rparr>)"
    using r full by (simp add: jammed_def to_beaconer_def full_def queues_within_def fits_def gateway_ready_def beaconer_ready_def)
  with sv.run_ConsI [OF 1 sv.run_ConsI [OF 2 sv.run_Nil]] show ?thesis by auto
qed

lemma jam_reachable:
  assumes c: "channels_ok X" and idle: "both_idle X b s" and can: "beaconing (sx_beaconer X) b"
    and p: "Packet_from_rxpk (radio (sx_udp X)) rx = Ok p" "is_potential_beacon p"
  shows "\<exists>ls s' out. sv_run X ls s = Some (s', out) \<and> jammed X s'"
proof -
  have len: "length (mp_contents (sx_gateway_ch X) (gateway_q s)) \<le> 10" if "both_idle X b s" for s
    using that by (simp add: both_idle_def queues_within_def fits_def)
  have len': "length (mp_contents (sx_beaconer_ch X) (beaconer_q s)) \<le> 10" if "both_idle X b s" for s
    using that by (simp add: both_idle_def queues_within_def fits_def)
  obtain l1 s1 o1 where 1: "sv_run X l1 s = Some (s1, o1)" "both_idle X b s1"
    "length (mp_contents (sx_gateway_ch X) (gateway_q s1)) = 10"
    using fill_gateway [OF c can idle le_add_diff_inverse [OF len [OF idle]]] by blast
  obtain l2 s2 o2 where 2: "sv_run X l2 s1 = Some (s2, o2)" "both_idle X b s2" "gateway_q s2 = gateway_q s1"
    "length (mp_contents (sx_beaconer_ch X) (beaconer_q s2)) = 10"
    using fill_beaconer [OF c p 1(2) le_add_diff_inverse [OF len' [OF 1(2)]]] by blast
  obtain s3 where 3: "sv_run X [L_BeaconerTick, L_Udp (UE_PacketReceived rx [])] s2 = Some (s3, [])" "jammed X s3"
    using last_straw [OF 2(2) can p] 1(3) 2(3,4) by auto
  from sv.run_append [OF 1(1) sv.run_append [OF 2(1) 3(1)]] 3(2) show ?thesis by blast
qed

end
