(* ===== verification/Info.thy ===== *)
theory Info
  imports Local_Api Settings
begin

text \<open>
  The commands that query the running service: \<^verbatim>\<open>src/cmd/info.rs\<close>, \<^verbatim>\<open>src/cmd/key.rs\<close> and
  \<^verbatim>\<open>src/cmd/add.rs\<close>, over the client of the local API. The printed forms of keys, animal names,
  base 64 and JSON text are parameters; JSON values are a data type.
\<close>

section \<open>Information keys\<close>

datatype InfoKey = IK_Fw | IK_Key | IK_OnboardingKey | IK_Name | IK_Gateway | IK_Region

datatype InfoKeyParseError = InfoKeyParseError string

definition INFO_FW :: string where "INFO_FW = ''fw''"
definition INFO_KEY :: string where "INFO_KEY = ''key''"
definition INFO_ONBOARDING_KEY :: string where "INFO_ONBOARDING_KEY = ''onboarding''"
definition INFO_NAME :: string where "INFO_NAME = ''name''"
definition INFO_GATEWAY :: string where "INFO_GATEWAY = ''gateway''"
definition INFO_REGION :: string where "INFO_REGION = ''region''"

lemmas info_names = INFO_FW_def INFO_KEY_def INFO_ONBOARDING_KEY_def INFO_NAME_def INFO_GATEWAY_def INFO_REGION_def

fun InfoKey_display :: "InfoKey \<Rightarrow> string" where
  "InfoKey_display IK_Fw = INFO_FW"
| "InfoKey_display IK_Key = INFO_KEY"
| "InfoKey_display IK_OnboardingKey = INFO_ONBOARDING_KEY"
| "InfoKey_display IK_Name = INFO_NAME"
| "InfoKey_display IK_Gateway = INFO_GATEWAY"
| "InfoKey_display IK_Region = INFO_REGION"

fun InfoKeyParseError_display :: "InfoKeyParseError \<Rightarrow> string" where
  "InfoKeyParseError_display (InfoKeyParseError s) = ''invalid key: '' @ s"

definition InfoKey_from_str :: "string \<Rightarrow> (InfoKeyParseError, InfoKey) rresult" where
  "InfoKey_from_str s =
     (if s = INFO_FW then Ok IK_Fw
      else if s = INFO_KEY then Ok IK_Key
      else if s = INFO_ONBOARDING_KEY then Ok IK_OnboardingKey
      else if s = INFO_NAME then Ok IK_Name
      else if s = INFO_GATEWAY then Ok IK_Gateway
      else if s = INFO_REGION then Ok IK_Region
      else Err (InfoKeyParseError s))"

definition InfoKeys_from_str :: "string \<Rightarrow> (InfoKeyParseError, InfoKey list) rresult" where
  "InfoKeys_from_str s = mapM_r (\<lambda>x. InfoKey_from_str (trim x)) (str_split (CHR '','') s)"

section \<open>Cached answers\<close>

record InfoCache =
  ic_platform :: string
  ic_port :: u16
  ic_public_keys :: "(pubkey \<times> pubkey) option"
  ic_height :: "HeightRes option"
  ic_region :: "Region option"

definition InfoCache_new :: "string \<Rightarrow> u16 \<Rightarrow> InfoCache" where
  "InfoCache_new platform port =
     \<lparr>ic_platform = platform, ic_port = port, ic_public_keys = None, ic_height = None, ic_region = None\<rparr>"

text \<open>A client is connected for one request.\<close>

definition with_client ::
  "'w client_ext \<Rightarrow> u16 \<Rightarrow> ('w \<Rightarrow> 'a gw_result \<times> 'w) \<Rightarrow> 'w \<Rightarrow> 'a gw_result \<times> 'w" where
  "with_client C port f w =
     (case LocalClient_new C port w of
        (Ok _, w) \<Rightarrow> f w
      | (Err e, w) \<Rightarrow> (Err e, w)
      | (Panic, w) \<Rightarrow> (Panic, w))"

text \<open>The three cached requests share the shape of this one.\<close>

definition cached ::
  "'a option \<Rightarrow> ('a \<Rightarrow> InfoCache \<Rightarrow> InfoCache) \<Rightarrow> ('w \<Rightarrow> 'a gw_result \<times> 'w) \<Rightarrow> InfoCache \<Rightarrow> 'w \<Rightarrow>
     'a gw_result \<times> InfoCache \<times> 'w" where
  "cached stored store fetch c w =
     (case stored of
        Some x \<Rightarrow> (Ok x, c, w)
      | None \<Rightarrow>
          (case fetch w of
             (Ok x, w) \<Rightarrow> (Ok x, store x c, w)
           | (Err e, w) \<Rightarrow> (Err e, c, w)
           | (Panic, w) \<Rightarrow> (Panic, c, w)))"

definition cache_public_keys ::
  "'w client_ext \<Rightarrow> InfoCache \<Rightarrow> 'w \<Rightarrow> (pubkey \<times> pubkey) gw_result \<times> InfoCache \<times> 'w" where
  "cache_public_keys C c w =
     cached (ic_public_keys c) (\<lambda>x c. c\<lparr>ic_public_keys := Some x\<rparr>) (with_client C (ic_port c) (lc_pubkey C)) c w"

definition cache_height :: "'w client_ext \<Rightarrow> InfoCache \<Rightarrow> 'w \<Rightarrow> HeightRes gw_result \<times> InfoCache \<times> 'w" where
  "cache_height C c w =
     cached (ic_height c) (\<lambda>x c. c\<lparr>ic_height := Some x\<rparr>) (with_client C (ic_port c) (lc_height C)) c w"

definition cache_region :: "'w client_ext \<Rightarrow> InfoCache \<Rightarrow> 'w \<Rightarrow> Region gw_result \<times> InfoCache \<times> 'w" where
  "cache_region C c w =
     cached (ic_region c) (\<lambda>x c. c\<lparr>ic_region := Some x\<rparr>) (with_client C (ic_port c) (lc_region C)) c w"

definition map_fst :: "('a gw_result \<Rightarrow> 'b gw_result) \<Rightarrow> 'a gw_result \<times> InfoCache \<times> 'w \<Rightarrow> 'b gw_result \<times> InfoCache \<times> 'w" where
  "map_fst f = map_prod f id"

definition cache_public_key :: "'w client_ext \<Rightarrow> InfoCache \<Rightarrow> 'w \<Rightarrow> pubkey gw_result \<times> InfoCache \<times> 'w" where
  "cache_public_key C c w = map_fst (map_ok fst) (cache_public_keys C c w)"

definition cache_onboarding_key :: "'w client_ext \<Rightarrow> InfoCache \<Rightarrow> 'w \<Rightarrow> pubkey gw_result \<times> InfoCache \<times> 'w" where
  "cache_onboarding_key C c w = map_fst (map_ok snd) (cache_public_keys C c w)"

definition cache_block_height :: "'w client_ext \<Rightarrow> InfoCache \<Rightarrow> 'w \<Rightarrow> u64 gw_result \<times> InfoCache \<times> 'w" where
  "cache_block_height C c w = map_fst (map_ok hs_height) (cache_height C c w)"

definition cache_block_age :: "'w client_ext \<Rightarrow> InfoCache \<Rightarrow> 'w \<Rightarrow> u64 gw_result \<times> InfoCache \<times> 'w" where
  "cache_block_age C c w = map_fst (map_ok hs_block_age) (cache_height C c w)"

definition gateway_of_height :: "'w client_ext \<Rightarrow> HeightRes \<Rightarrow> KeyedUri gw_result" where
  "gateway_of_height C height =
     bind_r (ok_or (error_custom ''No uri for gateway'') (hs_gateway height)) (KeyedUri_from_local (cl_addr C))"

definition cache_gateway :: "'w client_ext \<Rightarrow> InfoCache \<Rightarrow> 'w \<Rightarrow> KeyedUri gw_result \<times> InfoCache \<times> 'w" where
  "cache_gateway C c w = map_fst (\<lambda>r. bind_r r (gateway_of_height C)) (cache_height C c w)"

definition cache_gateway_version ::
  "'w client_ext \<Rightarrow> InfoCache \<Rightarrow> 'w \<Rightarrow> GatewayVersion option gw_result \<times> InfoCache \<times> 'w" where
  "cache_gateway_version C c w =
     map_fst (map_ok (\<lambda>h. Some (GatewayVersion_from_u64 (hs_gateway_version h)))) (cache_height C c w)"

section \<open>The commands\<close>

datatype json = J_Null | J_String string | J_Number nat | J_Object "(string \<times> json) list"

record info_ext =
  ix_semver :: semver
  ix_pubkey_string :: "pubkey \<Rightarrow> string"
  ix_animal_name :: "string \<Rightarrow> foreign + string"
  ix_b64 :: b64_encoder
  ix_pretty :: "(string \<rightharpoonup> json) \<Rightarrow> foreign + string"

definition GatewayVersion_display :: "GatewayVersion \<Rightarrow> string" where
  "GatewayVersion_display v =
     print_nat (unat (v_major v)) @ ''.'' @ print_nat (unat (v_minor v)) @ ''.'' @ print_nat (unat (v_patch v))"

lemma GatewayVersion_display_split:
  "str_split (CHR ''.'') (GatewayVersion_display v) =
     [print_nat (unat (v_major v)), print_nat (unat (v_minor v)), print_nat (unat (v_patch v))]"
  by (simp add: GatewayVersion_display_def str_split_append str_split_no_sep dot_notin_print_nat)

lemma GatewayVersion_display_inject: "GatewayVersion_display v = GatewayVersion_display v' \<longleftrightarrow> v = v'"
proof
  assume "GatewayVersion_display v = GatewayVersion_display v'"
  then have "str_split (CHR ''.'') (GatewayVersion_display v) = str_split (CHR ''.'') (GatewayVersion_display v')" by simp
  then show "v = v'" by (cases v, cases v') (simp add: GatewayVersion_display_split print_nat_inject word_unat_eq_iff)
qed simp

definition json_version :: "GatewayVersion option \<Rightarrow> json" where
  "json_version v =
     (case v of
        Some v \<Rightarrow> J_Object [(''major'', J_Number (unat (v_major v))), (''minor'', J_Number (unat (v_minor v))),
                           (''patch'', J_Number (unat (v_patch v)))]
      | None \<Rightarrow> J_Null)"

definition animal_name :: "info_ext \<Rightarrow> pubkey \<Rightarrow> json gw_result" where
  "animal_name I k =
     (case ix_animal_name I (ix_pubkey_string I k) of Inr name \<Rightarrow> Ok (J_String name) | Inl _ \<Rightarrow> Panic)"

definition gateway_json :: "'w client_ext \<Rightarrow> info_ext \<Rightarrow> KeyedUri \<Rightarrow> u64 \<Rightarrow> u64 \<Rightarrow> GatewayVersion option \<Rightarrow> json" where
  "gateway_json C I gateway height block_age vsn =
     J_Object [(''uri'', J_String (bytes_str (uri_print (cl_addr C) (ku_uri gateway)))),
               (''key'', J_String (ix_pubkey_string I (ku_pubkey gateway))),
               (''height'', J_Number (unat height)), (''block_age'', J_Number (unat block_age)),
               (''version'', json_version vsn)]"

text \<open>Sequencing on the cache: a failure ends the command.\<close>

definition then_cache ::
  "'a gw_result \<times> InfoCache \<times> 'w \<Rightarrow> ('a \<Rightarrow> InfoCache \<Rightarrow> 'w \<Rightarrow> 'b gw_result \<times> InfoCache \<times> 'w) \<Rightarrow>
     'b gw_result \<times> InfoCache \<times> 'w" where
  "then_cache m f =
     (case m of
        (Ok x, c, w) \<Rightarrow> f x c w
      | (Err e, c, w) \<Rightarrow> (Err e, c, w)
      | (Panic, c, w) \<Rightarrow> (Panic, c, w))"

definition to_status ::
  "'w client_ext \<Rightarrow> info_ext \<Rightarrow> InfoKey \<Rightarrow> InfoCache \<Rightarrow> 'w \<Rightarrow> json gw_result \<times> InfoCache \<times> 'w" where
  "to_status C I key c w =
     (case key of
        IK_Fw \<Rightarrow>
          (bind_r (settings_version (ix_semver I)) (\<lambda>v.
             Ok (J_String (ic_platform c @ ''-'' @ ver_print (ix_semver I) v))), c, w)
      | IK_Key \<Rightarrow> map_fst (map_ok (\<lambda>k. J_String (ix_pubkey_string I k))) (cache_public_key C c w)
      | IK_OnboardingKey \<Rightarrow> map_fst (map_ok (\<lambda>k. J_String (ix_pubkey_string I k))) (cache_onboarding_key C c w)
      | IK_Name \<Rightarrow> map_fst (\<lambda>r. bind_r r (animal_name I)) (cache_public_key C c w)
      | IK_Gateway \<Rightarrow>
          then_cache (cache_gateway C c w) (\<lambda>gateway c w.
          then_cache (cache_block_height C c w) (\<lambda>height c w.
          then_cache (cache_block_age C c w) (\<lambda>block_age c w.
          then_cache (cache_gateway_version C c w) (\<lambda>vsn c w.
            (Ok (gateway_json C I gateway height block_age vsn), c, w)))))
      | IK_Region \<Rightarrow> map_fst (map_ok (\<lambda>r. J_String (Region_display (cl_regions C) r))) (cache_region C c w))"

primrec info_values ::
  "'w client_ext \<Rightarrow> info_ext \<Rightarrow> InfoKey list \<Rightarrow> (string \<rightharpoonup> json) \<Rightarrow> InfoCache \<Rightarrow> 'w \<Rightarrow>
     (string \<rightharpoonup> json) gw_result \<times> InfoCache \<times> 'w" where
  "info_values C I [] info c w = (Ok info, c, w)"
| "info_values C I (key # keys) info c w =
     then_cache (to_status C I key c w) (\<lambda>v c w. info_values C I keys (info(InfoKey_display key \<mapsto> v)) c w)"

definition print_json :: "info_ext \<Rightarrow> (string \<rightharpoonup> json) \<Rightarrow> cli_output list gw_result" where
  "print_json I info = map_ok (\<lambda>s. [Out s]) (foreign_r from_json_error (ix_pretty I info))"

definition Info_run ::
  "'w client_ext \<Rightarrow> info_ext \<Rightarrow> InfoKey list \<Rightarrow> 'l Settings \<Rightarrow> 'w \<Rightarrow> cli_output list gw_result \<times> 'w" where
  "Info_run C I keys settings w =
     (case info_values C I keys (\<lambda>_. None) (InfoCache_new (us_platform (set_update settings)) (set_api settings)) w of
        (r, _, w) \<Rightarrow> (bind_r r (print_json I), w))"

definition Key_info_run ::
  "'w client_ext \<Rightarrow> info_ext \<Rightarrow> 'l Settings \<Rightarrow> 'w \<Rightarrow> cli_output list gw_result \<times> 'w" where
  "Key_info_run C I settings w = Info_run C I [IK_Name, IK_Key, IK_OnboardingKey] settings w"

definition print_txn :: "'w client_ext \<Rightarrow> info_ext \<Rightarrow> StakingMode \<Rightarrow> AddGatewayTxn \<Rightarrow> cli_output list gw_result" where
  "print_txn C I mode txn =
     (let key = (\<lambda>bs. map_ok (ix_pubkey_string I) (foreign_r Error_CryptoError (pubkey_parse (cl_addr C) bs))) in
      bind_r (key (ag_gateway txn)) (\<lambda>address.
      bind_r (key (ag_payer txn)) (\<lambda>payer.
      bind_r (key (ag_owner txn)) (\<lambda>owner.
      bind_r (in_envelope_vec (cl_txn C) txn) (\<lambda>buf.
      print_json I (map_of
        [(''mode'', J_String (StakingMode_display mode)), (''address'', J_String address),
         (''payer'', J_String payer), (''owner'', J_String owner), (''fee'', J_Number (unat (ag_fee txn))),
         (''staking fee'', J_Number (unat (ag_staking_fee txn))), (''txn'', J_String (to_b64 (ix_b64 I) buf))]))))))"

definition Add_run ::
  "'w client_ext \<Rightarrow> info_ext \<Rightarrow> pubkey \<Rightarrow> pubkey \<Rightarrow> StakingMode \<Rightarrow> 'l Settings \<Rightarrow> 'w \<Rightarrow>
     cli_output list gw_result \<times> 'w" where
  "Add_run C I owner payer mode settings w =
     (let (r, w) = with_client C (set_api settings) (lc_add_gateway C owner payer mode) w
      in (bind_r r (print_txn C I mode), w))"

section \<open>Information keys\<close>

lemma InfoKey_display_parse [simp]: "InfoKey_from_str (InfoKey_display k) = Ok k"
  by (cases k) (simp_all add: InfoKey_from_str_def info_names)

definition visible :: "char \<Rightarrow> bool" where
  "visible c \<longleftrightarrow> (let n = of_char c :: nat in 32 < n \<and> n < 128)"

lemma white_space_not_visible:
  "w \<in> set white_space \<Longrightarrow> w \<noteq> [] \<and> \<not> visible (hd w) \<and> \<not> visible (last w)"
proof -
  have "list_all (\<lambda>w. w \<noteq> [] \<and> \<not> visible (hd w) \<and> \<not> visible (last w)) white_space"
    unfolding white_space_def visible_def Let_def by (simp add: upt_rec)
  then show "w \<in> set white_space \<Longrightarrow> ?thesis" by (simp add: list_all_iff)
qed

lemma trim_with_word: "(\<forall>w \<in> set ws. w = [] \<or> hd w \<noteq> c) \<Longrightarrow> trim_with ws (c # s) = c # s"
proof -
  assume "\<forall>w \<in> set ws. w = [] \<or> hd w \<noteq> c"
  then have "find (\<lambda>w. w \<noteq> [] \<and> prefix w (c # s)) ws = None" by (auto simp: find_None_iff prefix_Cons)
  then show ?thesis by (subst trim_with.simps) (simp add: skip_space_def)
qed

lemma trim_visible:
  assumes "s \<noteq> []" and "visible (hd s)" and "visible (last s)" shows "trim s = s"
proof -
  have a: "trim_with white_space s = s"
    using assms(1,2) white_space_not_visible by (cases s) (auto intro!: trim_with_word)
  obtain c r where r: "rev s = c # r" using assms(1) by (cases "rev s") auto
  then have "c = last s" using assms(1) by (metis hd_rev list.sel(1))
  then have "trim_with (map rev white_space) (rev s) = rev s"
    using assms(3) white_space_not_visible unfolding r
    by (intro trim_with_word) (fastforce simp: hd_rev)
  with a show ?thesis by (simp add: trim_def)
qed

lemma InfoKey_display_word:
  "InfoKey_display k \<noteq> [] \<and> visible (hd (InfoKey_display k)) \<and> visible (last (InfoKey_display k)) \<and>
   CHR '','' \<notin> set (InfoKey_display k)"
  by (cases k) (simp_all add: info_names visible_def of_char_def)

text \<open>The keys as the command line has them.\<close>

fun print_keys :: "InfoKey list \<Rightarrow> string" where
  "print_keys [] = []"
| "print_keys [k] = InfoKey_display k"
| "print_keys (k # ks) = InfoKey_display k @ CHR '','' # print_keys ks"

lemma InfoKeys_print_parse: "ks \<noteq> [] \<Longrightarrow> InfoKeys_from_str (print_keys ks) = Ok ks"
proof (induction ks rule: print_keys.induct)
  case (2 k)
  then show ?case
    using InfoKey_display_word [of k] by (simp add: InfoKeys_from_str_def str_split_no_sep trim_visible)
next
  case (3 k k' ks)
  then show ?case
    using InfoKey_display_word [of k] by (simp add: InfoKeys_from_str_def str_split_append trim_visible)
qed simp

section \<open>Cached requests\<close>

text \<open>
  One slot of the cache: what is stored is found again, and storing keeps the address of the service
  and the platform.
\<close>

locale cache_slot =
  fixes get :: "InfoCache \<Rightarrow> 'a option" and put :: "'a \<Rightarrow> InfoCache \<Rightarrow> InfoCache"
  assumes get_put: "get (put x c) = Some x"
    and put_port: "ic_port (put x c) = ic_port c" and put_platform: "ic_platform (put x c) = ic_platform c"
begin

lemma cached_answer:
  assumes "\<And>w. fst (fetch w) = ans" and "\<And>x. get c = Some x \<Longrightarrow> ans = Ok x"
  shows "\<exists>w'. cached (get c) put fetch c w =
      (ans, case ans of Ok x \<Rightarrow> (if get c = None then put x c else c) | _ \<Rightarrow> c, w')"
proof (cases "get c")
  case None
  then show ?thesis using assms(1) [of w] by (cases "fetch w"; cases ans) (auto simp: cached_def)
qed (use assms(2) in \<open>auto simp: cached_def\<close>)

lemma cached_once:
  "cached (get c) put fetch c w = (Ok x, c', w') \<Longrightarrow> cached (get c') put fetch' c' w'' = (Ok x, c', w'')"
  by (auto simp: cached_def get_put split: option.splits prod.splits rresult.splits)

end

interpretation keys_slot: cache_slot ic_public_keys "\<lambda>x c. c\<lparr>ic_public_keys := Some x\<rparr>"
  by unfold_locales simp_all

interpretation height_slot: cache_slot ic_height "\<lambda>x c. c\<lparr>ic_height := Some x\<rparr>"
  by unfold_locales simp_all

interpretation region_slot: cache_slot ic_region "\<lambda>x c. c\<lparr>ic_region := Some x\<rparr>"
  by unfold_locales simp_all

section \<open>The commands without a cache\<close>

record info_answers =
  an_keys :: "(pubkey \<times> pubkey) gw_result"
  an_height :: "HeightRes gw_result"
  an_region :: "Region gw_result"

text \<open>A service whose answers do not change while the command runs.\<close>

definition stable_service :: "'w client_ext \<Rightarrow> u16 \<Rightarrow> info_answers \<Rightarrow> bool" where
  "stable_service C port a \<longleftrightarrow>
     (\<forall>w. fst (with_client C port (lc_pubkey C) w) = an_keys a \<and>
          fst (with_client C port (lc_height C) w) = an_height a \<and>
          fst (with_client C port (lc_region C) w) = an_region a)"

definition info_value :: "'w client_ext \<Rightarrow> info_ext \<Rightarrow> string \<Rightarrow> info_answers \<Rightarrow> InfoKey \<Rightarrow> json gw_result" where
  "info_value C I platform a key =
     (case key of
        IK_Fw \<Rightarrow> bind_r (settings_version (ix_semver I)) (\<lambda>v.
             Ok (J_String (platform @ ''-'' @ ver_print (ix_semver I) v)))
      | IK_Key \<Rightarrow> map_ok (\<lambda>ks. J_String (ix_pubkey_string I (fst ks))) (an_keys a)
      | IK_OnboardingKey \<Rightarrow> map_ok (\<lambda>ks. J_String (ix_pubkey_string I (snd ks))) (an_keys a)
      | IK_Name \<Rightarrow> bind_r (an_keys a) (\<lambda>ks. animal_name I (fst ks))
      | IK_Gateway \<Rightarrow> bind_r (an_height a) (\<lambda>h. map_ok (\<lambda>g.
          gateway_json C I g (hs_height h) (hs_block_age h) (Some (GatewayVersion_from_u64 (hs_gateway_version h))))
          (gateway_of_height C h))
      | IK_Region \<Rightarrow> map_ok (\<lambda>r. J_String (Region_display (cl_regions C) r)) (an_region a))"

definition coherent :: "info_answers \<Rightarrow> u16 \<Rightarrow> string \<Rightarrow> InfoCache \<Rightarrow> bool" where
  "coherent a port platform c \<longleftrightarrow> ic_port c = port \<and> ic_platform c = platform \<and>
     (\<forall>x. ic_public_keys c = Some x \<longrightarrow> an_keys a = Ok x) \<and>
     (\<forall>x. ic_height c = Some x \<longrightarrow> an_height a = Ok x) \<and>
     (\<forall>x. ic_region c = Some x \<longrightarrow> an_region a = Ok x)"

lemma cache_public_keys_coherent:
  assumes "stable_service C port a" and "coherent a port platform c"
  shows "\<exists>c' w'. cache_public_keys C c w = (an_keys a, c', w') \<and> coherent a port platform c'"
proof -
  have f: "fst (with_client C (ic_port c) (lc_pubkey C) w) = an_keys a" for w
    using assms by (simp add: stable_service_def coherent_def)
  have "\<And>x. ic_public_keys c = Some x \<Longrightarrow> an_keys a = Ok x" using assms(2) by (simp add: coherent_def)
  from keys_slot.cached_answer [where fetch = "with_client C (ic_port c) (lc_pubkey C)" and c = c and w = w, OF f this] assms(2) show ?thesis
    by (cases "an_keys a") (auto simp: cache_public_keys_def coherent_def)
qed

lemma cache_height_coherent:
  assumes "stable_service C port a" and "coherent a port platform c"
  shows "\<exists>c' w'. cache_height C c w = (an_height a, c', w') \<and> coherent a port platform c'"
proof -
  have f: "fst (with_client C (ic_port c) (lc_height C) w) = an_height a" for w
    using assms by (simp add: stable_service_def coherent_def)
  have "\<And>x. ic_height c = Some x \<Longrightarrow> an_height a = Ok x" using assms(2) by (simp add: coherent_def)
  from height_slot.cached_answer [where fetch = "with_client C (ic_port c) (lc_height C)" and c = c and w = w, OF f this] assms(2) show ?thesis
    by (cases "an_height a") (auto simp: cache_height_def coherent_def)
qed

lemma cache_region_coherent:
  assumes "stable_service C port a" and "coherent a port platform c"
  shows "\<exists>c' w'. cache_region C c w = (an_region a, c', w') \<and> coherent a port platform c'"
proof -
  have f: "fst (with_client C (ic_port c) (lc_region C) w) = an_region a" for w
    using assms by (simp add: stable_service_def coherent_def)
  have "\<And>x. ic_region c = Some x \<Longrightarrow> an_region a = Ok x" using assms(2) by (simp add: coherent_def)
  from region_slot.cached_answer [where fetch = "with_client C (ic_port c) (lc_region C)" and c = c and w = w, OF f this] assms(2) show ?thesis
    by (cases "an_region a") (auto simp: cache_region_def coherent_def)
qed

lemma to_status_gateway:
  assumes s: "stable_service C port a" and c: "coherent a port platform c"
  shows "\<exists>c' w'. to_status C I IK_Gateway c w = (info_value C I platform a IK_Gateway, c', w') \<and>
    coherent a port platform c'"
proof -
  obtain c1 w1 where 1: "cache_height C c w = (an_height a, c1, w1)" and c1: "coherent a port platform c1"
    using cache_height_coherent [OF s c] by blast
  show ?thesis
  proof (cases "an_height a")
    case (Ok h)
    obtain c2 w2 where 2: "cache_height C c1 w1 = (an_height a, c2, w2)" and c2: "coherent a port platform c2"
      using cache_height_coherent [OF s c1] by blast
    obtain c3 w3 where 3: "cache_height C c2 w2 = (an_height a, c3, w3)" and c3: "coherent a port platform c3"
      using cache_height_coherent [OF s c2] by blast
    obtain c4 w4 where 4: "cache_height C c3 w3 = (an_height a, c4, w4)" and c4: "coherent a port platform c4"
      using cache_height_coherent [OF s c3] by blast
    note unfold = to_status_def info_value_def cache_gateway_def cache_block_height_def cache_block_age_def
      cache_gateway_version_def then_cache_def map_fst_def
    show ?thesis
      using c1 c4 by (cases "gateway_of_height C h") (simp_all add: unfold 1 2 3 4 Ok)
  qed (use c1 in \<open>simp_all add: to_status_def info_value_def cache_gateway_def then_cache_def map_fst_def 1\<close>)
qed

lemma to_status_coherent:
  assumes s: "stable_service C port a" and c: "coherent a port platform c"
  shows "\<exists>c' w'. to_status C I key c w = (info_value C I platform a key, c', w') \<and> coherent a port platform c'"
proof (cases "key = IK_Gateway")
  case False
  obtain c1 w1 where 1: "cache_public_keys C c w = (an_keys a, c1, w1)" "coherent a port platform c1"
    using cache_public_keys_coherent [OF s c] by blast
  obtain c2 w2 where 2: "cache_region C c w = (an_region a, c2, w2)" "coherent a port platform c2"
    using cache_region_coherent [OF s c] by blast
  have p: "ic_platform c = platform" using c by (simp add: coherent_def)
  note unfold = to_status_def info_value_def cache_public_key_def cache_onboarding_key_def map_fst_def
  have m: "map_ok f (map_ok g r) = map_ok (\<lambda>x. f (g x)) r" "bind_r (map_ok g r) k = bind_r r (\<lambda>x. k (g x))"
    for f :: "pubkey \<Rightarrow> json" and g :: "pubkey \<times> pubkey \<Rightarrow> pubkey" and r and k :: "pubkey \<Rightarrow> json gw_result"
    by (cases r; simp)+
  from False show ?thesis
    by (cases key) (simp_all add: unfold 1 2 p c m)
qed (use to_status_gateway [OF s c] in simp)

lemma info_values_reference:
  assumes s: "stable_service C port a"
  shows "coherent a port platform c \<Longrightarrow>
    fst (info_values C I keys info c w) =
      map_ok (\<lambda>vs. info ++ map_of (rev (zip (map InfoKey_display keys) vs))) (mapM_r (info_value C I platform a) keys)"
proof (induction keys arbitrary: info c w)
  case (Cons key keys)
  obtain c1 w1 where 1: "to_status C I key c w = (info_value C I platform a key, c1, w1)"
    and c1: "coherent a port platform c1" using to_status_coherent [OF s Cons.prems] by blast
  note IH = Cons.IH [OF c1]
  show ?case
  proof (cases "info_value C I platform a key")
    case (Ok v)
    then show ?thesis
      using IH by (cases "mapM_r (info_value C I platform a) keys")
        (simp_all add: 1 then_cache_def map_add_upd_left map_add_assoc)
  qed (simp_all add: 1 then_cache_def)
qed simp

section \<open>Properties\<close>

text \<open>
  C29. The info command with its cache of answers prints what it would print if it asked the
  running service anew for every value, as long as the answers of the service do not change: the
  values of all requested keys, the last one for a repeated key, or the failure of the first key
  that fails. The keys on the command line, printed and separated by commas, are read back.
\<close>

theorem info_cache_equivalent:
  assumes "stable_service C (set_api settings) a"
  shows "fst (Info_run C I keys settings w) =
      bind_r (map_ok (\<lambda>vs. map_of (rev (zip (map InfoKey_display keys) vs)))
        (mapM_r (info_value C I (us_platform (set_update settings)) a) keys)) (print_json I) \<and>
    (keys \<noteq> [] \<longrightarrow> InfoKeys_from_str (print_keys keys) = Ok keys)"
proof
  have "coherent a (set_api settings) (us_platform (set_update settings))
      (InfoCache_new (us_platform (set_update settings)) (set_api settings))"
    by (simp add: coherent_def InfoCache_new_def)
  from info_values_reference [OF assms this, of I keys "\<lambda>_. None" w] show
    "fst (Info_run C I keys settings w) =
      bind_r (map_ok (\<lambda>vs. map_of (rev (zip (map InfoKey_display keys) vs)))
        (mapM_r (info_value C I (us_platform (set_update settings)) a) keys)) (print_json I)"
    by (simp add: Info_run_def case_prod_beta)
  show "keys \<noteq> [] \<longrightarrow> InfoKeys_from_str (print_keys keys) = Ok keys"
    using InfoKeys_print_parse by blast
qed

definition sample_info_ext :: info_ext where
  "sample_info_ext = \<lparr>ix_semver = sample_semver, ix_pubkey_string = (\<lambda>_. ''key''), ix_animal_name = Inr,
     ix_b64 = (\<lambda>_ _. ''b''), ix_pretty = (\<lambda>_. Inr ''json'')\<rparr>"

definition sample_settings :: "unit Settings" where
  "sample_settings = \<lparr>set_listen = default_listen, set_api = default_api, set_keypair = sample_keypair,
     set_onboarding = None, set_region = Region 0,
     set_log = \<lparr>log_level = Level (), log_method = Stdio, log_timestamp = False\<rparr>,
     set_update = \<lparr>us_enabled = True, us_interval = 10, us_channel = Alpha, us_platform = ''klkgw'', us_uri = ''u'',
        us_command = ''install''\<rparr>,
     set_routers = None, set_gateways = [], set_cache = \<lparr>max_packets_setting = 20\<rparr>, set_poc = sample_poc\<rparr>"

theorem info_cache_equivalent_witness:
  "fst (Info_run (client_of sample_api sample_server sample_regions) sample_info_ext [IK_Key, IK_Name] sample_settings ()) =
     Ok [Out ''json'']"
proof -
  let ?C = "client_of sample_api sample_server sample_regions"
  let ?p = "set_api sample_settings"
  define a where "a = \<lparr>an_keys = fst (with_client ?C ?p (lc_pubkey ?C) ()), an_height = fst (with_client ?C ?p (lc_height ?C) ()),
     an_region = fst (with_client ?C ?p (lc_region ?C) ())\<rparr>"
  have s: "stable_service ?C ?p a" by (simp add: stable_service_def a_def)
  have k: "an_keys a = Ok ([7], [7])"
    by (simp add: a_def with_client_def LocalClient_new_def lc_pubkey_def client_of_def ls_pubkey_def sample_server_def
        sample_api_def sample_codec_def sample_keypair_def)
  show ?thesis
    using info_cache_equivalent [OF s, of sample_info_ext "[IK_Key, IK_Name]" "()"]
    by (simp add: info_value_def k animal_name_def sample_info_ext_def print_json_def)
qed

end
