(* ===== verification/Program.thy ===== *)
theory Program
  imports Server_Runs Info
begin

text \<open>
  The program (\<^verbatim>\<open>src/main.rs\<close> and \<^verbatim>\<open>src/cmd\<close>): its command line as parsed, the choice of the
  logger, the watcher that triggers a shutdown, the commands, and the exit status. The server
  command runs the tasks of \<open>Server\<close>, which notice a shutdown only once it has been triggered.
  \<open>None\<close> is a program that has not ended yet.
\<close>

section \<open>The command line\<close>

datatype KeyCmd = Key_Info

datatype UpdateCmd = Update_List ListCmd | Update_Download DownloadCmd

record AddCmd =
  add_owner :: pubkey
  add_payer :: pubkey
  add_mode :: StakingMode

datatype Cmd =
    Cmd_Key KeyCmd
  | Cmd_Info "InfoKey list"
  | Cmd_Update UpdateCmd
  | Cmd_Server
  | Cmd_Add AddCmd

record Cli =
  cli_config :: string
  cli_daemon :: bool
  cli_stdin :: bool
  cli_cmd :: Cmd

text \<open>
  What the program uses of other crates and of the system. \<^verbatim>\<open>daemonize\<close> forks: it returns in the
  child only, or with an error, and ends the parent with status 0.
\<close>

datatype daemon_outcome = Daemon_parent | Daemon_child | Daemon_failed foreign

record ('w, 'l, 'n, 'r, 'g, 'd, 'b, 'c) program_ext =
  px_daemonize :: "string \<Rightarrow> 'w \<Rightarrow> daemon_outcome \<times> 'w"
  px_settings :: "('w, 'l) settings_ext"
  px_syslog :: "'w \<Rightarrow> (foreign + unit) \<times> 'w"
  px_log_init :: "'w \<Rightarrow> (foreign + unit) \<times> 'w"
  px_runtime :: "'w \<Rightarrow> (foreign + unit) \<times> 'w"
  px_debug :: "gw_error \<Rightarrow> string"
  px_client :: "'w client_ext"
  px_info :: info_ext
  px_server :: "('w, 'n, 'r, 'g, 'd, 'b, 'c) server_ext"

datatype p_output = PO_Print cli_output | PO_Server sv_output | PO_Log gw_error

section \<open>The logger\<close>

datatype 'l Logger = Syslog_logger 'l | Stdio_logger bool 'l

definition mk_logger ::
  "('w, 'l, 'n, 'r, 'g, 'd, 'b, 'c) program_ext \<Rightarrow> 'l Settings \<Rightarrow> 'w \<Rightarrow> (gw_error, 'l Logger) rresult \<times> 'w" where
  "mk_logger M settings w =
     (case log_method (set_log settings) of
        Syslog \<Rightarrow>
          (case px_syslog M w of
             (Inr _, w) \<Rightarrow> (Ok (Syslog_logger (level_of (log_level (set_log settings)))), w)
           | (Inl _, w) \<Rightarrow> (Panic, w))
      | Stdio \<Rightarrow>
          (Ok (Stdio_logger (log_timestamp (set_log settings)) (level_of (log_level (set_log settings)))), w))"

section \<open>The shutdown trigger\<close>

datatype watch_event = W_CtrlC "foreign + unit" | W_Read "foreign + nat"

text \<open>
  The watch ends with an interrupt and also when the handler for it cannot be installed: what
  \<^verbatim>\<open>ctrl_c()\<close> answers with is not looked at. Standard input is only read with the flag; its end is
  a read of no bytes.
\<close>

definition ends_watch :: "bool \<Rightarrow> watch_event \<Rightarrow> bool" where
  "ends_watch stdin ev =
     (case ev of
        W_CtrlC _ \<Rightarrow> True
      | W_Read (Inr n) \<Rightarrow> stdin \<and> n = 0
      | W_Read (Inl _) \<Rightarrow> False)"

text \<open>The moves in which a task finds the trigger pulled.\<close>

definition notices_input :: "run_input \<Rightarrow> bool" where
  "notices_input i \<longleftrightarrow>
     i \<in> {RU_Select SI_Triggered, RU_Select SI_Shutdown, RU_Select (SI_Proceed True), RU_Connected DI_Shutdown,
          RU_Wait WI_Triggered, RU_Wait WI_Shutdown}"

definition notices :: "sv_label \<Rightarrow> bool" where
  "notices l =
     (case l of
        L_GatewayShutdown \<Rightarrow> True
      | L_BeaconerShutdown \<Rightarrow> True
      | L_ApiShutdown \<Rightarrow> True
      | L_Updater ev \<Rightarrow> ev = UT_Shutdown
      | L_Dispatcher i \<Rightarrow> notices_input i
      | L_Client _ i \<Rightarrow> i = RI_Shutdown
      | _ \<Rightarrow> False)"

record ('w, 'g, 'd, 'b, 'c) process =
  pr_triggered :: bool
  pr_server :: "('w, 'g, 'd, 'b, 'c) server"

datatype p_label = P_Watch watch_event | P_Move sv_label

definition p_step ::
  "('w, 'n, 'r, 'g, 'd, 'b, 'c) server_ext \<Rightarrow> bool \<Rightarrow> p_label \<Rightarrow> ('w, 'g, 'd, 'b, 'c) process \<Rightarrow>
   (('w, 'g, 'd, 'b, 'c) process \<times> sv_output list) option" where
  "p_step X stdin l p =
     (case l of
        P_Watch ev \<Rightarrow> if pr_triggered p then None else Some (p\<lparr>pr_triggered := ends_watch stdin ev\<rparr>, [])
      | P_Move l \<Rightarrow>
          if notices l \<and> \<not> pr_triggered p then None
          else map_option (\<lambda>(s, out). (p\<lparr>pr_server := s\<rparr>, out)) (sv_step X l (pr_server p)))"

primrec p_run ::
  "('w, 'n, 'r, 'g, 'd, 'b, 'c) server_ext \<Rightarrow> bool \<Rightarrow> p_label list \<Rightarrow> ('w, 'g, 'd, 'b, 'c) process \<Rightarrow>
   (('w, 'g, 'd, 'b, 'c) process \<times> sv_output list) option" where
  "p_run X stdin [] p = Some (p, [])"
| "p_run X stdin (l # ls) p =
     (case p_step X stdin l p of
        None \<Rightarrow> None
      | Some (p, out) \<Rightarrow> map_option (\<lambda>(p, out'). (p, out @ out')) (p_run X stdin ls p))"

section \<open>The commands\<close>

definition Key_run ::
  "'w client_ext \<Rightarrow> info_ext \<Rightarrow> KeyCmd \<Rightarrow> 'l Settings \<Rightarrow> 'w \<Rightarrow> cli_output list gw_result \<times> 'w" where
  "Key_run C I cmd settings w = (case cmd of Key_Info \<Rightarrow> Key_info_run C I settings w)"

definition Update_run ::
  "'w updater_ext \<Rightarrow> (gw_error \<Rightarrow> string) \<Rightarrow> UpdateCmd \<Rightarrow> UpdateSettings \<Rightarrow> 'w \<Rightarrow>
     (unit gw_result \<times> cli_output list \<times> 'w) option" where
  "Update_run U debug cmd s w =
     (case cmd of
        Update_List cmd \<Rightarrow> List_run U cmd s w
      | Update_Download cmd \<Rightarrow> Download_run U debug cmd s w)"

definition Server_run ::
  "('w, 'n, 'r, 'g, 'd, 'b, 'c) server_ext \<Rightarrow> bool \<Rightarrow> p_label list \<Rightarrow> 'l Settings \<Rightarrow> 'w \<Rightarrow>
     (unit gw_result \<times> sv_output list \<times> 'w) option" where
  "Server_run X stdin ls settings w =
     (case server_start X settings w of
        (Ok s, w) \<Rightarrow>
          (case p_run X stdin ls \<lparr>pr_triggered = False, pr_server = s\<rparr> of
             None \<Rightarrow> None
           | Some (p, out) \<Rightarrow>
               map_option (\<lambda>r. (r, out, sv_world (pr_server p))) (sv_result (pr_server p)))
      | (Err e, w) \<Rightarrow> Some (Err e, [], w)
      | (Panic, w) \<Rightarrow> Some (Panic, [], w))"

definition printed :: "cli_output list gw_result \<times> 'w \<Rightarrow> (unit gw_result \<times> p_output list \<times> 'w) option" where
  "printed = (\<lambda>(r, w). Some (map_ok (\<lambda>_. ()) r, (case r of Ok out \<Rightarrow> map PO_Print out | _ \<Rightarrow> []), w))"

definition run ::
  "('w, 'l, 'n, 'r, 'g, 'd, 'b, 'c) program_ext \<Rightarrow> Cli \<Rightarrow> 'l Settings \<Rightarrow> p_label list \<Rightarrow> 'w \<Rightarrow>
     (unit gw_result \<times> p_output list \<times> 'w) option" where
  "run M cli settings ls w =
     (case cli_cmd cli of
        Cmd_Key cmd \<Rightarrow> printed (Key_run (px_client M) (px_info M) cmd settings w)
      | Cmd_Info keys \<Rightarrow> printed (Info_run (px_client M) (px_info M) keys settings w)
      | Cmd_Update cmd \<Rightarrow>
          map_option (\<lambda>(r, out, w). (r, map PO_Print out, w))
            (Update_run (sx_updater (px_server M)) (px_debug M) cmd (set_update settings) w)
      | Cmd_Add cmd \<Rightarrow>
          printed (Add_run (px_client M) (px_info M) (add_owner cmd) (add_payer cmd) (add_mode cmd) settings w)
      | Cmd_Server \<Rightarrow>
          map_option (\<lambda>(r, out, w). (r, map PO_Server out, w))
            (Server_run (px_server M) (cli_stdin cli) ls settings w))"

section \<open>The program\<close>

datatype exit_status = Exited nat | Aborted

fun exit_of :: "unit gw_result \<times> p_output list \<times> 'w \<Rightarrow> exit_status \<times> p_output list \<times> 'w" where
  "exit_of (Err e, out, w) = (Exited 1, out @ [PO_Log e], w)"
| "exit_of (Ok _, out, w) = (Exited 0, out, w)"
| "exit_of (Panic, out, w) = (Aborted, out, w)"

text \<open>The part of \<^verbatim>\<open>main\<close> after the settings are loaded.\<close>

definition main_with ::
  "('w, 'l, 'n, 'r, 'g, 'd, 'b, 'c) program_ext \<Rightarrow> Cli \<Rightarrow> 'l Settings \<Rightarrow> p_label list \<Rightarrow> 'w \<Rightarrow>
     (exit_status \<times> p_output list \<times> 'w) option" where
  "main_with M cli settings ls w =
     (case mk_logger M settings w of
        (Ok _, w) \<Rightarrow>
          (case px_log_init M w of
             (Inr _, w) \<Rightarrow>
               (case px_runtime M w of
                  (Inr _, w) \<Rightarrow> map_option exit_of (run M cli settings ls w)
                | (Inl _, w) \<Rightarrow> Some (Aborted, [], w))
           | (Inl _, w) \<Rightarrow> Some (Aborted, [], w))
      | (_, w) \<Rightarrow> Some (Aborted, [], w))"

definition main ::
  "('w, 'l, 'n, 'r, 'g, 'd, 'b, 'c) program_ext \<Rightarrow> Cli \<Rightarrow> p_label list \<Rightarrow> 'w \<Rightarrow>
     (exit_status \<times> p_output list \<times> 'w) option" where
  "main M cli ls w =
     (let (started, w) =
        (if cli_daemon cli then px_daemonize M ''/var/run/helium_gateway.pid'' w else (Daemon_child, w))
      in case started of
           Daemon_parent \<Rightarrow> Some (Exited 0, [], w)
         | Daemon_failed _ \<Rightarrow> Some (Aborted, [], w)
         | Daemon_child \<Rightarrow>
             (case Settings_new (px_settings M) (cli_config cli) w of
                (Ok settings, w) \<Rightarrow> main_with M cli settings ls w
              | (Err e, w) \<Rightarrow> Some (Exited 1, [PO_Print (Err_out (''Error: '' @ px_debug M e))], w)
              | (Panic, w) \<Rightarrow> Some (Aborted, [], w)))"

interpretation process: labelled_runs "p_step X stdin" "p_run X stdin" for X stdin
  by unfold_locales simp_all

section \<open>Why the server ends\<close>

definition failure :: "('w, 'n, 'r, 'g, 'd, 'b, 'c) server_ext \<Rightarrow> Updater \<Rightarrow> sv_label set \<Rightarrow> gw_error \<Rightarrow> bool" where
  "failure X u L e \<longleftrightarrow>
     (\<exists>f. L_ApiFailed f \<in> L \<and> e = Error_Service (SE_Service f)) \<or>
     (up_enabled u \<and> L_Updater UT_Tick \<in> L \<and> (\<exists>w w'. updater_tick (sx_updater X) u w = Some (Some (Err e), w'))) \<or>
     e = error_custom ''empty uri list''"

lemma handle_routing_update_no_Err: "handle_routing_update X d resp \<noteq> Err e"
  using update_routings_panic
  by (auto simp: handle_routing_update_def Let_def bind_r_Err_iff split: rresult.splits)

lemma run_with_gateway_step_no_Err: "run_with_gateway_step H X g d i w \<noteq> (Some (Err e), d', w', eff)"
  by (auto simp: run_with_gateway_step_def handle_routing_update_no_Err
      split: d_input.splits option.splits rresult.splits gateway_stream.splits prod.splits)

lemma select_seed_Err: "select_seed X us w = (Err e, w') \<Longrightarrow> e = error_custom ''empty uri list''"
  by (auto simp: select_seed_def GatewayService_new_def ok_or_def bind_r_Err_iff split: prod.splits option.splits)

lemma d_step_Err: "d_step H X B ph d i w = (Ph_Done (Err e), d', w', eff) \<Longrightarrow> (\<And>r. ph \<noteq> Ph_Done r) \<Longrightarrow> e = error_custom ''empty uri list''"
  using run_with_gateway_step_no_Err [of H X _ d _ w e]
  by (auto simp: d_step_def select_step_def Let_def
      split: d_phase.splits run_input.splits select_input.splits rresult.splits prod.splits option.splits
      dest: select_seed_Err)


lemma finish_result:
  "sv_result (finish t r s) = Some (Err e) \<longleftrightarrow> (case r of Ok _ \<Rightarrow> sv_result s = Some (Err e) \<and> \<not> all_tasks \<subseteq> insert t (sv_returned s) | _ \<Rightarrow> r = Err e)"
  "sv_returned (finish t r s) = (case r of Ok _ \<Rightarrow> insert t (sv_returned s) | _ \<Rightarrow> sv_returned s)"
  "sv_result s = None \<Longrightarrow> sv_result (finish t r s) = Some (Ok ()) \<Longrightarrow> all_tasks \<subseteq> sv_returned (finish t r s)"
  "sv_updater (finish t r s) = sv_updater s"
  by (auto simp: finish_def Let_def split: rresult.splits if_splits)

text \<open>What a move does to the result of the server and to the tasks that have returned.\<close>

definition ending :: "('w, 'n, 'r, 'g, 'd, 'b, 'c) server_ext \<Rightarrow> sv_label \<Rightarrow> ('w, 'g, 'd, 'b, 'c) server \<Rightarrow>
    ('w, 'g, 'd, 'b, 'c) server \<Rightarrow> bool" where
  "ending X l s s' \<longleftrightarrow> sv_updater s' = sv_updater s \<and>
     (\<forall>e. sv_result s' = Some (Err e) \<longrightarrow> failure X (sv_updater s) {l} e) \<and>
     (sv_result s' = Some (Ok ()) \<longrightarrow> all_tasks \<subseteq> sv_returned s') \<and>
     (T_Beaconer \<in> sv_returned s' \<longrightarrow> T_Beaconer \<in> sv_returned s \<or> l = L_BeaconerShutdown)"

lemma ending_frame:
  "sv_updater s' = sv_updater s \<Longrightarrow> sv_result s' = None \<Longrightarrow> sv_returned s' = sv_returned s \<Longrightarrow> ending X l s s'"
  by (simp add: ending_def)

lemma ending_crash: "ending X l s0 s \<Longrightarrow> ending X l s0 (crash s)"
  by (simp add: ending_def crash_def)

lemma ending_panic [simp]: "ending X l s (crash s)"
  by (simp add: ending_def crash_def)

lemma ending_finish:
  assumes "sv_result s = None" "sv_updater s = sv_updater s0" "sv_returned s = sv_returned s0"
    and "t = T_Beaconer \<Longrightarrow> l = L_BeaconerShutdown" and "\<And>e. r = Err e \<Longrightarrow> failure X (sv_updater s0) {l} e"
  shows "ending X l s0 (finish t r s)"
  using assms finish_result(3) [OF assms(1), of t r]
  by (auto simp: ending_def finish_result split: rresult.splits)

definition same_end :: "('w, 'g, 'd, 'b, 'c) server \<Rightarrow> ('w, 'g, 'd, 'b, 'c) server \<Rightarrow> bool" where
  "same_end s s' \<longleftrightarrow> sv_updater s' = sv_updater s \<and> sv_result s' = None \<and> sv_returned s' = sv_returned s"

lemma ending_same: "same_end s s' \<Longrightarrow> ending X l s s'"
  by (simp add: same_end_def ending_def)

lemma ending_finish_same:
  "same_end s0 s \<Longrightarrow> (t = T_Beaconer \<Longrightarrow> l = L_BeaconerShutdown) \<Longrightarrow>
   (\<And>e. r = Err e \<Longrightarrow> failure X (sv_updater s0) {l} e) \<Longrightarrow> ending X l s0 (finish t r s)"
  by (rule ending_finish) (simp_all add: same_end_def)

lemma gateway_input_ending:
  assumes "same_end s s1"
  shows "ending X l s (gateway_input X i s1)"
proof (cases "g_step (sx_udp X) (sv_gateway s1) i (sv_world s1)")
  case (Inl r)
  then have "r \<noteq> Err e" for e by (auto simp: g_step_def split: gw_input.splits option.splits)
  with Inl assms show ?thesis by (auto simp: gateway_input_def intro: ending_finish_same)
next
  case (Inr x)
  with assms show ?thesis by (cases x) (simp add: gateway_input_def ending_same same_end_def)
qed

lemma beaconer_input_ending:
  assumes "same_end s s1" and "ev = BT_Shutdown \<Longrightarrow> l = L_BeaconerShutdown"
  shows "ending X l s (beaconer_input X ev s1)"
proof (cases "ev = BT_Shutdown")
  case True
  with assms show ?thesis by (auto simp: beaconer_input_def intro: ending_finish_same)
next
  case False
  with assms(1) show ?thesis
    by (auto simp: beaconer_input_def ending_same same_end_def intro!: ending_crash simp del: bc_step.simps split: option.splits)
qed

lemma dispatcher_input_ending:
  assumes "same_end s s1" and "sv_phase s1 = sv_phase s" and "tasks_ok s" and "dispatcher_ready s"
  shows "ending X l s (dispatcher_input X i s1)"
proof -
  obtain ph d w eff where st: "d_step (sx_hash X) (sx_validator X) (gateway_backoff X) (sv_phase s1) (sv_dispatcher s1) i
      (sv_world s1) = (ph, d, w, eff)" by (metis prod_cases4)
  let ?s = "s1\<lparr>sv_phase := ph, sv_dispatcher := d, sv_world := w, dispatcher_out := eff\<rparr>"
  have e: "same_end s ?s" using assms(1) by (simp add: same_end_def)
  have "sv_phase s1 \<noteq> Ph_Done r" for r using assms by (auto simp: tasks_ok_def dispatcher_ready_def)
  then have "failure X (sv_updater s) {l} err" if "ph = Ph_Done (Err err)" for err
    using d_step_Err [OF st [unfolded that]] by (simp add: failure_def)
  with e show ?thesis
    by (cases ph) (auto simp: dispatcher_input_def st ending_same intro: ending_finish_same)
qed

lemma client_input_ending:
  assumes "same_end s s1"
  shows "ending X l s (client_input X ch c i s1)"
  using assms
  by (auto simp: client_input_def ending_same same_end_def split: prod.splits loop_state.splits rresult.splits intro!: ending_crash)

lemma updater_input_ending:
  assumes "sv_result s = None" and "updater_input X ev s = Some s'"
  shows "ending X (L_Updater ev) s s'"
proof -
  have e: "same_end s (s\<lparr>sv_world := w\<rparr>)" for w using assms(1) by (simp add: same_end_def)
  have r: "failure X (sv_updater s) {L_Updater ev} err"
    if "updater_run (sx_updater X) (sv_updater s) [ev] w = Some (Some (Err err), w')" for w w' err
    using that by (cases ev) (auto 0 4 simp: updater_run_def failure_def split: if_splits option.splits)
  show ?thesis
    using assms(2) r
    by (auto simp: updater_input_def ending_same [OF e] split: option.splits intro!: ending_finish_same [OF e])
qed

lemma do_same_end:
  "gateway_do X ge s = Some (s', out) \<Longrightarrow> sv_result s = None \<Longrightarrow> same_end s s'"
  "beaconer_do X be s = Some (s', out) \<Longrightarrow> sv_result s = None \<Longrightarrow> same_end s s'"
  "dispatcher_do X de s = Some (s', out) \<Longrightarrow> sv_result s = None \<Longrightarrow> same_end s s'"
  "client_do X ch ce s = Some (s', out) \<Longrightarrow> sv_result s = None \<Longrightarrow> same_end s s'"
  by (auto simp: do_defs same_end_def split: gw_effect.splits beaconer_effect.splits effect.splits rc_event.splits option.splits)

lemma step_ending:
  assumes "sv_step X l s = Some (s', out)" and "tasks_ok s"
  shows "ending X l s s'"
proof (cases l)
  case (L_Dispatcher i)
  with assms show ?thesis
    by (auto simp: sv_step_def same_end_def dispatcher_ready_def split: if_splits intro!: dispatcher_input_ending)
next
  case L_DispatcherMessage
  with assms show ?thesis
    by (auto simp: sv_step_def same_end_def dispatcher_ready_def split: if_splits option.splits intro!: dispatcher_input_ending)
next
  case (L_Updater ev)
  with assms show ?thesis
    by (auto simp: sv_step_def updater_ready_def split: if_splits intro: updater_input_ending)
next
  case L_GatewayEffect
  with assms(1) show ?thesis
    using do_same_end(1) [of X _ "s\<lparr>gateway_out := tl (gateway_out s)\<rparr>" s' out]
    by (auto simp: sv_step_def same_end_def split: if_splits list.splits intro!: ending_same)
next
  case L_BeaconerEffect
  with assms(1) show ?thesis
    using do_same_end(2) [of X _ "s\<lparr>beaconer_out := tl (beaconer_out s)\<rparr>" s' out]
    by (auto simp: sv_step_def same_end_def split: if_splits list.splits intro!: ending_same)
next
  case L_DispatcherEffect
  with assms(1) show ?thesis
    using do_same_end(3) [of X _ "s\<lparr>dispatcher_out := tl (dispatcher_out s)\<rparr>" s' out]
    by (auto simp: sv_step_def same_end_def split: if_splits list.splits intro!: ending_same)
next
  case (L_ClientEffect ch)
  with assms(1) show ?thesis
    using do_same_end(4) [of X ch _ "s\<lparr>client_out := (client_out s)(ch := tl (client_out s ch))\<rparr>" s' out]
    by (auto simp: sv_step_def same_end_def split: if_splits list.splits intro!: ending_same)
next
  case (L_ApiRequest m)
  with assms(1) show ?thesis by (auto simp: sv_step_def same_end_def split: if_splits intro!: ending_same)
next
  case (L_ApiReceive m)
  with assms(1) show ?thesis
    by (auto simp: sv_step_def same_end_def split: if_splits intro!: ending_same dest!: api_receive_frame)
next
  case (L_ApiGone n)
  with assms(1) show ?thesis by (auto simp: sv_step_def same_end_def split: if_splits intro!: ending_same)
qed (use assms in \<open>auto simp: sv_step_def gateway_ready_def beaconer_ready_def client_ready_def same_end_def failure_def
      split: if_splits option.splits
      intro!: gateway_input_ending beaconer_input_ending client_input_ending ending_finish_same\<close>)

text \<open>
  What a process that has made only moves of \<open>L\<close> has come to: its trigger was pulled by an event
  that ends the watch, its server returned without an error only after the trigger, and with one
  only for a reason of \<open>failure\<close>.
\<close>

definition told :: "bool \<Rightarrow> p_label set \<Rightarrow> bool" where
  "told stdin L \<longleftrightarrow> (\<exists>ev. P_Watch ev \<in> L \<and> ends_watch stdin ev)"

lemma ends_watch_iff: "ends_watch stdin ev \<longleftrightarrow> (\<exists>answer. ev = W_CtrlC answer) \<or> (stdin \<and> ev = W_Read (Inr 0))"
  by (cases ev) (auto simp: ends_watch_def split: sum.splits)

lemma told_iff:
  "told stdin L \<longleftrightarrow> (\<exists>answer. P_Watch (W_CtrlC answer) \<in> L) \<or> (stdin \<and> P_Watch (W_Read (Inr 0)) \<in> L)"
  by (auto simp: told_def ends_watch_iff)

definition process_ok ::
  "('w, 'n, 'r, 'g, 'd, 'b, 'c) server_ext \<Rightarrow> bool \<Rightarrow> Updater \<Rightarrow> p_label set \<Rightarrow> ('w, 'g, 'd, 'b, 'c) process \<Rightarrow> bool" where
  "process_ok X stdin u L p \<longleftrightarrow> tasks_ok (pr_server p) \<and> sv_updater (pr_server p) = u \<and>
     (pr_triggered p \<longrightarrow> told stdin L) \<and>
     (T_Beaconer \<in> sv_returned (pr_server p) \<longrightarrow> told stdin L) \<and>
     (sv_result (pr_server p) = Some (Ok ()) \<longrightarrow> T_Beaconer \<in> sv_returned (pr_server p)) \<and>
     (\<forall>e. sv_result (pr_server p) = Some (Err e) \<longrightarrow> failure X u {l. P_Move l \<in> L} e)"

lemma failure_mono: "failure X u L e \<Longrightarrow> L \<subseteq> L' \<Longrightarrow> failure X u L' e"
  by (auto simp: failure_def)

lemma p_step_ok:
  assumes "p_step X stdin l p = Some (p', out)" and "l \<in> L" and "process_ok X stdin u L p"
  shows "process_ok X stdin u L p'"
proof (cases l)
  case (P_Watch ev)
  with assms show ?thesis by (auto simp: p_step_def process_ok_def told_def split: if_splits)
next
  case (P_Move m)
  then obtain s' where s': "sv_step X m (pr_server p) = Some (s', out)" and p': "p' = p\<lparr>pr_server := s'\<rparr>"
    and n: "notices m \<longrightarrow> pr_triggered p"
    using assms(1) by (auto simp: p_step_def split: if_splits)
  have t: "tasks_ok (pr_server p)" using assms(3) by (simp add: process_ok_def)
  have "m = L_BeaconerShutdown \<Longrightarrow> notices m" by (simp add: notices_def)
  moreover have "T_Beaconer \<in> all_tasks" by (simp add: all_tasks_def)
  moreover have "failure X u {m} e \<Longrightarrow> failure X u {l. P_Move l \<in> L} e" for e
    using assms(2) P_Move by (auto elim: failure_mono)
  ultimately show ?thesis
    using step_ending [OF s' t] step_tasks [OF s' t] assms(3) n
    unfolding p' process_ok_def ending_def by auto
qed

interpretation ends: run_invariant "p_step X stdin" "p_run X stdin" "\<lambda>l. l \<in> L" "process_ok X stdin u L" "\<lambda>_. True" for X stdin L u
  by unfold_locales (auto simp: list_all_iff dest: p_step_ok)

interpretation timed: run_invariant "p_step X stdin" "p_run X stdin" "\<lambda>_. True" "\<lambda>p. timers_run (pr_server p)" "\<lambda>_. True" for X stdin
  by unfold_locales (auto simp: list_all_iff p_step_def dest: step_timers split: p_label.splits if_splits)

lemma server_start_Err:
  "server_start X settings w = (Err e, w') \<Longrightarrow> \<exists>f. sx_udp_bind X (set_listen settings) w = (Inl f, w') \<and> e = Error_Semtech f"
  by (auto simp: server_start_def Let_def Dispatcher_new_def Updater_new_def LocalServer_new_def
      split: sum.splits prod.splits)

lemma server_start_process:
  assumes "server_start X settings w = (Ok s, w')"
  shows "process_ok X stdin (sv_updater s) L \<lparr>pr_triggered = False, pr_server = s\<rparr> \<and> Updater_new (set_update settings) = Ok (sv_updater s)"
  using assms
  by (auto simp: process_ok_def tasks_ok_def all_tasks_def server_start_def Let_def Dispatcher_new_def Updater_new_def LocalServer_new_def
      split: sum.splits prod.splits)

lemma Server_run_ends:
  assumes "Server_run X stdin ls settings w = Some (r, out, w')"
  shows "(r = Ok () \<longrightarrow> told stdin (set ls)) \<and>
    (\<forall>e. r = Err e \<longrightarrow> (\<exists>f w0. sx_udp_bind X (set_listen settings) w = (Inl f, w0) \<and> e = Error_Semtech f) \<or>
       (\<exists>u. Updater_new (set_update settings) = Ok u \<and> failure X u {l. P_Move l \<in> set ls} e))"
proof (cases "server_start X settings w")
  case (Pair r0 w0)
  show ?thesis
  proof (cases r0)
    case (Ok s)
    then obtain p where p: "p_run X stdin ls \<lparr>pr_triggered = False, pr_server = s\<rparr> = Some (p, out)"
      "sv_result (pr_server p) = Some r"
      using assms Pair by (auto simp: Server_run_def split: option.splits)
    have s0: "process_ok X stdin (sv_updater s) (set ls) \<lparr>pr_triggered = False, pr_server = s\<rparr>"
      "Updater_new (set_update settings) = Ok (sv_updater s)"
      using server_start_process [of X settings w s w0] Pair Ok by simp_all
    have "process_ok X stdin (sv_updater s) (set ls) p"
      using ends.run_inv [OF p(1) _ s0(1)] by (simp add: list_all_iff)
    with p(2) s0(2) show ?thesis by (auto simp: process_ok_def)
  next
    case (Err e)
    with assms Pair server_start_Err [of X settings w e w0] show ?thesis by (auto simp: Server_run_def)
  next
    case Panic
    with assms Pair show ?thesis by (simp add: Server_run_def)
  qed
qed

lemma main_with_cases:
  assumes "main_with M cli settings ls w = Some (status, out, w')"
  shows "status = Aborted \<or> (\<exists>w3. run M cli settings ls w3 = Some (Ok (), out, w') \<and> status = Exited 0) \<or>
    (\<exists>w3 e out'. run M cli settings ls w3 = Some (Err e, out', w') \<and> status = Exited 1 \<and> out = out' @ [PO_Log e])"
proof (cases "status = Aborted")
  case False
  then obtain w3 r o3 w4 where "run M cli settings ls w3 = Some (r, o3, w4)" "exit_of (r, o3, w4) = (status, out, w')"
    using assms by (auto simp: main_with_def split: prod.splits sum.splits rresult.splits)
  with False show ?thesis by (cases r) auto
qed simp

text \<open>The ways out of \<^verbatim>\<open>main\<close>.\<close>

definition daemon_parent :: "('w, 'l, 'n, 'r, 'g, 'd, 'b, 'c) program_ext \<Rightarrow> Cli \<Rightarrow> 'w \<Rightarrow> bool" where
  "daemon_parent M cli w \<longleftrightarrow>
     cli_daemon cli \<and> fst (px_daemonize M ''/var/run/helium_gateway.pid'' w) = Daemon_parent"

lemma main_cases:
  assumes "main M cli ls w = Some (status, out, w')"
  obtains "status = Aborted"
  | "daemon_parent M cli w" "status = Exited 0" "out = []"
  | e w1 w2 where "Settings_new (px_settings M) (cli_config cli) w1 = (Err e, w2)" "status = Exited 1"
      "out = [PO_Print (Err_out (''Error: '' @ px_debug M e))]"
  | settings w1 w2 w3 where "Settings_new (px_settings M) (cli_config cli) w1 = (Ok settings, w2)"
      "run M cli settings ls w3 = Some (Ok (), out, w')" "status = Exited 0"
  | settings w1 w2 w3 e out' where "Settings_new (px_settings M) (cli_config cli) w1 = (Ok settings, w2)"
      "run M cli settings ls w3 = Some (Err e, out', w')" "status = Exited 1" "out = out' @ [PO_Log e]"
proof -
  obtain r w1 where st: "(if cli_daemon cli then px_daemonize M ''/var/run/helium_gateway.pid'' w else (Daemon_child, w)) = (r, w1)"
    by fastforce
  obtain r2 w2 where se: "Settings_new (px_settings M) (cli_config cli) w1 = (r2, w2)" by fastforce
  show thesis
  proof (cases "\<exists>settings. r2 = Ok settings \<and> r = Daemon_child")
    case True
    then obtain settings where s: "r2 = Ok settings" "r = Daemon_child" by blast
    with assms st se have m: "main_with M cli settings ls w2 = Some (status, out, w')" by (simp add: main_def Let_def)
    show thesis
      using main_with_cases [OF m] that(1) that(4) [OF se [unfolded s(1)]] that(5) [OF se [unfolded s(1)]] by blast
  next
    case False
    with assms st se that(1,2) that(3) [of w1] show thesis
      by (cases r; cases r2) (auto simp: main_def Let_def daemon_parent_def split: if_splits)
  qed
qed

section \<open>Ending the server\<close>

lemma p_run_moves:
  "sv_run X ms (pr_server p) = Some (s', out) \<Longrightarrow> pr_triggered p \<or> list_all (\<lambda>m. \<not> notices m) ms \<Longrightarrow>
   p_run X stdin (map P_Move ms) p = Some (p\<lparr>pr_server := s'\<rparr>, out)"
proof (induction ms arbitrary: p out)
  case (Cons m ms)
  from Cons.prems(1) obtain s1 o1 o2 where "sv_step X m (pr_server p) = Some (s1, o1)" "sv_run X ms s1 = Some (s', o2)" "out = o1 @ o2"
    by (rule sv.run_ConsE)
  with Cons.IH [of "p\<lparr>pr_server := s1\<rparr>" o2] Cons.prems(2) show ?case by (auto simp: p_step_def)
qed simp

lemma process_shuts_down:
  assumes "process_ok X stdin u L p" and "\<not> pr_triggered p" and "ends_watch stdin ev"
    and "sv_result (pr_server p) = None" and "beaconer_out (pr_server p) = []" and "gateway_out (pr_server p) = []"
    and "dispatcher_out (pr_server p) = []" and "api_flight (pr_server p) = {}" and "timers_run (pr_server p)"
  shows "\<exists>ms p'. set ms \<subseteq> shutdown_labels \<and> p_run X stdin (P_Watch ev # map P_Move ms) p = Some (p', []) \<and>
    sv_result (pr_server p') = Some (Ok ())"
proof -
  have "orderly (pr_server p)" using assms by (auto simp: process_ok_def orderly_def tasks_ok_def)
  from orderly_shutdown [OF this, of X] obtain ms s' where m: "set ms \<subseteq> shutdown_labels"
    "sv_run X ms (pr_server p) = Some (s', [])" "sv_result s' = Some (Ok ())" by blast
  have "p_run X stdin (map P_Move ms) (p\<lparr>pr_triggered := True\<rparr>) = Some (p\<lparr>pr_triggered := True, pr_server := s'\<rparr>, [])"
    using p_run_moves [of X ms "p\<lparr>pr_triggered := True\<rparr>"] m(2) by simp
  moreover have "p_step X stdin (P_Watch ev) p = Some (p\<lparr>pr_triggered := True\<rparr>, [])"
    using assms(2,3) by (simp add: p_step_def)
  ultimately show ?thesis
    using m by (intro exI [of _ ms] exI [of _ "p\<lparr>pr_triggered := True, pr_server := s'\<rparr>"]) simp
qed

end
