(* ===== verification/Server_Panics.thy ===== *)
theory Server_Panics
  imports Server_Radio Program
begin

text \<open>
  What can make the running server panic, which ends the process: a malformed routing entry, a
  router's answer with a data rate that does not parse, an installer that fails with output that is
  not UTF-8, or a beacon or update interval that no timer can be made with. No other task panics,
  whatever it is given.
\<close>

section \<open>The tasks\<close>

text \<open>An answer whose transmission panics: one of its windows has a data rate that does not parse.\<close>

definition unsendable :: "radio_codec \<Rightarrow> Packet \<Rightarrow> bool" where
  "unsendable R d \<longleftrightarrow> \<not> window_datarate_ok R (p_datarate d) \<or>
     (\<exists>rx2. p_rx2_window d = Some rx2 \<and> \<not> window_datarate_ok R (w_datarate rx2))"

lemma downlink_task_panics: "downlink_task U m d pw w = None \<Longrightarrow> unsendable (radio U) d"
  by (auto simp: downlink_task_def to_pull_resp_rx1 to_pull_resp_rx2 unsendable_def window_datarate_ok_def Let_def
      split: rresult.splits option.splits sum.splits prod.splits if_splits)

lemma beacon_to_pull_resp_panics:
  assumes "beacon_to_pull_resp R b pw = Panic"
  shows "\<not> window_datarate_ok R (proto_datarate_print R (b_datarate b))"
  using assms by (auto simp: beacon_to_pull_resp_def window_datarate_ok_def bind_r_Panic_iff unwrap_r_def foreign_r_def Let_def
      split: sum.splits)

lemma Beacon_new_datarate: "Beacon_new B re le ps = Ok b \<Longrightarrow> b_datarate b = Sf7bw125"
  by (auto simp: Beacon_new_def Let_def case_prod_beta bind_r_Ok_iff split: if_splits)

lemma g_step_panics:
  assumes "g_step U g i w = Inl Panic"
  shows "(\<exists>d. i = GI_Message (Some (GW_Downlink d)) \<and> unsendable (radio U) d) \<or>
    (\<exists>b. i = GI_Message (Some (GW_TransmitBeacon b)) \<and>
       \<not> window_datarate_ok (radio U) (proto_datarate_print (radio U) (b_datarate b)))"
proof (cases i)
  case (GI_Event ev)
  have "Packet_from_rxpk (radio U) rx \<noteq> Panic" for rx
    by (auto simp: Packet_from_rxpk_def Let_def bind_r_Panic_iff bind_r_Ok_iff)
  then have "handle_udp_event U g ev w \<noteq> None"
    by (auto simp: handle_udp_event_def split: udp_event.splits rresult.splits prod.splits)
  then show ?thesis using assms by (simp add: GI_Event g_step_def split: option.splits)
next
  case (GI_Message m)
  then show ?thesis
    using assms
    by (auto simp: g_step_def g_handle_message_def g_handle_downlink_def handle_transmit_beacon_def Let_def
        dest: downlink_task_panics beacon_to_pull_resp_panics
        split: option.splits gw_message.splits rresult.splits prod.splits)
qed (use assms in \<open>simp add: g_step_def\<close>)

lemma handle_routing_update_panics:
  assumes "handle_routing_update V d resp = Panic"
  shows "\<exists>ps p. gr_msg resp = Some (GM_RoutingStreamed ps) \<and> p \<in> set ps \<and> \<not> proto_ok p"
  using assms update_routings_panic
  by (auto simp: handle_routing_update_def response_routings_def Let_def bind_r_Panic_iff
      split: if_splits rresult.splits option.splits GwMsg.splits)

lemma validators_no_panic: "fst (validators V g n w) \<noteq> Panic"
proof -
  have "mapM_r (KeyedUri_from_address A) xs \<noteq> Panic" for A xs
    by (induction xs) (auto simp: KeyedUri_from_address_def bind_r_Panic_iff)
  then show ?thesis
    by (auto simp: validators_def verified_def GatewayResp_verify_def msg_verify_def bind_r_Panic_iff case_prod_beta Let_def
        split: option.splits GwMsg.splits)
qed

lemma select_gateway_no_panic: "select_gateway V g c w \<noteq> (Panic, w')"
  using validators_no_panic [of V g]
  by (auto simp: select_gateway_def random_new_def GatewayService_new_def ok_or_def bind_r_Panic_iff Let_def
      split: prod.splits rresult.splits option.splits) (metis fst_conv)

lemma setup_gateway_streams_no_panic: "setup_gateway_streams V d gw w \<noteq> (Panic, w')"
proof -
  have "Region_from_i32 G v \<noteq> Panic" for G v by (simp add: Region_from_i32_def split: option.splits)
  then have "response_region_params V r \<noteq> Panic" for r
    by (auto simp: response_region_params_def RegionParams_from_streamed_def RegionParams_from_resp_def bind_r_Panic_iff
        split: option.splits GwMsg.splits)
  then have "fst (region_params_for V g rg kp w) \<noteq> Panic" for g rg kp w
    by (auto simp: region_params_for_def bind_r_Panic_iff Let_def case_prod_beta split: rresult.splits)
  moreover have "fst (gs_routing V g h w) \<noteq> Panic" for g h w
    by (simp add: gs_routing_def Let_def case_prod_beta)
  moreover have "fst (gs_region_params V g kp w) \<noteq> Panic" for g kp w
    by (auto simp: gs_region_params_def Let_def case_prod_beta split: rresult.splits)
  ultimately show ?thesis
    by (auto simp: setup_gateway_streams_def bind_r_Panic_iff Let_def split: option.splits prod.splits rresult.splits)
      (metis fst_conv)+
qed

lemma select_seed_no_panic: "select_seed V us w \<noteq> (Panic, w')"
  by (auto simp: select_seed_def GatewayService_new_def ok_or_def bind_r_Panic_iff split: prod.splits option.splits)

lemma d_step_panics:
  assumes "d_step H V B ph d i w = (Ph_Done Panic, d', w', eff)" and "\<And>r. ph \<noteq> Ph_Done r"
  shows "\<exists>resp ps p. i = RU_Connected (DI_Stream (Some (GS_Routing, Ok resp))) \<and>
    gr_msg resp = Some (GM_RoutingStreamed ps) \<and> p \<in> set ps \<and> \<not> proto_ok p"
  using assms
  by (auto simp: d_step_def select_step_def run_with_gateway_step_def Let_def select_seed_no_panic select_gateway_no_panic
      setup_gateway_streams_no_panic
      split: d_phase.splits run_input.splits select_input.splits rresult.splits prod.splits option.splits d_input.splits
        gateway_stream.splits dest!: handle_routing_update_panics)

lemma rc_step_no_panic: "rc_step E c i w \<noteq> (Returned Panic, w', ev)"
proof -
  have "fst (rc_handle_uplink E c p t w) \<noteq> Panic" for p t
  proof -
    obtain r c1 w1 ev1 where s: "rc_handle_uplink E c p t w = (r, c1, w1, ev1)" by (metis prod_cases4)
    from send_waiting_packets_split [OF s [unfolded rc_handle_uplink_eq]] show ?thesis by (auto simp: s)
  qed
  then show ?thesis
    by (auto simp: rc_step_def Let_def split: rc_input.splits option.splits rc_message.splits prod.splits rresult.splits)
      (metis fst_conv)
qed

lemma fetch_releases_no_panic: "fst (fetch_releases Z url n w) \<noteq> Panic"
  by (simp add: fetch_releases_def Let_def curl_get_not_Panic bind_r_Panic_iff)

lemma stream_next_no_panic: "fst (stream_next Z st w) \<noteq> Some Panic"
  using fetch_releases_no_panic [of Z]
  by (cases st) (auto simp: unfold_next_def split: prod.splits rresult.splits option.splits, (metis fst_conv)+)

lemma filtered_next_found:
  assumes "filtered_next Z want st w = Some y"
  shows "fst y \<noteq> Some Panic \<and> (\<forall>x. fst y = Some (Ok x) \<longrightarrow> want x)"
proof (rule filtered_next.raw_induct [where P = "\<lambda>_ want _ _ y. fst y \<noteq> Some Panic \<and> (\<forall>x. fst y = Some (Ok x) \<longrightarrow> want x)",
    OF _ assms])
  fix f :: "'a releases_ext \<Rightarrow> (Release \<Rightarrow> bool) \<Rightarrow> release_stream \<Rightarrow> 'a \<Rightarrow>
      (Release gw_result option \<times> release_stream \<times> 'a) option"
    and Z want st w y
  assume IH: "\<And>Z want st w y. f Z want st w = Some y \<Longrightarrow> fst y \<noteq> Some Panic \<and> (\<forall>x. fst y = Some (Ok x) \<longrightarrow> want x)"
    and y: "(case stream_next Z st w of
        (None, st, w) \<Rightarrow> Some (None, st, w)
      | (Some (Ok r), st, w) \<Rightarrow> if want r then Some (Some (Ok r), st, w) else f Z want st w
      | (Some (Err e), st, w) \<Rightarrow> f Z want st w
      | (Some Panic, st, w) \<Rightarrow> Some (Some Panic, st, w)) = Some y"
  obtain r st1 w1 where n: "stream_next Z st w = (r, st1, w1)" by (metis prod_cases3)
  then have "r \<noteq> Some Panic" using stream_next_no_panic [of Z st w] by simp
  with y [unfolded n] IH [of Z want st1 w1 y] show "fst y \<noteq> Some Panic \<and> (\<forall>x. fst y = Some (Ok x) \<longrightarrow> want x)"
    by (auto split: option.splits rresult.splits if_splits)
qed

lemma updater_tick_panics:
  assumes "updater_tick U u w = Some (Some Panic, w')"
  shows "\<exists>asset w1. installer_garbles U u asset w1"
proof -
  let ?want = "wanted (ux_semver U) (ux_version U) (up_channel u) (up_platform u)"
  obtain r st w1 where f: "filtered_next (ux_releases U) ?want (all_releases (up_uri u)) w = Some (r, st, w1)"
    using assms by (auto simp: updater_tick_def split: option.splits)
  note found = filtered_next_found [OF f, simplified]
  with f assms obtain x where x: "r = Some (Ok x)" by (auto simp: updater_tick_def split: option.splits rresult.splits)
  with found obtain asset where a: "asset_for_platform (ux_semver U) x (up_platform u) = Some asset"
    by (auto simp: wanted_def)
  have "fst (install_package U u asset w1) = Panic"
    using assms by (auto simp: updater_tick_def f x a install_package_def Let_def split: prod.splits rresult.splits)
  then have "installer_garbles U u asset w1" by (simp only: install_package_Panic)
  then show ?thesis by blast
qed

lemma updater_input_panics:
  assumes "updater_input X ev s = Some s'" and "sv_result s = None" and "sv_result s' = Some Panic" and "timers_run s"
  shows "ev = UT_Tick \<and> up_enabled (sv_updater s) \<and> (\<exists>asset w. installer_garbles (sx_updater X) (sv_updater s) asset w)"
proof -
  obtain w' where "updater_run (sx_updater X) (sv_updater s) [ev] (sv_world s) = Some (Some Panic, w')"
    using assms by (auto simp: updater_input_def finish_def Let_def split: option.splits rresult.splits if_splits)
  with assms(4) show ?thesis
    by (cases ev) (auto simp: updater_run_def timers_run_def dest!: updater_tick_panics split: if_splits option.splits)
qed

section \<open>The server\<close>

text \<open>Why the process was aborted, after the moves \<open>L\<close>.\<close>

definition abort_cause ::
  "('w, 'n, 'r, 'g, 'd, 'b, 'c) server_ext \<Rightarrow> Keypair \<Rightarrow> Packet set \<Rightarrow> Updater \<Rightarrow> sv_label set \<Rightarrow> bool" where
  "abort_cause X kp ups u L \<longleftrightarrow>
     (\<exists>resp ps p. L_Dispatcher (RU_Connected (DI_Stream (Some (GS_Routing, Ok resp)))) \<in> L \<and>
        gr_msg resp = Some (GM_RoutingStreamed ps) \<and> p \<in> set ps \<and> \<not> proto_ok p) \<or>
     (\<exists>d. answer_from X kp ups d \<and> unsendable (radio (sx_udp X)) d) \<or>
     (L_Updater UT_Tick \<in> L \<and> up_enabled u \<and> (\<exists>asset w. installer_garbles (sx_updater X) u asset w))"

text \<open>What the generator and the radio have to do for beacons never to panic.\<close>

definition beacons_safe :: "('w, 'n, 'r, 'g, 'd, 'b, 'c) server_ext \<Rightarrow> bool" where
  "beacons_safe X \<longleftrightarrow> beacon_ext_ok (bx_beacon (sx_beaconer X)) \<and>
     window_datarate_ok (radio (sx_udp X)) (proto_datarate_print (radio (sx_udp X)) Sf7bw125)"

lemma finish_panics: "sv_result s = None \<Longrightarrow> sv_result (finish t r s) = Some Panic \<longleftrightarrow> r = Panic"
  by (auto simp: finish_def Let_def split: rresult.splits)

lemma gateway_message_panics:
  assumes "sv_result (gateway_input X i s) = Some Panic" and "sv_result s = None" and "beacons_safe X"
    and "\<And>m. i = GI_Message (Some m) \<Longrightarrow> gw_message_tx X kp ups regs m"
  shows "abort_cause X kp ups u L"
proof -
  have p: "g_step (sx_udp X) (sv_gateway s) i (sv_world s) = Inl Panic"
    using assms(1,2) by (auto simp: gateway_input_def finish_panics split: sum.splits prod.splits)
  from g_step_panics [OF p] show ?thesis
  proof (elim disjE exE conjE)
    fix b assume "i = GI_Message (Some (GW_TransmitBeacon b))"
      "\<not> window_datarate_ok (radio (sx_udp X)) (proto_datarate_print (radio (sx_udp X)) (b_datarate b))"
    with assms(3) assms(4) [of "GW_TransmitBeacon b"] show ?thesis
      by (auto simp: gw_message_tx_def beacon_from_def beacons_safe_def dest!: Beacon_new_datarate)
  next
    fix d assume "i = GI_Message (Some (GW_Downlink d))" "unsendable (radio (sx_udp X)) d"
    with assms(4) [of "GW_Downlink d"] show ?thesis by (auto simp: gw_message_tx_def abort_cause_def)
  qed
qed

lemma beaconer_input_no_panic:
  assumes "sv_result s = None" and "beacons_safe X"
  shows "sv_result (beaconer_input X ev s) \<noteq> Some Panic"
proof (cases "ev = BT_Shutdown")
  case False
  obtain b w eff where "bc_step (sx_beaconer X) (sv_beaconer s) ev (sv_world s) = Some (b, w, eff)"
    using bc_step_total [of "sx_beaconer X" "sv_beaconer s" ev "sv_world s"] assms(2)
    by (auto simp: beacons_safe_def simp del: bc_step.simps)
  with False assms(1) show ?thesis by (simp add: beaconer_input_def del: bc_step.simps)
qed (use assms in \<open>simp add: beaconer_input_def finish_panics\<close>)

lemma client_input_no_panic:
  "sv_result s = None \<Longrightarrow> sv_result (client_input X ch c i s) \<noteq> Some Panic"
  by (auto simp: client_input_def rc_step_no_panic split: prod.splits loop_state.splits rresult.splits)

lemma dispatcher_input_panics:
  assumes "sv_result (dispatcher_input X i s) = Some Panic" and "sv_result s = None" and "\<And>r. sv_phase s \<noteq> Ph_Done r"
  shows "\<exists>resp ps p. i = RU_Connected (DI_Stream (Some (GS_Routing, Ok resp))) \<and>
    gr_msg resp = Some (GM_RoutingStreamed ps) \<and> p \<in> set ps \<and> \<not> proto_ok p"
proof -
  obtain ph d w eff where st:
    "d_step (sx_hash X) (sx_validator X) (gateway_backoff X) (sv_phase s) (sv_dispatcher s) i (sv_world s) = (ph, d, w, eff)"
    by (metis prod_cases4)
  have "ph = Ph_Done Panic"
    using assms(1,2) by (cases ph) (simp_all add: dispatcher_input_def st finish_panics)
  from d_step_panics [OF st [unfolded this] assms(3)] show ?thesis .
qed

lemma step_panics:
  assumes "sv_step X l s = Some (s', out)" and "channels_ok X" and "beacons_safe X" and "radio_ok X kp ups regs macs s"
    and "tasks_ok s" and "sv_result s' = Some Panic" and "l \<in> L" and "timers_run s"
  shows "abort_cause X kp ups (sv_updater s) L"
proof (cases l)
  case L_GatewayMessage
  then obtain m q where r: "mp_recv (sx_gateway_ch X) (gateway_q s) = Some (m, q)" and n: "sv_result s = None"
    and s': "s' = gateway_input X (GI_Message (Some m)) (s\<lparr>gateway_q := q\<rparr>)"
    using assms(1) by (auto simp: sv_step_def gateway_ready_def split: if_splits)
  show ?thesis
    using gateway_message_panics [OF assms(6) [unfolded s'] _ assms(3), where kp = kp and ups = ups and regs = regs] recv_tx(1) [OF assms(4,2) r] n by simp
next
  case (L_Dispatcher i)
  then have n: "dispatcher_ready s" and s': "s' = dispatcher_input X i s"
    using assms(1) by (auto simp: sv_step_def split: if_splits)
  then have "sv_phase s \<noteq> Ph_Done r" for r using assms(5) by (auto simp: tasks_ok_def dispatcher_ready_def)
  with dispatcher_input_panics [of X i s] n assms(6,7) show ?thesis
    by (auto simp: s' L_Dispatcher dispatcher_ready_def abort_cause_def)
next
  case L_DispatcherMessage
  then obtain m q i where n: "dispatcher_ready s" "message_input (sv_phase s) m = Some i"
    and s': "s' = dispatcher_input X i (s\<lparr>dispatcher_q := q\<rparr>)"
    using assms(1) by (auto simp: sv_step_def split: if_splits option.splits)
  then have "sv_phase s \<noteq> Ph_Done r" for r using assms(5) by (auto simp: tasks_ok_def dispatcher_ready_def)
  with dispatcher_input_panics [of X i "s\<lparr>dispatcher_q := q\<rparr>"] n assms(6) show ?thesis
    by (auto simp: s' dispatcher_ready_def message_input_def split: d_phase.splits)
next
  case (L_Updater ev)
  then have "updater_input X ev s = Some s'" "sv_result s = None"
    using assms(1) by (auto simp: sv_step_def updater_ready_def split: if_splits)
  from updater_input_panics [OF this assms(6,8)] assms(7) show ?thesis by (auto simp: L_Updater abort_cause_def)
next
  case (L_Udp ev)
  then show ?thesis
    using assms gateway_message_panics [of X "GI_Event ev" s kp ups regs "sv_updater s" L]
    by (auto simp: sv_step_def gateway_ready_def split: if_splits)
next
  case L_GatewayShutdown
  then show ?thesis
    using assms gateway_message_panics [of X GI_Shutdown s kp ups regs "sv_updater s" L]
    by (auto simp: sv_step_def gateway_ready_def split: if_splits)
next
  case (L_ApiReceive m)
  then show ?thesis using assms(1,6) by (auto simp: sv_step_def split: if_splits dest!: api_receive_frame)
qed (use assms(1,3,6,8) in
    \<open>auto simp: sv_step_def do_defs timers_run_def beaconer_ready_def client_ready_def finish_panics beaconer_input_no_panic client_input_no_panic
      split: if_splits option.splits list.splits gw_effect.splits beaconer_effect.splits effect.splits rc_event.splits\<close>)

lemma abort_cause_mono: "abort_cause X kp ups u L \<Longrightarrow> L \<subseteq> L' \<Longrightarrow> abort_cause X kp ups u L'"
  unfolding abort_cause_def by blast

definition panics_for ::
  "('w, 'n, 'r, 'g, 'd, 'b, 'c) server_ext \<Rightarrow> Keypair \<Rightarrow> Packet set \<Rightarrow> Updater \<Rightarrow> sv_label set \<Rightarrow>
   ('w, 'g, 'd, 'b, 'c) server \<Rightarrow> bool" where
  "panics_for X kp ups u L s \<longleftrightarrow> timers_run s \<and> tasks_ok s \<and> sv_updater s = u \<and> (sv_result s = Some Panic \<longrightarrow> abort_cause X kp ups u L)"

lemma step_panics_for:
  assumes "sv_step X l s = Some (s', out)" and "channels_ok X" and "beacons_safe X" and "radio_ok X kp ups regs macs s"
    and "panics_for X kp ups u L s" and "l \<in> L"
  shows "panics_for X kp ups u L s'"
  using assms step_panics [OF assms(1-4) _ _ assms(6)] step_timers [OF assms(1)] step_ending [OF assms(1)] step_tasks [OF assms(1)]
  by (auto simp: panics_for_def ending_def)

interpretation panics: run_invariant "sv_step X" "sv_run X"
  "\<lambda>l. frame_from X ups bcs l \<and> brings_from X regs macs l \<and> l \<in> L"
  "\<lambda>s. channels_ok X \<and> beacons_safe X \<longrightarrow>
     origin_ok X kp ups bcs s \<and> radio_ok X kp ups regs macs s \<and> panics_for X kp ups u L s"
  "\<lambda>_. True" for X kp ups bcs regs macs u L
  by unfold_locales (auto simp: list_all_iff dest: step_from step_tx step_panics_for)

lemma server_start_panics:
  assumes "server_start X st w = (Ok s, w')"
  shows "Updater_new (set_update st) = Ok (sv_updater s) \<and> (timers_run s \<longrightarrow> panics_for X kp ups (sv_updater s) L s)"
  using assms
  by (auto simp: panics_for_def tasks_ok_def all_tasks_def server_start_def Let_def Dispatcher_new_def Updater_new_def
      LocalServer_new_def split: prod.splits sum.splits)

lemma run_panics:
  assumes "channels_ok X" and "beacons_safe X" and "server_start X st w = (Ok s0, w0)"
    and "sv_run X ls s0 = Some (s, out)" and "sv_result s = Some Panic" and "timers_run s0"
  shows "\<exists>u. Updater_new (set_update st) = Ok u \<and> abort_cause X (set_keypair st) (received_uplinks X ls) u (set ls)"
proof -
  let ?ups = "received_uplinks X ls" and ?regs = "delivered_regions X ls" and ?macs = "known_macs X ls"
  have "list_all (\<lambda>l. frame_from X ?ups UNIV l \<and> brings_from X ?regs ?macs l \<and> l \<in> set ls) ls"
    by (auto simp: list_all_iff frame_from_def brings_from_def received_uplinks_def delivered_regions_def known_macs_def
        split: sv_label.splits udp_event.splits)
  moreover have "origin_ok X (set_keypair st) ?ups UNIV s0" "radio_ok X (set_keypair st) ?ups ?regs ?macs s0"
    using server_start_Ok [OF assms(3,1)] server_start_radio [OF assms(3,1)] by (simp_all add: known_macs_def)
  ultimately have "panics_for X (set_keypair st) ?ups (sv_updater s0) (set ls) s"
    using panics.run_inv [OF assms(4), of ?ups UNIV ?regs ?macs "set ls" "set_keypair st" "sv_updater s0"] assms(1,2)
      server_start_panics [OF assms(3)] assms(6) by auto
  with server_start_panics [OF assms(3)] assms(5) show ?thesis by (auto simp: panics_for_def)
qed

end
