(* ===== verification/Server_Clients.thy ===== *)
theory Server_Clients
  imports Server_Runs
begin

text \<open>
  The well-formedness of the server's state: channel numbers are never used twice, and the client
  that reads a router's channel talks to that router and keeps its store within the setting.
\<close>

section \<open>Clients and routers\<close>

text \<open>
  The client behind the channel of a router talks to that router. New clients get new channel
  numbers, so a client once spawned stays the client of its router.
\<close>

definition client_for :: "RouterKey \<Rightarrow> RouterClient \<Rightarrow> bool" where
  "client_for k c \<longleftrightarrow> rc_uri c = rk_uri k \<and> rc_oui c = rk_oui k"

definition store_ok :: "u16 \<Rightarrow> RouterClient \<Rightarrow> bool" where
  "store_ok m c \<longleftrightarrow> max_packets (rc_store c) = m \<and> waiting_packets_len (rc_store c) \<le> unat m"

definition numbered :: "Dispatcher \<Rightarrow> bool" where
  "numbered d \<longleftrightarrow> (\<forall>k e. (k, e) \<in> set (routers d) \<longrightarrow> re_dispatch e < next_channel d)"

definition serves :: "Dispatcher \<Rightarrow> nat \<Rightarrow> RouterClient \<Rightarrow> bool" where
  "serves d ch c \<longleftrightarrow> ch < next_channel d \<and> store_ok (cache_max_packets d) c \<and>
     (\<forall>k e. (k, e) \<in> set (routers d) \<longrightarrow> re_dispatch e = ch \<longrightarrow> client_for k c)"

text \<open>What a change of the dispatcher keeps: clients serve whom they served, and new ones serve.\<close>

definition keeps_service :: "Dispatcher \<Rightarrow> Dispatcher \<Rightarrow> effect list \<Rightarrow> bool" where
  "keeps_service d d' eff \<longleftrightarrow> cache_max_packets d' = cache_max_packets d \<and> (numbered d \<longrightarrow>
     numbered d' \<and> (\<forall>ch c. serves d ch c \<longrightarrow> serves d' ch c) \<and>
     (\<forall>ch c. Eff_Spawn ch c \<in> set eff \<longrightarrow> serves d' ch c))"

lemma keeps_service_same:
  "same_map d d' \<Longrightarrow> cache_max_packets d' = cache_max_packets d \<Longrightarrow> spawned eff = {} \<Longrightarrow> keeps_service d d' eff"
  by (auto simp: same_map_def keeps_service_def numbered_def serves_def spawned_def)

lemma update_router_service: "keeps_service d (fst (update_router r d u)) (snd (update_router r d u))"
proof (cases "map_of (routers d) \<lparr>rk_oui = oui r, rk_uri = u\<rparr>")
  case None
  then show ?thesis
    by (auto simp: update_router_def start_router_eq keeps_service_def numbered_def serves_def client_for_def store_ok_def
        RouterStore_new_def waiting_packets_len_def Let_def less_Suc_eq) fastforce+
next
  case (Some e)
  then show ?thesis
    by (auto simp: update_router_def keeps_service_def numbered_def serves_def Let_def split: if_splits)
qed

interpretation service: routing_change keeps_service
proof unfold_locales
  fix d d1 d2 eff1 eff2
  assume "keeps_service d d1 eff1" and "keeps_service d1 d2 eff2"
  then show "keeps_service d d2 (eff1 @ eff2)" by (auto simp: keeps_service_def)
next
  fix d r u
  show "keeps_service d (fst (update_router r d u)) (snd (update_router r d u))" by (rule update_router_service)
qed (auto simp: keeps_service_def numbered_def serves_def)

lemma spawned_map_router [simp]: "spawned (map (\<lambda>x. Eff_Router (f x) (g x)) xs) = {}"
  by (auto simp: spawned_def)

lemma spawned_uplink [simp]: "spawned (d_handle_uplink H d p t) = {}"
  by (auto simp: d_handle_uplink_def spawned_def Let_def split: option.splits)

lemma spawned_message: "d_handle_message H X d m g w = (w', eff) \<Longrightarrow> spawned eff = {}"
  by (cases m) (auto simp: d_handle_message_def Let_def split: prod.splits)

lemma handle_region_params_update_service:
  "keeps_service d (fst (handle_region_params_update X d resp)) (snd (handle_region_params_update X d resp))"
  by (rule keeps_service_same)
    (auto simp: handle_region_params_update_map, auto simp: handle_region_params_update_def spawned_def Let_def split: rresult.splits if_splits)

lemma run_with_gateway_step_service:
  assumes "run_with_gateway_step H X g d i w = (r, d', w', eff)" shows "keeps_service d d' eff"
proof (cases i)
  case (DI_Stream m)
  then show ?thesis
    using assms handle_region_params_update_service [of d X] keeps_service_same [of d d "[]"]
    by (auto simp: run_with_gateway_step_def case_prod_beta Let_def same_map_def dest: service.handle_routing_update
        split: option.splits prod.splits rresult.splits gateway_stream.splits)
qed (use assms in \<open>auto simp: run_with_gateway_step_def same_map_def intro!: keeps_service_same
    split: prod.splits rresult.splits option.splits dest: spawned_message\<close>)

lemma d_step_service:
  assumes "d_step H X B ph d i w = (ph', d', w', eff)" shows "keeps_service d d' eff"
proof (cases "\<exists>g di. ph = Ph_Connected g \<and> i = RU_Connected di")
  case True
  then show ?thesis
    using assms by (auto simp: d_step_def split: prod.splits option.splits rresult.splits
        dest: run_with_gateway_step_service)
next
  case False
  show ?thesis
  proof (cases "\<exists>wi. ph = Ph_Wait \<and> i = RU_Wait wi")
    case True
    then show ?thesis
      using assms by (auto simp: d_step_def prepare_gateway_change_def same_map_def Let_def intro!: keeps_service_same
          split: wait_input.splits option.splits if_splits prod.splits dest!: spawned_message)
  next
    case False
    with \<open>\<nexists>g di. _\<close> assms show ?thesis
      by (auto simp: d_step_def select_step_def same_map_def intro!: keeps_service_same
          split: d_phase.splits run_input.splits select_input.splits prod.splits rresult.splits option.splits)
  qed
qed

definition clients_serve :: "u16 \<Rightarrow> ('w, 'g, 'd, 'b, 'c) server \<Rightarrow> bool" where
  "clients_serve m s \<longleftrightarrow> numbered (sv_dispatcher s) \<and> cache_max_packets (sv_dispatcher s) = m \<and>
     (\<forall>ch c. sv_clients s ch = Some c \<or> Eff_Spawn ch c \<in> set (dispatcher_out s) \<longrightarrow> serves (sv_dispatcher s) ch c)"

lemma clients_serve_frame:
  assumes "clients_serve m s" "sv_dispatcher s' = sv_dispatcher s" "sv_clients s' = sv_clients s"
    and "set (dispatcher_out s') \<subseteq> set (dispatcher_out s)"
  shows "clients_serve m s'"
  using assms by (auto simp: clients_serve_def)

lemma dispatcher_input_serve:
  assumes "clients_serve m s" and "dispatcher_out s = []" shows "clients_serve m (dispatcher_input X i s)"
proof -
  obtain ph d w eff where st:
    "d_step (sx_hash X) (sx_validator X) (gateway_backoff X) (sv_phase s) (sv_dispatcher s) i (sv_world s) = (ph, d, w, eff)"
    by (metis prod_cases4)
  from d_step_service [OF st] assms show ?thesis
    by (auto simp: clients_serve_def keeps_service_def dispatcher_input_def st Let_def split: d_phase.splits)
qed

lemma client_input_serve:
  assumes "clients_serve m s" and c: "sv_clients s ch = Some c"
  shows "clients_serve m (client_input X ch c i s)"
proof -
  obtain c1 w ev where st: "rc_step (client_ext X c) c i (sv_world s) = (c1, w, ev)" by (metis prod_cases3)
  have s: "serves (sv_dispatcher s) ch c" using assms by (simp add: clients_serve_def)
  show ?thesis
  proof (cases c1)
    case (Running c')
    have "rc_inv c c" using s by (simp add: rc_inv_def serves_def store_ok_def rs.bounded_def waiting_packets_len_def)
    from rc_step_inv [OF st [unfolded Running] this] s have "serves (sv_dispatcher s) ch c'"
      by (auto simp: rc_inv_def serves_def store_ok_def client_for_def rs.bounded_def waiting_packets_len_def)
    with assms(1) show ?thesis by (auto simp: clients_serve_def client_input_def st Running)
  next
    case (Returned r)
    with assms(1) show ?thesis by (cases r) (auto simp: clients_serve_def client_input_def st)
  qed
qed

lemma step_serve:
  assumes "sv_step X l s = Some (s', out)" and "clients_serve m s"
  shows "clients_serve m s'"
proof (cases l)
  case (L_Dispatcher i)
  then show ?thesis
    using assms by (auto simp: sv_step_def dispatcher_ready_def split: if_splits intro: dispatcher_input_serve)
next
  case L_DispatcherMessage
  then obtain i q where "s' = dispatcher_input X i (s\<lparr>dispatcher_q := q\<rparr>)" "dispatcher_out s = []"
    using assms(1) by (auto simp: sv_step_def dispatcher_ready_def split: if_splits option.splits)
  then show ?thesis
    using assms(2) dispatcher_input_serve [of m "s\<lparr>dispatcher_q := q\<rparr>" X i] by (simp add: clients_serve_def)
next
  case L_DispatcherEffect
  then show ?thesis
    using assms by (auto simp: sv_step_def dispatcher_do_def clients_serve_def
        split: if_splits list.splits effect.splits option.splits)
next
  case (L_Client ch i)
  then show ?thesis
    using assms by (auto simp: sv_step_def split: if_splits option.splits intro: client_input_serve)
next
  case (L_ClientMessage ch)
  then obtain c i q where c: "sv_clients s ch = Some c" and s': "s' = client_input X ch c i (s\<lparr>client_q := q\<rparr>)"
    using assms(1) by (auto simp: sv_step_def split: if_splits option.splits)
  have "clients_serve m (s\<lparr>client_q := q\<rparr>)" using assms(2) by (simp add: clients_serve_def)
  with c show ?thesis by (simp add: s' client_input_serve)
next
  case (L_Updater ev)
  then show ?thesis
    using assms updater_input_frame [of X ev s s'] by (auto simp: sv_step_def clients_serve_def split: if_splits)
next
  case (L_ApiReceive m)
  then show ?thesis using assms by (auto simp: sv_step_def clients_serve_def split: if_splits dest!: api_receive_frame)
qed (use assms in \<open>auto simp: sv_step_def do_defs intro!: clients_serve_frame [OF assms(2)]
    split: if_splits list.splits option.splits gw_effect.splits beaconer_effect.splits rc_event.splits\<close>)

interpretation serve: run_invariant "sv_step X" "sv_run X" "\<lambda>_. True" "clients_serve m" "\<lambda>_. True" for X m
  by unfold_locales (auto simp: list_all_iff dest: step_serve)

lemma server_start_serve:
  assumes "server_start X st w = (Ok s, w')" and "channels_ok X"
  shows "clients_serve (max_packets_setting (set_cache st)) s"
proof -
  note s = server_start_Ok [OF assms, of "{}" "{}"]
  have "routers d = [] \<and> cache_max_packets d = m" if "Dispatcher_new kp rg gs df m = Ok d" for kp rg gs df m d
    using that by (auto simp: Dispatcher_new_def)
  with s have "routers (sv_dispatcher s) = []" "cache_max_packets (sv_dispatcher s) = max_packets_setting (set_cache st)"
    by blast+
  with s show ?thesis by (simp add: clients_serve_def numbered_def)
qed

end
