(* ===== verification/Server_Api.thy ===== *)
theory Server_Api
  imports Server_Props
begin

text \<open>
  The requests of the local API in the running server: each is answered once, in the order in
  which the requests were made, with an answer of the kind that was asked for, unless the dispatcher
  returns before: then the API waits for it forever.
\<close>

section \<open>Accounts of runs\<close>

text \<open>
  Things that steps take in and outputs give back in order; in between they wait in the state.
\<close>

locale run_account = labelled_runs +
  fixes keeps :: "'a \<Rightarrow> bool" and taken :: "'b \<Rightarrow> 'e list" and given :: "'c \<Rightarrow> 'e list" and waits :: "'a \<Rightarrow> 'e list"
  assumes step_keeps: "step l s = Some (s', out) \<Longrightarrow> keeps s \<Longrightarrow> keeps s'"
    and step_account: "step l s = Some (s', out) \<Longrightarrow> keeps s \<Longrightarrow> concat (map given out) @ waits s' = waits s @ taken l"
begin

lemma accounted:
  "run ls s = Some (s', out) \<Longrightarrow> keeps s \<Longrightarrow> concat (map given out) @ waits s' = waits s @ concat (map taken ls)"
proof (induction ls arbitrary: s out)
  case (Cons l ls)
  from Cons.prems(1) obtain s1 o1 o2 where st: "step l s = Some (s1, o1)" "run ls s1 = Some (s', o2)" "out = o1 @ o2"
    by (rule run_ConsE)
  have "concat (map given out) @ waits s' = concat (map given o1) @ waits s1 @ concat (map taken ls)"
    using Cons.IH [OF st(2) step_keeps [OF st(1) Cons.prems(2)]] by (simp add: st(3))
  also have "\<dots> = waits s @ concat (map taken (l # ls))"
    using step_account [OF st(1) Cons.prems(2)] by (simp flip: append_assoc)
  finally show ?case .
qed (simp add: run_Nil)

end

section \<open>Requests and replies\<close>

text \<open>A request is known by the number of its response channel and what it asks for.\<close>

datatype request_kind = RK_Config | RK_Height | RK_Region

definition message_request :: "d_message \<Rightarrow> (nat \<times> request_kind) list" where
  "message_request m =
     (case m of
        DM_Uplink _ _ \<Rightarrow> []
      | DM_Config _ response \<Rightarrow> [(response, RK_Config)]
      | DM_Height response \<Rightarrow> [(response, RK_Height)]
      | DM_Region response \<Rightarrow> [(response, RK_Region)])"

definition reply_kind :: "reply \<Rightarrow> request_kind" where
  "reply_kind r = (case r of Reply_Config _ \<Rightarrow> RK_Config | Reply_Height _ \<Rightarrow> RK_Height | Reply_Region _ \<Rightarrow> RK_Region)"

definition effect_reply :: "effect \<Rightarrow> (nat \<times> request_kind) list" where
  "effect_reply e = (case e of Eff_Reply n r \<Rightarrow> [(n, reply_kind r)] | _ \<Rightarrow> [])"

definition label_request :: "sv_label \<Rightarrow> (nat \<times> request_kind) list" where
  "label_request l = (case l of L_ApiRequest m \<Rightarrow> message_request m | _ \<Rightarrow> [])"

definition output_reply :: "sv_output \<Rightarrow> (nat \<times> request_kind) list" where
  "output_reply out = (case out of O_Reply n r \<Rightarrow> [(n, reply_kind r)] | _ \<Rightarrow> [])"

text \<open>The requests that are not answered yet, oldest first.\<close>

definition requests_open ::
  "('w, 'n, 'r, 'g, 'd, 'b, 'c) server_ext \<Rightarrow> ('w, 'g, 'd, 'b, 'c) server \<Rightarrow> (nat \<times> request_kind) list" where
  "requests_open X s =
     concat (map effect_reply (dispatcher_out s)) @
     concat (map message_request (mp_contents (sx_dispatcher_ch X) (dispatcher_q s)))"

definition input_request :: "run_input \<Rightarrow> (nat \<times> request_kind) list" where
  "input_request i =
     (case i of
        RU_Connected (DI_Message (Some m)) \<Rightarrow> message_request m
      | RU_Wait (WI_Message (Some m)) \<Rightarrow> message_request m
      | _ \<Rightarrow> [])"

abbreviation effect_replies :: "effect list \<Rightarrow> (nat \<times> request_kind) list" where
  "effect_replies eff \<equiv> concat (map effect_reply eff)"

section \<open>The dispatcher answers\<close>

lemma no_replies: "list_all (\<lambda>e. effect_reply e = []) eff \<Longrightarrow> effect_replies eff = []"
  by (auto simp: list_all_iff)

lemma update_router_replies: "list_all (\<lambda>e. effect_reply e = []) (snd (update_router r d u))"
  by (auto simp: update_router_def start_router_eq effect_reply_def Let_def split: option.splits)

interpretation unasked: routing_change "\<lambda>d d' eff. list_all (\<lambda>e. effect_reply e = []) eff"
  by unfold_locales (use update_router_replies in \<open>auto simp: list_all_iff effect_reply_def\<close>)

lemma handle_routing_update_replies: "handle_routing_update V d resp = Ok (d', eff) \<Longrightarrow> effect_replies eff = []"
  by (rule no_replies) (rule unasked.handle_routing_update)

lemma d_handle_message_replies: "effect_replies (snd (d_handle_message H V d m g w)) = message_request m"
  by (cases m) (auto simp: d_handle_message_def d_handle_uplink_def effect_reply_def message_request_def reply_kind_def
      Let_def case_prod_beta split: option.splits)

lemma handle_region_params_update_replies: "effect_replies (snd (handle_region_params_update V d resp)) = []"
  by (auto simp: handle_region_params_update_def effect_reply_def Let_def split: rresult.splits)

lemma run_with_gateway_step_replies:
  assumes "run_with_gateway_step H V g d i w = (r, d', w', eff)"
  shows "effect_replies eff = input_request (RU_Connected i)"
proof (cases i)
  case (DI_Stream m)
  then show ?thesis
    using assms handle_region_params_update_replies [of V d]
    by (auto simp: run_with_gateway_step_def input_request_def case_prod_beta Let_def
        dest: handle_routing_update_replies split: option.splits prod.splits rresult.splits gateway_stream.splits
        simp del: concat_eq_Nil_conv)
next
  case (DI_Message m)
  then show ?thesis
    using assms d_handle_message_replies [of H V d "the m" "Some g" w]
    by (auto simp: run_with_gateway_step_def input_request_def case_prod_beta Let_def split: option.splits)
qed (use assms in \<open>auto simp: run_with_gateway_step_def input_request_def split: prod.splits rresult.splits\<close>)

lemma select_step_replies: "select_step V d i w = (ph, d', w', eff) \<Longrightarrow> effect_replies eff = []"
  by (auto simp: select_step_def effect_reply_def split: select_input.splits prod.splits rresult.splits option.splits)

lemma prepare_gateway_change_replies:
  "effect_replies (snd (snd (snd (prepare_gateway_change H V B d i w)))) = input_request (RU_Wait i)"
proof (cases i)
  case (WI_Message m)
  then show ?thesis
    using d_handle_message_replies [of H V _ "the m" None w]
    by (cases m) (auto simp: prepare_gateway_change_def input_request_def Let_def case_prod_beta)
qed (auto simp: prepare_gateway_change_def input_request_def Let_def)

text \<open>The input fits the phase, as the inputs that carry messages do in the server.\<close>

definition fits_phase :: "d_phase \<Rightarrow> run_input \<Rightarrow> bool" where
  "fits_phase ph i =
     (case (ph, i) of (Ph_Connected _, RU_Connected _) \<Rightarrow> True | (Ph_Wait, RU_Wait _) \<Rightarrow> True | _ \<Rightarrow> input_request i = [])"

lemma d_step_replies:
  assumes "d_step H V B ph d i w = (ph', d', w', eff)" and "fits_phase ph i"
  shows "effect_replies eff = input_request i"
proof (cases "\<exists>g di. ph = Ph_Connected g \<and> i = RU_Connected di")
  case True
  then obtain g di r where i: "i = RU_Connected di" and s: "run_with_gateway_step H V g d di w = (r, d', w', eff)"
    using assms(1) by (auto simp: d_step_def split: prod.splits option.splits rresult.splits)
  from run_with_gateway_step_replies [OF s] show ?thesis by (simp only: i)
next
  case False
  show ?thesis
  proof (cases "\<exists>wi. ph = Ph_Wait \<and> i = RU_Wait wi")
    case True
    then obtain wi where i: "i = RU_Wait wi" and s: "eff = snd (snd (snd (prepare_gateway_change H V B d wi w)))"
      using assms(1) by (auto simp: d_step_def Let_def split: prod.splits)
    show ?thesis by (simp only: i s prepare_gateway_change_replies)
  next
    case False
    with \<open>\<nexists>g di. _\<close> assms show ?thesis
      by (cases ph; cases i) (auto simp: d_step_def fits_phase_def input_request_def dest: select_step_replies
          simp del: concat_eq_Nil_conv)
  qed
qed

lemma dispatcher_input_requests:
  assumes "dispatcher_out s = []" and "fits_phase (sv_phase s) i"
  shows "requests_open X (dispatcher_input X i s) = input_request i @ requests_open X s"
proof -
  obtain ph d w eff where st:
    "d_step (sx_hash X) (sx_validator X) (gateway_backoff X) (sv_phase s) (sv_dispatcher s) i (sv_world s) = (ph, d, w, eff)"
    by (metis prod_cases4)
  from d_step_replies [OF st assms(2)] assms(1) show ?thesis
    by (simp add: requests_open_def dispatcher_input_def st Let_def split: d_phase.splits)
qed

lemma takes_message_request: "\<not> takes_message i \<Longrightarrow> input_request i = [] \<and> fits_phase ph i"
  by (auto simp: takes_message_def input_request_def fits_phase_def
      split: run_input.splits d_input.splits wait_input.splits d_phase.splits)

lemma message_input_request:
  "message_input ph m = Some i \<Longrightarrow> input_request i = message_request m \<and> fits_phase ph i"
  by (auto simp: message_input_def input_request_def fits_phase_def split: d_phase.splits)

section \<open>The server answers\<close>

lemma mpsc_send_requests:
  "mpsc_ok C \<Longrightarrow> mp_send C m q = Some q' \<Longrightarrow>
   concat (map message_request (mp_contents C q')) = concat (map message_request (mp_contents C q)) @ message_request m"
  by (simp add: mpsc_send(1))

lemma dispatcher_message_requests:
  assumes "sv_step X L_DispatcherMessage s = Some (s', out)" and "channels_ok X"
  shows "out = [] \<and> requests_open X s' = requests_open X s"
proof -
  obtain m q i where m: "mp_recv (sx_dispatcher_ch X) (dispatcher_q s) = Some (m, q)"
    "message_input (sv_phase s) m = Some i" "dispatcher_out s = []"
    and s': "s' = dispatcher_input X i (s\<lparr>dispatcher_q := q\<rparr>)" "out = []"
    using assms(1) by (auto simp: sv_step_def dispatcher_ready_def split: if_splits option.splits)
  have "mp_contents (sx_dispatcher_ch X) (dispatcher_q s) = m # mp_contents (sx_dispatcher_ch X) q"
    using mpsc_recv(1) [OF _ m(1)] assms(2) by (simp add: channels_ok_def)
  then show ?thesis
    using dispatcher_input_requests [of "s\<lparr>dispatcher_q := q\<rparr>" i X] message_input_request [OF m(2)]
    by (simp add: s' m(3) requests_open_def [of X s] requests_open_def [of X "s\<lparr>dispatcher_q := q\<rparr>"])
qed

lemma gateway_do_requests:
  assumes "gateway_do X e s = Some (s', out)" and "channels_ok X"
  shows "concat (map output_reply out) = [] \<and> requests_open X s' = requests_open X s"
  using assms
  by (cases e) (auto simp: gateway_do_def requests_open_def channels_ok_def mpsc_send_requests message_request_def
      output_reply_def)

lemma dispatcher_do_requests:
  assumes "dispatcher_do X e (s\<lparr>dispatcher_out := es\<rparr>) = Some (s', out)" and "dispatcher_out s = e # es"
  shows "concat (map output_reply out) @ requests_open X s' = requests_open X s"
  using assms
  by (cases e) (auto simp: dispatcher_do_def requests_open_def effect_reply_def output_reply_def split: option.splits)

lemma step_requests:
  assumes "sv_step X l s = Some (s', out)" and "channels_ok X"
  shows "concat (map output_reply out) @ requests_open X s' = requests_open X s @ label_request l"
proof (cases l)
  case L_GatewayEffect
  then obtain e es where "gateway_do X e (s\<lparr>gateway_out := es\<rparr>) = Some (s', out)"
    using assms(1) by (auto simp: sv_step_def split: if_splits list.splits)
  from gateway_do_requests [OF this assms(2)] show ?thesis
    by (simp add: L_GatewayEffect label_request_def requests_open_def)
next
  case L_DispatcherMessage
  then show ?thesis using dispatcher_message_requests [of X s s' out] assms by (simp add: label_request_def)
next
  case L_DispatcherEffect
  then show ?thesis
    using assms(1) dispatcher_do_requests
    by (auto simp: sv_step_def label_request_def split: if_splits list.splits)
next
  case (L_Dispatcher i)
  then show ?thesis
    using assms(1) takes_message_request [of i "sv_phase s"] dispatcher_input_requests [of s i X]
    by (auto simp: sv_step_def dispatcher_ready_def label_request_def split: if_splits)
next
  case (L_ApiRequest m)
  then show ?thesis
    using assms
    by (auto simp: sv_step_def label_request_def requests_open_def channels_ok_def mpsc_send_requests split: if_splits)
next
  case (L_ApiReceive m)
  then show ?thesis
    using assms(1) by (auto simp: sv_step_def label_request_def requests_open_def split: if_splits dest!: api_receive_frame)
next
  case (L_Updater ev)
  then show ?thesis
    using assms(1) updater_input_frame [of X ev s s']
    by (auto simp: sv_step_def label_request_def requests_open_def split: if_splits)
next
  case L_BeaconerEffect
  then show ?thesis
    using assms(1) by (auto simp: sv_step_def beaconer_do_def label_request_def requests_open_def output_reply_def
        split: if_splits list.splits beaconer_effect.splits)
next
  case (L_ClientEffect ch)
  then show ?thesis
    using assms(1) by (auto simp: sv_step_def client_do_def label_request_def requests_open_def output_reply_def
        split: if_splits list.splits rc_event.splits)
qed (use assms(1) in \<open>auto simp: sv_step_def label_request_def requests_open_def split: if_splits option.splits\<close>)

interpretation api: run_account "sv_step X" "sv_run X" "\<lambda>_. channels_ok X" label_request output_reply "requests_open X" for X
  by unfold_locales (auto simp: step_requests)

lemma server_start_requests:
  "server_start X st w = (Ok s, w') \<Longrightarrow> channels_ok X \<Longrightarrow> requests_open X s = []"
  using server_start_Ok [of X st w s w' "{}" "{}"] by (simp add: requests_open_def)

section \<open>Requests that are never answered\<close>

text \<open>
  The API returns after a shutdown only when no request is in flight, but the dispatcher, on which
  the requests wait, returns without looking at what is left in its channel.
\<close>

lemma finish_returned:
  "sv_returned (finish t r s) = (case r of Ok _ \<Rightarrow> insert t (sv_returned s) | _ \<Rightarrow> sv_returned s)"
  "sv_result s = None \<Longrightarrow> sv_result (finish t r s) = Some (Ok ()) \<Longrightarrow> all_tasks \<subseteq> insert t (sv_returned s) \<and> (\<exists>u. r = Ok u)"
  by (auto simp: finish_def Let_def split: rresult.splits if_splits)

lemma d_step_done: "d_step H V B ph d i w = (Ph_Done (Ok r), d', w', eff) \<Longrightarrow> eff = []"
  by (auto simp: d_step_def select_step_def Let_def
      split: d_phase.splits run_input.splits select_input.splits rresult.splits prod.splits option.splits)

text \<open>A task that has returned leaves nothing behind, and the server returns when all tasks have.\<close>

definition returned_ok :: "('w, 'g, 'd, 'b, 'c) server \<Rightarrow> bool" where
  "returned_ok s \<longleftrightarrow> (T_Dispatcher \<in> sv_returned s \<longrightarrow> dispatcher_out s = []) \<and>
     (T_Api \<in> sv_returned s \<longrightarrow> api_flight s = {}) \<and> (sv_result s = Some (Ok ()) \<longrightarrow> all_tasks \<subseteq> sv_returned s)"

lemma returned_ok_finish:
  assumes "returned_ok s" and "sv_result s = None" and "t = T_Dispatcher \<Longrightarrow> dispatcher_out s = []"
    and "t = T_Api \<Longrightarrow> api_flight s = {} \<or> (\<exists>e. r = Err e)"
  shows "returned_ok (finish t r s)"
  using assms finish_returned(2) [OF assms(2), of t r] by (auto simp: returned_ok_def finish_returned(1) split: rresult.splits)

lemma dispatcher_input_returned:
  assumes "returned_ok s" and "dispatcher_ready s"
  shows "returned_ok (dispatcher_input X i s)"
proof -
  obtain ph d w eff where st:
    "d_step (sx_hash X) (sx_validator X) (gateway_backoff X) (sv_phase s) (sv_dispatcher s) i (sv_world s) = (ph, d, w, eff)"
    by (metis prod_cases4)
  have "eff = []" if "ph = Ph_Done (Ok ())" by (rule d_step_done [OF st [unfolded that]])
  with assms show ?thesis
    by (auto simp: dispatcher_input_def st returned_ok_def dispatcher_ready_def finish_def Let_def split: rresult.splits d_phase.splits)
qed

lemma returned_ok_frame:
  "returned_ok s \<Longrightarrow> sv_result s' = sv_result s \<Longrightarrow> sv_returned s' = sv_returned s \<Longrightarrow> dispatcher_out s' = dispatcher_out s \<Longrightarrow>
   api_flight s' \<subseteq> api_flight s \<Longrightarrow> returned_ok s'"
  by (auto simp: returned_ok_def)

lemma returned_ok_crash [simp]: "returned_ok s \<Longrightarrow> returned_ok (crash s)"
  by (simp add: returned_ok_def crash_def)

lemma gateway_input_returned: "returned_ok s \<Longrightarrow> sv_result s = None \<Longrightarrow> returned_ok (gateway_input X i s)"
  by (auto simp: gateway_input_def split: sum.splits prod.splits intro!: returned_ok_finish elim: returned_ok_frame)

lemma beaconer_input_returned: "returned_ok s \<Longrightarrow> sv_result s = None \<Longrightarrow> returned_ok (beaconer_input X i s)"
  by (auto simp: beaconer_input_def simp del: bc_step.simps split: option.splits intro!: returned_ok_finish elim: returned_ok_frame)

lemma client_input_returned: "returned_ok s \<Longrightarrow> returned_ok (client_input X ch c i s)"
  by (auto simp: client_input_def split: prod.splits loop_state.splits rresult.splits elim: returned_ok_frame)

lemma updater_input_returned:
  "updater_input X ev s = Some s' \<Longrightarrow> returned_ok s \<Longrightarrow> sv_result s = None \<Longrightarrow> returned_ok s'"
  by (auto simp: updater_input_def split: option.splits prod.splits intro!: returned_ok_finish elim: returned_ok_frame)

lemma step_returned:
  assumes "sv_step X l s = Some (s', out)" and "returned_ok s"
  shows "returned_ok s'"
proof -
  have t: "returned_ok (s\<lparr>gateway_q := q1\<rparr>)" "returned_ok (s\<lparr>beaconer_q := q2\<rparr>)" "returned_ok (s\<lparr>dispatcher_q := q3\<rparr>)"
    "returned_ok (s\<lparr>client_q := q4\<rparr>)" for q1 q2 q3 q4
    using assms(2) by (simp_all add: returned_ok_def)
  show ?thesis
  proof (cases l)
    case L_DispatcherMessage
    then obtain i q where "s' = dispatcher_input X i (s\<lparr>dispatcher_q := q\<rparr>)" "dispatcher_ready s"
      using assms(1) by (auto simp: sv_step_def split: if_splits option.splits)
    then show ?thesis using dispatcher_input_returned [OF t(3)] by (simp add: dispatcher_ready_def)
  next
    case L_DispatcherEffect
    then show ?thesis
      using assms by (auto simp: sv_step_def dispatcher_do_def returned_ok_def
          split: if_splits list.splits effect.splits option.splits)
  next
    case (L_ApiReceive m)
    then show ?thesis
      using assms by (auto simp: sv_step_def api_receive_def returned_ok_def split: if_splits option.splits)
  qed (use assms t in \<open>auto simp: sv_step_def do_defs gateway_ready_def beaconer_ready_def updater_ready_def api_drop_def
      split: if_splits option.splits list.splits gw_effect.splits beaconer_effect.splits rc_event.splits
      intro: gateway_input_returned beaconer_input_returned dispatcher_input_returned client_input_returned
        client_input_returned [OF t(4)] updater_input_returned
      intro!: returned_ok_finish
      elim: returned_ok_frame\<close>)
qed

interpretation returned: run_invariant "sv_step X" "sv_run X" "\<lambda>_. True" returned_ok "\<lambda>_. True" for X
  by unfold_locales (auto simp: list_all_iff dest: step_returned)

lemma still_returned:
  "t \<in> sv_returned s \<Longrightarrow> t \<in> sv_returned (finish t' r s)"
  "t \<in> sv_returned s \<Longrightarrow> t \<in> sv_returned (gateway_input X gi s)"
  "t \<in> sv_returned s \<Longrightarrow> t \<in> sv_returned (beaconer_input X be s)"
  "t \<in> sv_returned s \<Longrightarrow> t \<in> sv_returned (client_input X ch c ci s)"
  "t \<in> sv_returned s \<Longrightarrow> updater_input X ue s = Some s' \<Longrightarrow> t \<in> sv_returned s'"
  by (auto simp: gateway_input_def beaconer_input_def client_input_def updater_input_def crash_def finish_returned(1)
      simp del: bc_step.simps
      split: sum.splits prod.splits option.splits loop_state.splits rresult.splits)

text \<open>The request \<open>n\<close> is in flight and the dispatcher has returned.\<close>

definition orphaned :: "nat \<Rightarrow> ('w, 'g, 'd, 'b, 'c) server \<Rightarrow> bool" where
  "orphaned n s \<longleftrightarrow> returned_ok s \<and> T_Dispatcher \<in> sv_returned s \<and> n \<in> api_flight s"

lemma orphaned_blocks: "orphaned n s \<Longrightarrow> T_Api \<notin> sv_returned s \<and> sv_result s \<noteq> Some (Ok ())"
  by (auto simp: orphaned_def returned_ok_def all_tasks_def)

lemma step_orphaned:
  assumes "sv_step X l s = Some (s', out)" and "l \<noteq> L_ApiGone n" and "orphaned n s"
  shows "orphaned n s' \<and> list_all (\<lambda>o'. output_reply o' = []) out"
proof -
  have o: "dispatcher_out s = []" "T_Dispatcher \<in> sv_returned s" "n \<in> api_flight s"
    using assms(3) by (simp_all add: orphaned_def returned_ok_def)
  then have busy: "\<not> dispatcher_ready s" by (simp add: dispatcher_ready_def)
  have "T_Dispatcher \<in> sv_returned s' \<and> n \<in> api_flight s' \<and> list_all (\<lambda>o'. output_reply o' = []) out"
    using assms(1,2) o busy
    by (cases l) (auto simp: sv_step_def do_defs api_drop_def api_receive_def still_returned output_reply_def crash_def
      dest: updater_input_frame
      split: if_splits option.splits list.splits gw_effect.splits beaconer_effect.splits rc_event.splits)
  with step_returned [OF assms(1)] assms(3) show ?thesis by (simp add: orphaned_def)
qed

interpretation orphan: run_invariant "sv_step X" "sv_run X" "\<lambda>l. l \<noteq> L_ApiGone n" "orphaned n" "\<lambda>out. output_reply out = []" for X n
  by unfold_locales (auto dest: step_orphaned)

lemma server_start_returned: "server_start X st w = (Ok s, w') \<Longrightarrow> returned_ok s"
  by (auto simp: returned_ok_def server_start_def Let_def Dispatcher_new_def Updater_new_def LocalServer_new_def
      split: prod.splits sum.splits)

end
