(* ===== verification/Server_Example.thy ===== *)
theory Server_Example
  imports Server_Clients Server_Radio Server_Api Info
begin

text \<open>
  A small server on which the properties of the whole program are tried: channels that are lists,
  one validator that knows one router and one region, and answers of the outside world that are
  always the same.
\<close>

section \<open>The outside world\<close>

definition list_mpsc :: "('m, nat \<times> 'm list) mpsc" where
  "list_mpsc = \<lparr>mp_new = (\<lambda>n. (n, [])),
     mp_send = (\<lambda>m (n, ms). if length ms < n then Some (n, ms @ [m]) else None),
     mp_recv = (\<lambda>(n, ms). case ms of [] \<Rightarrow> None | m # ms \<Rightarrow> Some (m, n, ms)),
     mp_contents = snd, mp_capacity = fst\<rparr>"

lemma list_mpsc_ok: "mpsc_ok list_mpsc"
  by (auto simp: mpsc_ok_def list_mpsc_def split: list.splits)

definition sample_keys :: "unit keypair_ext" where
  "sample_keys =
     \<lparr>kx_uri_parse = Inl, kx_query_args = Inl, kx_network_parse = Inl, kx_u8_error = (\<lambda>e. e),
      kx_read = (\<lambda>p w. (Inl p, w)), kx_not_found = (\<lambda>_. True), kx_create_dirs = (\<lambda>_ w. (Inr (), w)),
      kx_write = (\<lambda>_ _ w. (Inr (), w)), kx_decode = (\<lambda>_. Inr sample_keypair), kx_encode = kp_public,
      kx_generate = (\<lambda>_ w. (sample_keypair, w)), kx_error_debug = (\<lambda>_. ''error''), kx_ecc608 = False, kx_tpm = False,
      kx_ecc_init = (\<lambda>_ _ w. (Inr (), w)), kx_ecc_slot = (\<lambda>_ _ w. (Inr sample_keypair, w)),
      kx_tpm_key = (\<lambda>_ _ w. (Inr sample_keypair, w))\<rparr>"

text \<open>A router that answers every packet with a downlink for both receive windows.\<close>

definition sample_downlink :: Packet where
  "sample_downlink = sample_packet 7\<lparr>p_rx2_window := Some \<lparr>w_timestamp = 9, w_frequency = FFin False 923, w_datarate = ''SF12BW500''\<rparr>\<rparr>"

definition sample_router :: "unit router_ext" where
  "sample_router = sample_ext\<lparr>rpc_route := (\<lambda>_ w. (Inr \<lparr>scm_msg = Some (Msg_Response \<lparr>scr_downlink = Some sample_downlink\<rparr>)\<rparr>, w))\<rparr>"

definition sample_ext_server ::
  "(unit, rat, unit, nat \<times> gw_message list, nat \<times> d_message list, nat \<times> beaconer_message list, nat \<times> rc_message list) server_ext" where
  "sample_ext_server = \<lparr>sx_hash = sample_hash, sx_validator = sample_net, sx_backoff = (\<lambda>_ _ _ _. None), sx_udp = sample_udp,
     sx_udp_bind = (\<lambda>_ w. (Inr (), w)), sx_default_mac = replicate 8 0, sx_beaconer = sample_beaconer_ext,
     sx_router = (\<lambda>_. sample_router), sx_updater = sample_updater_ext, sx_keypair = sample_keys,
     sx_gateway_ch = list_mpsc, sx_dispatcher_ch = list_mpsc, sx_beaconer_ch = list_mpsc, sx_client_ch = list_mpsc\<rparr>"

definition sample_server_settings :: "unit Settings" where
  "sample_server_settings = sample_settings\<lparr>set_gateways := [\<lparr>ku_uri = [104], ku_pubkey = [1]\<rparr>]\<rparr>"

lemma sample_channels_ok: "channels_ok sample_ext_server"
  by (simp add: channels_ok_def sample_ext_server_def list_mpsc_ok)

text \<open>The server connects to the validator, and the region reaches the beaconer.\<close>

definition connect_labels :: "sv_label list" where
  "connect_labels = [L_Dispatcher (RU_Select (SI_Proceed False)), L_DispatcherEffect, L_GatewayMessage, L_GatewayEffect,
     L_BeaconerMessage]"

text \<open>The server as it is started, and after it has connected.\<close>

definition sample_started ::
  "(unit, nat \<times> gw_message list, nat \<times> d_message list, nat \<times> beaconer_message list, nat \<times> rc_message list) server" where
  "sample_started =
     \<lparr>sv_beaconer = Beaconer_new sample_keypair sample_poc, sv_gateway = Gateway_new (replicate 8 0) default_listen,
      sv_dispatcher = sample_dispatcher\<lparr>d_seed_gateways := [\<lparr>ku_uri = [104], ku_pubkey = [1]\<rparr>], cache_max_packets := 20\<rparr>,
      sv_phase = Ph_Select,
      sv_updater = \<lparr>up_enabled = True, up_uri = ''u'', up_channel = Alpha, up_platform = ''klkgw'', up_interval_secs = 600,
        up_install_command = ''install''\<rparr>,
      sv_api = \<lparr>ls_keypair = sample_keypair, ls_onboarding_key = [7], ls_listen_port = default_api\<rparr>,
      sv_clients = Map.empty, beaconer_q = (10, []), gateway_q = (10, []), dispatcher_q = (20, []),
      client_q = (\<lambda>_. (10, [])), beaconer_out = [], gateway_out = [], dispatcher_out = [], client_out = (\<lambda>_. []),
      api_wait = [], api_flight = {}, api_next = 0, sv_returned = {}, sv_result = None, sv_world = ()\<rparr>"

lemma sample_start: "server_start sample_ext_server sample_server_settings () = (Ok sample_started, ())"
  by (simp add: server_start_def sample_ext_server_def sample_server_settings_def sample_settings_def Dispatcher_new_def
      Updater_new_def LocalServer_new_def onboarding_key_def list_mpsc_def sample_started_def sample_dispatcher_def
      sample_keypair_def)

definition sample_connected ::
  "(unit, nat \<times> gw_message list, nat \<times> d_message list, nat \<times> beaconer_message list, nat \<times> rc_message list) server" where
  "sample_connected = sample_started\<lparr>
     sv_phase := Ph_Connected \<lparr>gs_uri = \<lparr>ku_uri = [104], ku_pubkey = [1]\<rparr>\<rparr>,
     sv_beaconer := (Beaconer_new sample_keypair sample_poc)\<lparr>bc_region_params := Some sample_region_params\<rparr>,
     sv_gateway := (Gateway_new (replicate 8 0) default_listen)\<lparr>g_region_params := Some sample_region_params\<rparr>\<rparr>"

lemma sample_timer [simp]:
  "\<not> interval_panics (bc_interval (Beaconer_new sample_keypair sample_poc))"
  "\<not> interval_panics (bc_interval (sv_beaconer sample_connected))"
  "\<not> interval_panics (secs 28792)" "\<not> interval_panics (secs 600)"
  by (simp_all add: sample_connected_def Beaconer_new_def sample_poc_def interval_panics_def secs_def)

lemma sample_connect: "sv_run sample_ext_server connect_labels sample_started = Some (sample_connected, [])"
proof -
  let ?X = sample_ext_server
  let ?s = sample_started
  let ?ph = "Ph_Connected \<lparr>gs_uri = \<lparr>ku_uri = [104], ku_pubkey = [1]\<rparr>\<rparr>"
  let ?g = "(Gateway_new (replicate 8 0) default_listen)\<lparr>g_region_params := Some sample_region_params\<rparr>"
  have d: "select_step sample_net (sv_dispatcher ?s) (SI_Proceed False) () =
      (?ph, sv_dispatcher ?s, (), [Eff_RegionParams sample_region_params])"
    by (rule sample_select) (simp_all add: sample_started_def sample_dispatcher_def)
  have 1: "sv_step ?X (L_Dispatcher (RU_Select (SI_Proceed False))) ?s =
      Some (?s\<lparr>sv_phase := ?ph, dispatcher_out := [Eff_RegionParams sample_region_params]\<rparr>, [])"
    using d by (simp add: sv_step_def dispatcher_ready_def takes_message_def dispatcher_input_def d_step_def
        sample_ext_server_def sample_started_def)
  have 2: "sv_step ?X L_DispatcherEffect (?s\<lparr>sv_phase := ?ph, dispatcher_out := [Eff_RegionParams sample_region_params]\<rparr>) =
      Some (?s\<lparr>sv_phase := ?ph, gateway_q := (10, [GW_RegionParamsChanged sample_region_params])\<rparr>, [])"
    by (simp add: sv_step_def dispatcher_do_def sample_ext_server_def list_mpsc_def sample_started_def)
  have 3: "sv_step ?X L_GatewayMessage (?s\<lparr>sv_phase := ?ph, gateway_q := (10, [GW_RegionParamsChanged sample_region_params])\<rparr>) =
      Some (?s\<lparr>sv_phase := ?ph, sv_gateway := ?g, gateway_out := [GE_BeaconerRegion sample_region_params]\<rparr>, [])"
    by (simp add: sv_step_def gateway_ready_def gateway_input_def g_step_def g_handle_message_def sample_ext_server_def
        list_mpsc_def sample_started_def)
  have 4: "sv_step ?X L_GatewayEffect (?s\<lparr>sv_phase := ?ph, sv_gateway := ?g, gateway_out := [GE_BeaconerRegion sample_region_params]\<rparr>) =
      Some (?s\<lparr>sv_phase := ?ph, sv_gateway := ?g, beaconer_q := (10, [BM_RegionParamsChanged sample_region_params])\<rparr>, [])"
    by (simp add: sv_step_def gateway_do_def sample_ext_server_def list_mpsc_def sample_started_def)
  have 5: "sv_step ?X L_BeaconerMessage (?s\<lparr>sv_phase := ?ph, sv_gateway := ?g,
      beaconer_q := (10, [BM_RegionParamsChanged sample_region_params])\<rparr>) = Some (sample_connected, [])"
    by (simp add: sv_step_def beaconer_ready_def beaconer_input_def bc_handle_message_def handle_region_params_def
        sample_ext_server_def list_mpsc_def sample_started_def sample_connected_def)
  show ?thesis by (simp add: connect_labels_def 1 2 3 4 5)
qed

text \<open>A beacon frame is received and witnessed.\<close>

definition sample_beacon_frame :: RxPk where
  "sample_beacon_frame = sample_rxpk [0xE0, 1, 2, 3, 4, 5, 6, 7, 8, 9, 10, 11]"

lemma sample_beacon_packet:
  obtains p where "Packet_from_rxpk (radio sample_udp) sample_beacon_frame = Ok p" "is_potential_beacon p"
    and "p_payload p = [0xE0, 1, 2, 3, 4, 5, 6, 7, 8, 9, 10, 11]" "p_datarate p = ''SF7BW125''"
proof -
  let ?f = "\<lparr>mhdr = MHDR 0xE0, phy_payload = Frame_Proprietary [1, 2, 3, 4, 5, 6, 7, 8, 9, 10, 11], mic = None\<rparr>"
  have ok: "PHYPayload_ok Dir_Uplink ?f"
    by (simp add: PHYPayload_ok_def PHYPayload_mtype_def bit_range_def MType_from_u8_def DATA_MIN_LEN_def
        mask_eq_exp_minus_1)
  have "rx_crc sample_beacon_frame = CRC_OK" "cflist_ok (phy_payload ?f) []"
    "rx_data sample_beacon_frame = PHYPayload_wire ?f []"
    by (simp_all add: sample_beacon_frame_def sample_rxpk_def cflist_ok_def PHYPayload_wire_def mic_wire_def)
  from Packet_from_rxpk_wire [OF this(1) ok this(2,3), of "radio sample_udp"]
  obtain p where p: "Packet_from_rxpk (radio sample_udp) sample_beacon_frame = Ok p" "is_potential_beacon p" by auto
  with Packet_from_rxpk_received [OF p(1)] that show ?thesis by (simp add: sample_beacon_frame_def sample_rxpk_def)
qed

definition witness_labels :: "sv_label list" where
  "witness_labels = [L_Udp (UE_PacketReceived sample_beacon_frame []), L_GatewayEffect, L_BeaconerMessage, L_BeaconerEffect]"

lemma sample_witnessed:
  "\<exists>s r. sv_run sample_ext_server witness_labels sample_connected = Some (s, [O_Ingest (BX_SubmitWitness [2] r)])"
proof -
  let ?X = sample_ext_server
  let ?s = sample_connected
  obtain p where p: "Packet_from_rxpk (radio sample_udp) sample_beacon_frame = Ok p" "is_potential_beacon p"
    "p_payload p = [0xE0, 1, 2, 3, 4, 5, 6, 7, 8, 9, 10, 11]" "p_datarate p = ''SF7BW125''"
    by (rule sample_beacon_packet)
  have "\<exists>r. to_witness_report sample_radio p = Ok r"
    by (simp add: witness_report_Ok_iff p sample_radio_def bit_range_def MType_from_u8_def mask_eq_exp_minus_1)
  then obtain r where r: "to_witness_report sample_radio p = Ok r" ..
  have 1: "sv_step ?X (L_Udp (UE_PacketReceived sample_beacon_frame [])) ?s = Some (?s\<lparr>gateway_out := [GE_ReceivedBeacon p]\<rparr>, [])"
    by (simp add: sv_step_def gateway_ready_def gateway_input_def g_step_def handle_udp_event_def sample_ext_server_def
        p(1,2) sample_connected_def sample_started_def)
  have 2: "sv_step ?X L_GatewayEffect (?s\<lparr>gateway_out := [GE_ReceivedBeacon p]\<rparr>) =
      Some (?s\<lparr>beaconer_q := (10, [BM_ReceivedBeacon p])\<rparr>, [])"
    by (simp add: sv_step_def gateway_do_def sample_ext_server_def list_mpsc_def sample_connected_def sample_started_def)
  obtain r' where 3: "sv_step ?X L_BeaconerMessage (?s\<lparr>beaconer_q := (10, [BM_ReceivedBeacon p])\<rparr>) =
      Some (?s\<lparr>beaconer_out := [BX_SubmitWitness [2] r']\<rparr>, [])"
    by (simp add: sv_step_def beaconer_ready_def beaconer_input_def bc_handle_message_def handle_received_beacon_def
        sample_ext_server_def list_mpsc_def sample_connected_def sample_started_def sample_beaconer_ext_def r
        submit_witness_def WitnessReport_sign_def msg_sign_cases Beaconer_new_def sample_keypair_def sample_poc_def Let_def)
  have 4: "sv_step ?X L_BeaconerEffect (?s\<lparr>beaconer_out := [BX_SubmitWitness [2] r']\<rparr>) =
      Some (?s, [O_Ingest (BX_SubmitWitness [2] r')])"
    by (simp add: sv_step_def beaconer_do_def sample_connected_def sample_started_def)
  show ?thesis by (simp add: witness_labels_def 1 2 3 4)
qed

lemma sample_beaconing:
  "beaconing (sx_beaconer sample_ext_server) (sv_beaconer sample_connected)"
proof -
  let ?b = "sv_beaconer sample_connected"
  let ?Y = sample_beaconer_ext
  have "\<exists>w' beacon eff. send_beacon ?Y ?b () = Some (w', BX_Transmit beacon # eff)"
  proof -
    have e: "get_entropy ?Y (bc_entropy_uri ?b) () = (Ok sample_entropy, ())"
      by (simp add: get_entropy_def curl_get_def sample_beaconer_ext_def entropy_from_slice_def entropy_roundtrip [OF sample_b64_ok])
    have o: "bx_os_bytes ?Y () = (\<lambda>n. replicate n 5, ())" "bx_time ?Y () = (Inr 20000000000, ())"
      by (simp_all add: sample_beaconer_ext_def)
    have "beacon_possible ?b (Ok sample_entropy) (Inr 20000000000) (Inr 20000000000)"
      by (simp add: beacon_possible_def sample_connected_def sample_region_params_def sample_entropy_def)
    with send_beacon_cases [OF sample_beaconer_ok(1) e o o(2)] show ?thesis by auto
  qed
  then show ?thesis by (simp add: beaconing_def sample_ext_server_def)
qed

text \<open>A routing update makes the router known, and a data frame for it is received.\<close>

definition routing_labels :: "sv_label list" where
  "routing_labels = [L_Dispatcher (RU_Connected (DI_Stream (Some (GS_Routing, Ok (sample_routing_resp 5))))), L_DispatcherEffect]"

definition sample_routed ::
  "(unit, nat \<times> gw_message list, nat \<times> d_message list, nat \<times> beaconer_message list, nat \<times> rc_message list) server" where
  "sample_routed = sample_connected\<lparr>
     sv_dispatcher := sample_dispatcher\<lparr>d_seed_gateways := [\<lparr>ku_uri = [104], ku_pubkey = [1]\<rparr>], cache_max_packets := 20,
       routing_height := 5, routers := [(sample_key, sample_entry)], next_channel := 1\<rparr>,
     sv_clients := [0 \<mapsto> \<lparr>rc_uri = \<lparr>ku_uri = [104], ku_pubkey = [1]\<rparr>, rc_oui = 1, rc_region = Region 0,
       rc_keypair = sample_keypair, rc_store = RouterStore_new 20\<rparr>]\<rparr>"

lemma sample_route: "sv_run sample_ext_server routing_labels sample_connected = Some (sample_routed, [])"
proof -
  let ?d = "sample_dispatcher\<lparr>d_seed_gateways := [\<lparr>ku_uri = [104], ku_pubkey = [1]\<rparr>], cache_max_packets := 20\<rparr>"
  let ?d' = "?d\<lparr>routing_height := 5, routers := [(sample_key, sample_entry)], next_channel := 1\<rparr>"
  let ?c = "\<lparr>rc_uri = \<lparr>ku_uri = [104], ku_pubkey = [1]\<rparr>, rc_oui = 1, rc_region = Region 0,
       rc_keypair = sample_keypair, rc_store = RouterStore_new 20\<rparr>"
  have u: "handle_routing_update sample_net ?d (sample_routing_resp 5) = Ok (?d', [Eff_Spawn 0 ?c])"
    using sample_net_routing [where m = 20] by simp
  have s: "sv_dispatcher sample_connected = ?d" "sv_phase sample_connected = Ph_Connected \<lparr>gs_uri = \<lparr>ku_uri = [104], ku_pubkey = [1]\<rparr>\<rparr>"
    "sv_world sample_connected = ()" "sv_result sample_connected = None" "sv_returned sample_connected = {}"
    "dispatcher_out sample_connected = []" by (simp_all add: sample_connected_def sample_started_def)
  have 1: "sv_step sample_ext_server (L_Dispatcher (RU_Connected (DI_Stream (Some (GS_Routing, Ok (sample_routing_resp 5)))))) sample_connected =
      Some (sample_connected\<lparr>sv_dispatcher := ?d', dispatcher_out := [Eff_Spawn 0 ?c]\<rparr>, [])"
    using u by (simp add: sv_step_def dispatcher_ready_def takes_message_def dispatcher_input_def d_step_def s
        run_with_gateway_step_def sample_ext_server_def)
  have 2: "sv_step sample_ext_server L_DispatcherEffect (sample_connected\<lparr>sv_dispatcher := ?d', dispatcher_out := [Eff_Spawn 0 ?c]\<rparr>) =
      Some (sample_routed, [])"
    by (simp add: sv_step_def dispatcher_do_def sample_ext_server_def list_mpsc_def sample_routed_def sample_connected_def
        sample_started_def fun_eq_iff)
  show ?thesis using sv.run_ConsI [OF 1 sv.run_ConsI [OF 2 sv.run_Nil]] by (simp add: routing_labels_def)
qed

definition sample_data_frame :: RxPk where
  "sample_data_frame = sample_rxpk (PHYPayload_wire \<lparr>mhdr = MHDR 0x40, phy_payload = Frame_MACPayload
     \<lparr>fhdr = \<lparr>dev_addr = 1024, fctrl = FCtrl_Uplink (FCtrlUplink 0), fcnt = 0, fopts = []\<rparr>, fport = None, frm_payload = None\<rparr>,
     mic = Some [1, 2, 3, 4]\<rparr> [])"

lemma sample_data_frame_packet:
  obtains p where "Packet_from_rxpk (radio sample_udp) sample_data_frame = Ok p" "\<not> is_potential_beacon p"
    and "p_routing p = Some \<lparr>ri_data = Some (RD_Devaddr 1024)\<rparr>"
proof -
  let ?f = "\<lparr>mhdr = MHDR 0x40, phy_payload = Frame_MACPayload
     \<lparr>fhdr = \<lparr>dev_addr = 1024, fctrl = FCtrl_Uplink (FCtrlUplink 0), fcnt = 0, fopts = []\<rparr>, fport = None, frm_payload = None\<rparr>,
     mic = Some [1, 2, 3, 4]\<rparr>"
  have ok: "PHYPayload_ok Dir_Uplink ?f"
    by (simp add: PHYPayload_ok_def PHYPayload_mtype_def bit_range_def MType_from_u8_def MACPayload_ok_def Fhdr_ok_def
        mic_ok_def data_type_def mask_eq_exp_minus_1)
  have "rx_crc sample_data_frame = CRC_OK" "cflist_ok (phy_payload ?f) []" "rx_data sample_data_frame = PHYPayload_wire ?f []"
    by (simp_all add: sample_data_frame_def sample_rxpk_def cflist_ok_def)
  from Packet_from_rxpk_wire [OF this(1) ok this(2,3), of "radio sample_udp"] that show ?thesis by auto
qed

lemma sample_data_packet_routing:
  assumes "Packet_from_rxpk (radio sample_udp) sample_data_frame = Ok p"
  shows "\<not> is_potential_beacon p \<and> p_routing p = Some \<lparr>ri_data = Some (RD_Devaddr 1024)\<rparr>"
proof -
  obtain q where "Packet_from_rxpk (radio sample_udp) sample_data_frame = Ok q" "\<not> is_potential_beacon q"
    "p_routing q = Some \<lparr>ri_data = Some (RD_Devaddr 1024)\<rparr>" by (rule sample_data_frame_packet)
  with assms show ?thesis by simp
qed

lemma sample_data_packet:
  obtains p where "Packet_from_rxpk (radio sample_udp) sample_data_frame = Ok p" "\<not> is_potential_beacon p"
    and "uplink_targets sample_hash (sv_dispatcher sample_routed) p = {sample_key}"
proof -
  obtain p where p: "Packet_from_rxpk (radio sample_udp) sample_data_frame = Ok p" "\<not> is_potential_beacon p"
    "p_routing p = Some \<lparr>ri_data = Some (RD_Devaddr 1024)\<rparr>" by (rule sample_data_frame_packet)
  have "{k. \<exists>r. router_table (sv_dispatcher sample_routed) k = Some r \<and> matches_routing_info sample_hash r (p_routing p)} = {sample_key}"
    by (auto simp: router_table_def sample_routed_def sample_entry_def matches_routing_info_def p(3)
        DevAddrFilter_contains_def BITS_23_def split: if_splits)
  then have "uplink_targets sample_hash (sv_dispatcher sample_routed) p = {sample_key}" by (simp add: uplink_targets_def)
  with p(1,2) that show ?thesis by blast
qed

text \<open>The data frame reaches the router's client.\<close>

definition uplink_labels :: "sv_label list" where
  "uplink_labels = [L_Udp (UE_PacketReceived sample_data_frame []), L_GatewayEffect, L_DispatcherMessage, L_DispatcherEffect]"

definition sample_uplinked ::
  "Packet \<Rightarrow> (unit, nat \<times> gw_message list, nat \<times> d_message list, nat \<times> beaconer_message list, nat \<times> rc_message list) server" where
  "sample_uplinked p = sample_routed\<lparr>client_q := (\<lambda>_. (10, []))(0 := (10, [RM_Uplink p 12]))\<rparr>"

lemma sample_uplink:
  assumes "Packet_from_rxpk (radio sample_udp) sample_data_frame = Ok p"
  shows "sv_run sample_ext_server uplink_labels sample_routed = Some (sample_uplinked p, [])"
proof -
  let ?X = sample_ext_server
  let ?s = sample_routed
  note p = assms sample_data_packet_routing [OF assms]
  have s: "sv_result ?s = None" "sv_returned ?s = {}" "gateway_out ?s = []" "dispatcher_out ?s = []" "sv_world ?s = ()"
    "dispatcher_q ?s = (20, [])" "client_q ?s = (\<lambda>_. (10, []))"
    "sv_phase ?s = Ph_Connected \<lparr>gs_uri = \<lparr>ku_uri = [104], ku_pubkey = [1]\<rparr>\<rparr>"
    by (simp_all add: sample_routed_def sample_connected_def sample_started_def)
  obtain c where c: "sv_clients ?s 0 = Some c" by (simp add: sample_routed_def)
  have u: "d_handle_uplink sample_hash (sv_dispatcher ?s) p 12 = [Eff_Router 0 (RM_Uplink p 12)]"
    using p(2) by (simp add: d_handle_uplink_def sample_routed_def sample_entry_def matches_routing_info_def
        DevAddrFilter_contains_def BITS_23_def Let_def)
  have 1: "sv_step ?X (L_Udp (UE_PacketReceived sample_data_frame [])) ?s = Some (?s\<lparr>gateway_out := [GE_Uplink p 12]\<rparr>, [])"
    using p by (simp add: sv_step_def gateway_ready_def gateway_input_def g_step_def handle_udp_event_def g_handle_uplink_def
        sample_ext_server_def s) (simp add: sample_udp_def)
  have 2: "sv_step ?X L_GatewayEffect (?s\<lparr>gateway_out := [GE_Uplink p 12]\<rparr>) = Some (?s\<lparr>dispatcher_q := (20, [DM_Uplink p 12])\<rparr>, [])"
    by (simp add: sv_step_def gateway_do_def sample_ext_server_def list_mpsc_def s)
  have 3: "sv_step ?X L_DispatcherMessage (?s\<lparr>dispatcher_q := (20, [DM_Uplink p 12])\<rparr>) =
      Some (?s\<lparr>dispatcher_out := [Eff_Router 0 (RM_Uplink p 12)]\<rparr>, [])"
    by (simp add: sv_step_def dispatcher_ready_def dispatcher_input_def message_input_def d_step_def run_with_gateway_step_def
        d_handle_message_def sample_ext_server_def list_mpsc_def s u)
  have 4: "sv_step ?X L_DispatcherEffect (?s\<lparr>dispatcher_out := [Eff_Router 0 (RM_Uplink p 12)]\<rparr>) = Some (sample_uplinked p, [])"
    by (simp add: sv_step_def dispatcher_do_def sample_ext_server_def list_mpsc_def s c sample_uplinked_def)
  show ?thesis
    using sv.run_ConsI [OF 1 sv.run_ConsI [OF 2 sv.run_ConsI [OF 3 sv.run_ConsI [OF 4 sv.run_Nil]]]] by (simp add: uplink_labels_def)
qed

text \<open>What the answer of its router needs to be transmitted.\<close>

definition sample_tx :: TxPk where
  "sample_tx = \<lparr>imme = False, ipol = True, modu = LORA, codr = CR_4_5, datr = p_datarate sample_downlink,
     freq = fp_convert F64 (p_frequency sample_downlink), tx_data = p_payload sample_downlink,
     tx_size = of_nat (length (p_payload sample_downlink)), powe = 34, rfch = 0,
     tmst = Some (SN_N (ucast (p_timestamp sample_downlink))),
     tmms = None, fdev = None, prea = None, ncrc = None\<rparr>"

lemma sample_answer_ready:
  "gateway_ready (sample_uplinked p)" "mp_contents (sx_gateway_ch sample_ext_server) (gateway_q (sample_uplinked p)) = []"
  "g_region_params (sv_gateway (sample_uplinked p)) = Some sample_region_params"
  "g_downlink_mac (sv_gateway (sample_uplinked p)) = replicate 8 0"
  "mp_contents (sx_client_ch sample_ext_server) (client_q (sample_uplinked p) 0) = [RM_Uplink p 12]"
  "client_ready 0 (sample_uplinked p)"
  by (simp_all add: sample_uplinked_def sample_routed_def sample_connected_def sample_started_def gateway_ready_def
      client_ready_def sample_ext_server_def list_mpsc_def Gateway_new_def)

lemma sample_answer:
  "tx_power (decimals (sx_udp sample_ext_server)) sample_region_params = Some 34"
  "to_pull_resp (radio (sx_udp sample_ext_server)) sample_downlink False 34 = Ok (Some sample_tx)"
  "window_datarate_ok (radio (sx_udp sample_ext_server)) dr"
  "answers_with (sx_router sample_ext_server u) sample_downlink" "signs sample_keypair"
proof -
  have f: "\<lfloor>174 / 5 :: rat\<rfloor> = 34" by (rule floor_unique) simp_all
  show "tx_power (decimals (sx_udp sample_ext_server)) sample_region_params = Some 34"
    by (simp add: sample_ext_server_def sample_region_params_def sample_udp_def tx_power_def max_eirp_def rat_decimal_def f)
  show "to_pull_resp (radio (sx_udp sample_ext_server)) sample_downlink False 34 = Ok (Some sample_tx)"
    by (simp add: to_pull_resp_rx1 sample_ext_server_def sample_udp_def sample_radio_def sample_tx_def)
  show "window_datarate_ok (radio (sx_udp sample_ext_server)) dr"
    by (simp add: window_datarate_ok_def sample_ext_server_def sample_udp_def sample_radio_def)
  show "answers_with (sx_router sample_ext_server u) sample_downlink"
    by (simp add: answers_with_def sample_ext_server_def sample_router_def)
  show "signs sample_keypair" by (simp add: signs_def sample_keypair_def)
qed

lemma sample_uplinked_client:
  obtains c where "sv_clients (sample_uplinked p) 0 = Some c" "waiting_packets (rc_store c) = []" "0 < max_packets (rc_store c)"
    "rc_keypair c = sample_keypair"
  by (simp add: sample_uplinked_def sample_routed_def RouterStore_new_def)

definition sample_labels :: "sv_label list" where
  "sample_labels = connect_labels @ routing_labels @ uplink_labels"

lemma sample_run:
  assumes "Packet_from_rxpk (radio sample_udp) sample_data_frame = Ok p"
  shows "sv_run sample_ext_server sample_labels sample_started = Some (sample_uplinked p, [])"
  using sv.run_append [OF sample_connect sv.run_append [OF sample_route sample_uplink [OF assms]]] by (simp add: sample_labels_def)

definition answer_labels :: "sv_label list" where
  "answer_labels = [L_ClientMessage 0, L_ClientEffect 0, L_ClientEffect 0, L_GatewayMessage, L_GatewayEffect]"

lemma sample_answered:
  assumes "Packet_from_rxpk (radio sample_udp) sample_data_frame = Ok p"
  shows "\<exists>s' m. sv_run sample_ext_server (sample_labels @ answer_labels) sample_started =
      Some (s', [O_Router 0 m, O_Radio (replicate 8 0) sample_tx])"
proof -
  let ?s = "sample_uplinked p"
  have q: "queues_within sample_ext_server ?s"
    using bounded.run_inv [OF sample_run [OF assms]] server_start_Ok [OF sample_start sample_channels_ok, of "{}" "{}"]
      sample_channels_ok by (auto simp: list_all_iff)
  obtain c where c: "sv_clients ?s 0 = Some c" "waiting_packets (rc_store c) = []" "0 < max_packets (rc_store c)"
    "rc_keypair c = sample_keypair" by (rule sample_uplinked_client)
  have r: "sv_result ?s = None" "client_out ?s 0 = []" using sample_answer_ready(6) [of p] by (simp_all add: client_ready_def)
  from answer_transmitted [OF sample_channels_ok q r(1) c(1) r(2) c(2,3) _ sample_answer(4) sample_answer_ready(5,1-3)
      sample_answer(1-3)] sample_answer(5) c(4)
  obtain s' m where "sv_run sample_ext_server answer_labels ?s = Some (s', [O_Router 0 m, O_Radio (replicate 8 0) sample_tx])"
    by (auto simp: answer_labels_def sample_answer_ready(4) simp del: sv_run.simps)
  from sv.run_append [OF sample_run [OF assms] this] show ?thesis by auto
qed

text \<open>A request of the local API on its way.\<close>

definition ask_labels :: "sv_label list" where
  "ask_labels = [L_ApiReceive (DM_Region 5), L_ApiReceive (DM_Height 6), L_ApiRequest (DM_Region 5), L_ApiRequest (DM_Height 6),
     L_DispatcherMessage, L_DispatcherEffect]"

definition sample_half_answered ::
  "(unit, nat \<times> gw_message list, nat \<times> d_message list, nat \<times> beaconer_message list, nat \<times> rc_message list) server" where
  "sample_half_answered = sample_connected\<lparr>dispatcher_q := (20, [DM_Height 6]), api_flight := {6}, api_next := 7\<rparr>"

lemma sample_asked:
  "sv_run sample_ext_server (connect_labels @ ask_labels) sample_started =
     Some (sample_half_answered, [O_Reply 5 (Reply_Region (Ok (Region 0)))])"
proof -
  let ?X = sample_ext_server
  let ?s = sample_connected
  have s: "sv_result ?s = None" "sv_returned ?s = {}" "dispatcher_out ?s = []" "sv_world ?s = ()"
    "dispatcher_q ?s = (20, [])" "d_region (sv_dispatcher ?s) = Region 0" "api_wait ?s = []" "api_flight ?s = {}" "api_next ?s = 0"
    "sv_phase ?s = Ph_Connected \<lparr>gs_uri = \<lparr>ku_uri = [104], ku_pubkey = [1]\<rparr>\<rparr>"
    by (simp_all add: sample_connected_def sample_started_def sample_dispatcher_def)
  let ?q = "?s\<lparr>dispatcher_q := (20, [DM_Region 5, DM_Height 6]), api_flight := {5, 6}, api_next := 7\<rparr>"
  have 1: "sv_run ?X [L_ApiReceive (DM_Region 5), L_ApiReceive (DM_Height 6), L_ApiRequest (DM_Region 5), L_ApiRequest (DM_Height 6)] ?s =
      Some (?q, [])"
    by (simp add: sv_step_def api_receive_def message_response_def is_uplink_request_def sample_ext_server_def list_mpsc_def s
        insert_commute)
  have 2: "sv_step ?X L_DispatcherMessage ?q =
      Some (?q\<lparr>dispatcher_q := (20, [DM_Height 6]), dispatcher_out := [Eff_Reply 5 (Reply_Region (Ok (Region 0)))]\<rparr>, [])"
    by (simp add: sv_step_def dispatcher_ready_def dispatcher_input_def message_input_def d_step_def run_with_gateway_step_def
        d_handle_message_def sample_ext_server_def list_mpsc_def s)
  have 3: "sv_step ?X L_DispatcherEffect
      (?q\<lparr>dispatcher_q := (20, [DM_Height 6]), dispatcher_out := [Eff_Reply 5 (Reply_Region (Ok (Region 0)))]\<rparr>) =
      Some (sample_half_answered, [O_Reply 5 (Reply_Region (Ok (Region 0)))])"
    by (simp add: sv_step_def dispatcher_do_def sample_half_answered_def s)
  show ?thesis
    using sv.run_append [OF sample_connect sv.run_append [OF 1 sv.run_ConsI [OF 2 sv.run_ConsI [OF 3 sv.run_Nil]]]]
    by (simp add: ask_labels_def)
qed

text \<open>The dispatcher is told to shut down while a request is still waiting in its channel.\<close>

definition dispatcher_down_labels :: "sv_label list" where
  "dispatcher_down_labels = [L_Dispatcher (RU_Connected DI_Shutdown), L_Dispatcher (RU_Wait WI_Triggered),
     L_Dispatcher (RU_Select SI_Triggered)]"

lemma sample_dispatcher_down:
  "\<exists>s. sv_run sample_ext_server dispatcher_down_labels sample_half_answered = Some (s, []) \<and>
     T_Dispatcher \<in> sv_returned s \<and> 6 \<in> api_flight s \<and> gateway_ready s"
proof -
  let ?s = sample_half_answered
  have s: "sv_result ?s = None" "sv_returned ?s = {}" "dispatcher_out ?s = []" "api_flight ?s = {6}" "gateway_out ?s = []"
    "sv_phase ?s = Ph_Connected \<lparr>gs_uri = \<lparr>ku_uri = [104], ku_pubkey = [1]\<rparr>\<rparr>"
    by (simp_all add: sample_half_answered_def sample_connected_def sample_started_def)
  have wt: "prepare_gateway_change H V B d WI_Triggered w = (d, 0, w, [])" for H B d w and V :: "unit gw_ext"
    by (simp add: prepare_gateway_change_def)
  show ?thesis
    by (simp add: dispatcher_down_labels_def sv_step_def dispatcher_ready_def takes_message_def dispatcher_input_def d_step_def
        run_with_gateway_step_def select_step_def wt s finish_def Let_def gateway_ready_def all_tasks_def)
qed

end
