(* ===== verification/Program_Example.thy ===== *)
theory Program_Example
  imports Server_Panics Server_Example
begin

text \<open>
  The program around the example of a server: settings that load, a logger and a runtime that
  start, and the server command.
\<close>

definition sample_settings_ext :: "(unit, unit) settings_ext" where
  "sample_settings_ext =
     \<lparr>stx_load = (\<lambda>_ w. (Inr
        \<lparr>sf_listen = None, sf_api = None, sf_keypair = ''k'', sf_onboarding = None, sf_region = ''US915'',
         sf_log_level = ''info'', sf_log_method = ''stdio'', sf_log_timestamp = False, sf_update_enabled = True,
         sf_update_interval = 10, sf_update_channel = ''alpha'', sf_update_platform = ''klkgw'', sf_update_uri = ''u'',
         sf_update_command = ''install'', sf_routers = None, sf_gateways = [\<lparr>ku_uri = [104], ku_pubkey = [1]\<rparr>],
         sf_max_packets = 20, sf_entropy_uri = [1], sf_ingest_uri = [2], sf_beacon_interval = None\<rparr>, w)),
      stx_keypair = sample_keys\<lparr>
        kx_uri_parse := (\<lambda>s. Inr \<lparr>pu_scheme = None, pu_path = s, pu_query = None, pu_host = None, pu_port = None, pu_text = s\<rparr>),
        kx_read := (\<lambda>_ w. (Inr [7], w))\<rparr>,
      stx_regions = sample_regions, stx_level = (\<lambda>_. Some ()), stx_version = sample_version 0\<rparr>"

lemma sample_settings_new: "Settings_new sample_settings_ext path () = (Ok sample_server_settings, ())"
proof -
  have "Channel_deserialize (sample_version 0) ''alpha'' = Ok Alpha"
    using Channel_deserialize_display [of "sample_version 0" Alpha] by simp
  moreover have "Region_deserialize sample_regions ''US915'' = Inr (Region 0)"
    by (simp add: Region_deserialize_def sample_regions_def)
  ultimately show ?thesis
    by (simp add: Settings_new_def Settings_deserialize_def sample_settings_ext_def Keypair_deserialize_def Keypair_from_str_def
        keypair_from_file_def load_from_file_def sample_keys_def LogSettings_deserialize_def Level_deserialize_def
        LogMethod_deserialize_words UpdateSettings_deserialize_def PocSettings_deserialize_def sample_server_settings_def
        sample_settings_def sample_poc_def default_beacon_interval_def)
qed

definition sample_program ::
  "(unit, unit, rat, unit, nat \<times> gw_message list, nat \<times> d_message list, nat \<times> beaconer_message list, nat \<times> rc_message list) program_ext" where
  "sample_program = \<lparr>px_daemonize = (\<lambda>_ w. (Daemon_parent, w)), px_settings = sample_settings_ext,
     px_syslog = (\<lambda>w. (Inr (), w)), px_log_init = (\<lambda>w. (Inr (), w)), px_runtime = (\<lambda>w. (Inr (), w)),
     px_debug = (\<lambda>_. ''e''), px_client = client_of sample_api sample_server sample_regions, px_info = sample_info_ext,
     px_server = sample_ext_server\<rparr>"

definition sample_cli :: Cli where
  "sample_cli = \<lparr>cli_config = ''/etc/helium_gateway'', cli_daemon = False, cli_stdin = False, cli_cmd = Cmd_Server\<rparr>"

lemma sample_main:
  assumes "p_run sample_ext_server False ls \<lparr>pr_triggered = False, pr_server = sample_started\<rparr> = Some (p, [])"
    and "sv_result (pr_server p) = Some (Ok ())"
  shows "main sample_program sample_cli ls () = Some (Exited 0, [], ())"
proof -
  have "Server_run sample_ext_server False ls sample_server_settings () = Some (Ok (), [], ())"
    using assms by (simp add: Server_run_def sample_start)
  then show ?thesis
    by (simp add: main_def main_with_def run_def sample_program_def sample_cli_def sample_settings_new mk_logger_def
        sample_server_settings_def [symmetric] Let_def split: LogMethod.split)
qed

lemma sample_at_rest:
  "sv_result sample_started = None" "beaconer_out sample_started = []" "gateway_out sample_started = []"
  "dispatcher_out sample_started = []" "api_flight sample_started = {}" "timers_run sample_started"
  by (simp_all add: sample_started_def timers_run_def)

text \<open>A routing entry with a subnet that is too short.\<close>

definition sample_bad_routing :: GatewayResp where
  "sample_bad_routing = \<lparr>gr_height = 1, gr_block_age = 0, gr_signature = [42],
      gr_msg = Some (GM_RoutingStreamed [\<lparr>pr_oui = 1, pr_addresses = [], pr_filters = [], pr_subnets = [[]]\<rparr>])\<rparr>"

definition panic_labels :: "sv_label list" where
  "panic_labels = [L_Dispatcher (RU_Connected (DI_Stream (Some (GS_Routing, Ok sample_bad_routing))))]"

lemma sample_panics: "\<exists>s. sv_run sample_ext_server panic_labels sample_connected = Some (s, []) \<and> sv_result s = Some Panic"
proof -
  let ?s = sample_connected
  have s: "sv_result ?s = None" "sv_returned ?s = {}" "dispatcher_out ?s = []" "routing_height (sv_dispatcher ?s) = 0"
    "sv_phase ?s = Ph_Connected \<lparr>gs_uri = \<lparr>ku_uri = [104], ku_pubkey = [1]\<rparr>\<rparr>"
    by (simp_all add: sample_connected_def sample_started_def sample_dispatcher_def)
  have "handle_routing_update V (sv_dispatcher ?s) sample_bad_routing = Panic" for V :: "unit gw_ext"
    using update_routings_panic [of "addr V" "[\<lparr>pr_oui = 1, pr_addresses = [], pr_filters = [], pr_subnets = [[]]\<rparr>]" "sv_dispatcher ?s"]
    by (simp add: handle_routing_update_def response_routings_def sample_bad_routing_def s proto_ok_def del: update_routings.simps)
  then show ?thesis
    by (simp add: panic_labels_def sv_step_def dispatcher_ready_def takes_message_def dispatcher_input_def d_step_def
        run_with_gateway_step_def s finish_def)
qed

lemma sample_beacons_safe: "beacons_safe sample_ext_server"
  using sample_beaconer_ok
  by (simp add: beacons_safe_def sample_ext_server_def window_datarate_ok_def sample_udp_def sample_radio_def)

end
