(* ===== verification/Spec2Isabelle.thy ===== *)
theory Spec2Isabelle
  imports Subnet_Props Program_Example
begin

text \<open>
  Verification of gateway-rs, the Helium light gateway: a service that takes LoRaWAN frames from a
  packet forwarder over UDP, sends them to the routers that have subscribed to them, passes the
  routers' answers back to the radio, and takes part in proof of coverage by sending and
  witnessing beacons.

  \<^bold>\<open>The program.\<close> Two library crates, \<^verbatim>\<open>lorawan\<close> (frames and device addresses) and \<^verbatim>\<open>beacon\<close>, and
  the program itself under \<^verbatim>\<open>src/src\<close>. A running server is five tasks joined in \<^verbatim>\<open>server.rs\<close>: the
  \<^emph>\<open>gateway\<close> owns the UDP socket, hands data and join frames to the dispatcher and possible beacons to the
  beaconer, and transmits downlinks and beacons; the \<^emph>\<open>dispatcher\<close> keeps a connection to a validator,
  from which it learns the routers and the region, and one \<^emph>\<open>router client\<close> task per organization and
  router address, which queues and sends uplinks; the \<^emph>\<open>beaconer\<close> makes beacons from local and remote
  entropy and reports beacons sent and witnessed; the \<^emph>\<open>updater\<close> installs releases; the \<^emph>\<open>local API\<close>
  answers the command line. Tasks talk through bounded channels only. \<^verbatim>\<open>main.rs\<close> loads the settings
  and runs one command, of which the server is one.

  \<^bold>\<open>The theories\<close>, each with the files under \<^verbatim>\<open>src/\<close> it models; definitions keep the names of the code,
  prefixed by the type or a short form of the module where two would clash.
  \<^item> \<open>Prelude\<close>, \<open>Strings\<close>, \<open>Floats\<close>: machine integers, the outcome type \<open>rresult\<close> (\<open>Ok\<close>, \<open>Err\<close>, \<open>Panic\<close>), byte
    readers, UTF-8, the operations on \<^verbatim>\<open>str\<close>, the choice of a base 64 encoding (\<^verbatim>\<open>src/traits/base64.rs\<close>),
    IEEE 754 arithmetic.
  \<^item> \<open>LoraWan\<close> (\<^verbatim>\<open>lorawan/src/lib.rs\<close>, \<^verbatim>\<open>error.rs\<close>) and \<open>LoraWan_Wire\<close>: the readers and writers of frames, and
    the wire format they are checked against; locale \<open>codec\<close> with its instances.
  \<^item> \<open>Subnet\<close>, \<open>Subnet_Props\<close> (\<^verbatim>\<open>lorawan/src/subnet.rs\<close>): device address arithmetic; locale \<open>address_split\<close>.
  \<^item> \<open>Errors\<close>, \<open>Error_Display\<close> (\<^verbatim>\<open>src/error.rs\<close> and the error types of the two crates): the errors and their
    messages.
  \<^item> \<open>Filters\<close> (\<^verbatim>\<open>src/router/filter.rs\<close>), \<open>Routing\<close> (\<^verbatim>\<open>src/keyed_uri.rs\<close>, \<^verbatim>\<open>src/router/routing.rs\<close>), \<open>Packets\<close>
    (\<^verbatim>\<open>src/packet.rs\<close>), \<open>Regions\<close> (\<^verbatim>\<open>src/region.rs\<close>): which router a packet is for, the conversions of
    packets, transmit power.
  \<^item> \<open>Router_Store\<close> (\<^verbatim>\<open>src/router/store.rs\<close>): the queue of a router client; locale \<open>bounded_queue\<close>, the
    contract \<open>Router_Client\<close> relies on.
  \<^item> \<open>State_Channel\<close> (\<^verbatim>\<open>src/state_channel\<close>, \<^verbatim>\<open>src/traits/msg_sign.rs\<close>, \<^verbatim>\<open>msg_verify.rs\<close>), \<open>Router_Client\<close>
    (\<^verbatim>\<open>src/router/client.rs\<close>, \<^verbatim>\<open>src/service/router.rs\<close>), \<open>Gateway_Service\<close> (\<^verbatim>\<open>src/service/gateway.rs\<close>,
    \<^verbatim>\<open>version.rs\<close>): signed messages, the client of a router, the client of a validator.
  \<^item> \<open>Dispatcher\<close>, \<open>Dispatcher_Props\<close> (\<^verbatim>\<open>src/router/dispatcher.rs\<close>): locale \<open>height_gate\<close> for its two streams.
  \<^item> \<open>Beacon\<close> (\<^verbatim>\<open>beacon/src\<close>), \<open>Curl\<close> (\<^verbatim>\<open>src/curl.rs\<close>), \<open>Beaconer\<close> (\<^verbatim>\<open>src/beaconer.rs\<close>, \<^verbatim>\<open>src/service/poc.rs\<close>,
    \<^verbatim>\<open>entropy.rs\<close>), \<open>Gateway_Udp\<close> (\<^verbatim>\<open>src/gateway.rs\<close>).
  \<^item> \<open>Txn_Fee\<close> (\<^verbatim>\<open>src/traits/txn_fee.rs\<close>, \<^verbatim>\<open>txn_envelope.rs\<close>), \<open>Local_Api\<close> (\<^verbatim>\<open>src/api\<close>): fees, and the local
    API with its client; locale \<open>config_source\<close>.
  \<^item> \<open>Releases\<close>, \<open>Updater\<close> (\<^verbatim>\<open>src/updater\<close>, \<^verbatim>\<open>src/cmd/update.rs\<close>), \<open>Keypair_File\<close> (\<^verbatim>\<open>src/keypair.rs\<close>), \<open>Settings\<close>
    (\<^verbatim>\<open>src/settings.rs\<close>), \<open>Info\<close> (\<^verbatim>\<open>src/cmd/info.rs\<close>, \<^verbatim>\<open>key.rs\<close>, \<^verbatim>\<open>add.rs\<close>; locale \<open>cache_slot\<close>).
  \<^item> \<open>Server\<close> (\<^verbatim>\<open>src/server.rs\<close>, \<^verbatim>\<open>src/sync.rs\<close> and the channel ends of the components): the tasks and channels
    as one machine. \<open>Server_Props\<close>, \<open>Server_Runs\<close> and \<open>Server_Clients\<close> hold its invariants and runs,
    \<open>Server_Radio\<close> what it transmits, \<open>Server_Api\<close> how it answers the local API; all are instances of the
    locales \<open>labelled_runs\<close>, \<open>run_invariant\<close> and \<open>run_account\<close> over runs, and of \<open>routing_change\<close> over routing
    updates. \<open>Server_Example\<close> is a concrete server.
  \<^item> \<open>Program\<close>, \<open>Program_Example\<close> (\<^verbatim>\<open>src/main.rs\<close>, \<^verbatim>\<open>src/cmd/server.rs\<close>): the whole program; \<open>Server_Panics\<close>: what
    can abort it.
  This theory holds the properties of the running server and of the program.

  \<^bold>\<open>How code is modelled.\<close> A struct is a record and an enum a datatype; an \<^verbatim>\<open>async fn\<close> that acts on the outside
  takes and returns a world \<open>'w\<close>, on which the functions of other crates and remote calls act as
  parameters, collected in a record per component (\<open>gw_ext\<close>, \<open>router_ext\<close>, \<open>server_ext\<close> and others); what a
  handler sends is returned as a list of effects. A panic is the outcome \<open>Panic\<close>, or \<open>None\<close> where there is
  no other failure, and ends the program (\<^verbatim>\<open>panic = "abort"\<close>). Integers have their width and wrap; \<^verbatim>\<open>usize\<close> is
  taken as 64 bits wide. A timer whose period is zero or beyond the clock panics when it is made. Maps with an
  unspecified order of iteration are lists of entries with distinct keys. The arms of a \<^verbatim>\<open>select!\<close> are the
  inputs of a step function, so that every order of events is a list of inputs.

  In \<open>Server\<close> a task takes an input only when it has carried out all effects of the last one, and a send
  waits while the channel is full; \<open>sv_step\<close> gives the move a label names, or \<open>None\<close> when the task cannot make
  it, and \<open>sv_run\<close> follows a list of labels. This takes the handling of one input, up to its effects, as
  one step: in the code a handler may also be suspended inside, between two remote calls, but the state
  it works on is its own, so other tasks cannot see it. A request of the local API is in flight from the
  moment its handler asks the dispatcher until it is answered or its client goes away, and after a
  shutdown the API waits for the requests in flight, as \<^verbatim>\<open>serve_with_shutdown\<close> does. In \<open>Program\<close> a task notices a shutdown only after the
  watcher has been told to trigger it.

  \<^bold>\<open>What is shown.\<close>
  \<^item> Frames: the reader accepts exactly the wire format and never panics; writing inverts it but for data
    frames, whose device address is written twice.
  \<^item> Addresses: splitting and composing are inverse; the numbering of subnets is a bijection.
  \<^item> Uplinks: what a received frame becomes, which routers get it, that the queue keeps the most recent
    packets, that every packet is accounted for and, while the router answers, delivered; over the running
    server, that a frame reaches the channels of its routers, and that all a router or the ingest service is
    told was received and verifies.
  \<^item> Routing: the dispatcher's map is refined by a function from keys to routing entries; its invariant over
    all steps; stream heights; malformed entries end the process. Over the running server, that every client
    serves the entry whose channel it reads.
  \<^item> Validators: results are used only when signed, with the exception found; the add-gateway transaction from
    the client through the API and the dispatcher to the validator and back.
  \<^item> Proof of coverage: the beacon of a tick and its report, witnesses, that short beacons are never witnessed.
  \<^item> Downlinks: the two receive windows; over the running server, that an answer of a router goes on the air,
    and that nothing is transmitted but answers to received packets and own beacons, to known forwarders and
    with the power of a region that a validator gave.
  \<^item> Commands, settings, keys, updates: the cached query equals the plain one, a key file is persistent, a check
    for updates ends and installs the first newer release.
  \<^item> The whole: the beaconer follows the region, requests of the local API are answered in order, when and why
    the program ends or panics, that an interrupt ends it from every state at rest, that a request in flight
    when the dispatcher returns keeps it from ending, and that two tasks can block each other for good.

  \<^bold>\<open>Hypotheses on code of others\<close> are named: \<open>mpsc_ok\<close> (channels are bounded and keep the order), \<open>verifies\<close>
  (signatures made with a key verify), \<open>beacon_ext_ok\<close> (hash length, choice from a list), \<open>beacons_safe\<close>
  (also, the data rate of beacons parses), \<open>decimal_exact\<close>,
  \<open>api_codecs_ok\<close> (decoding inverts encoding), \<open>b64_ok\<close>, \<open>serves_pages\<close> (the list of releases ends). Each is
  shown of the functions of an example, on which the properties that use it are applied.

  \<^bold>\<open>Termination.\<close> Recursion follows the data, with one exception: the search of the release stream may not end,
  and is a partial function whose result is proved to exist whenever the list of releases ends. Runs are
  over finite lists of inputs of any length, so there is no fuel.

  \<^bold>\<open>Not modelled.\<close> Time: beyond the check of their periods, intervals, timeouts and waits only appear as the
  inputs they cause, and a send has no deadline in the code. The operating system's random generator is taken
  to work; the code panics when it does not. Argument parsing, reading and merging configuration files, JSON and protobuf
  encodings, TLS and the transports, forking, logging and \<^verbatim>\<open>Debug\<close> output are done by other crates.
  Of the local API's transport its result and its wait for requests in flight are modelled, and of the
  concurrency of requests their order; requests that do not involve the dispatcher are answered at once. \<^verbatim>\<open>lib.rs\<close> and the \<^verbatim>\<open>mod.rs\<close> files without code only declare modules.
\<close>

text \<open>
  C22. A request of the local API that is in flight when the dispatcher returns keeps the server from
  ending. On a shutdown the dispatcher returns without looking at the messages left in its channel,
  and the API waits for its handlers, which wait for answers: from then on, whatever the tasks do and
  whatever comes in, no request is answered, the API does not return and the server does not return
  without an error, unless the client of the request goes away.
\<close>

theorem open_request_blocks_shutdown:
  assumes "server_start X st w = (Ok s0, w0)" and "sv_run X ls s0 = Some (s, out)"
    and "T_Dispatcher \<in> sv_returned s" and "n \<in> api_flight s"
    and "sv_run X ls' s = Some (s', out')" and "L_ApiGone n \<notin> set ls'"
  shows "sv_result s' \<noteq> Some (Ok ()) \<and> T_Api \<notin> sv_returned s' \<and> n \<in> api_flight s' \<and> (\<forall>k r. O_Reply k r \<notin> set out')"
proof -
  have "orphaned n s"
    using returned.run_inv [OF assms(2)] server_start_returned [OF assms(1)] assms(3,4) by (simp add: orphaned_def list_all_iff)
  from orphan.run_inv [OF assms(5) _ this] assms(6) have "orphaned n s'" "list_all (\<lambda>out. output_reply out = []) out'"
    by (auto simp: list_all_iff)
  with orphaned_blocks [of n s'] show ?thesis by (auto simp: orphaned_def list_all_iff output_reply_def)
qed

theorem open_request_blocks_shutdown_witness:
  "\<exists>s. sv_run sample_ext_server (dispatcher_down_labels @ [L_GatewayShutdown]) sample_half_answered = Some (s, []) \<and>
     sv_result s \<noteq> Some (Ok ()) \<and> T_Api \<notin> sv_returned s \<and> 6 \<in> api_flight s"
proof -
  obtain s where s: "sv_run sample_ext_server dispatcher_down_labels sample_half_answered = Some (s, [])"
    "T_Dispatcher \<in> sv_returned s" "6 \<in> api_flight s" "gateway_ready s"
    using sample_dispatcher_down by blast
  obtain s' where g: "sv_run sample_ext_server [L_GatewayShutdown] s = Some (s', [])" using s(4) by (simp add: sv_step_def)
  have "sv_result s' \<noteq> Some (Ok ()) \<and> T_Api \<notin> sv_returned s' \<and> 6 \<in> api_flight s'"
    using open_request_blocks_shutdown [OF sample_start sv.run_append [OF sample_asked s(1)] s(2,3) g] by simp
  with sv.run_append [OF s(1) g] show ?thesis by simp
qed

text \<open>
  C6. Whatever the server tells a router or the ingest service about the air was on the air: every
  message it sends to a router carries a packet that came in through a UDP event of the run, in a
  well-formed frame with a good checksum that is not a beacon, and verifies under the gateway's own
  key; every witness report it submits carries the payload of such a frame that is a beacon, the
  gateway's public key, and a signature that verifies under it.
\<close>

theorem server_reports_received_frames:
  assumes "channels_ok X" and "verifies V (set_keypair st)"
    and "server_start X st w = (Ok s0, w0)" and "sv_run X ls s0 = Some (s, out)"
  shows "(\<forall>ch m. O_Router ch m \<in> set out \<longrightarrow>
      (\<exists>u rx mac p. L_Udp (UE_PacketReceived rx mac) \<in> set ls \<and> rx_crc rx = CRC_OK \<and>
         Packet_from_rxpk (radio (sx_udp X)) rx = Ok p \<and> \<not> is_potential_beacon p \<and>
         routed_packet (Ev_Routed m) = Some p \<and>
         SCMessage_verify (sc_encode (sx_router X u)) V (kp_public (set_keypair st)) m = Ok ())) \<and>
    (\<forall>u r. O_Ingest (BX_SubmitWitness u r) \<in> set out \<longrightarrow>
      (\<exists>rx mac p h. L_Udp (UE_PacketReceived rx mac) \<in> set ls \<and> rx_crc rx = CRC_OK \<and>
         Packet_from_rxpk (radio (sx_udp X)) rx = Ok p \<and> is_potential_beacon p \<and> rx_data rx = h # wr_data r \<and>
         wr_pub_key r = kp_public (set_keypair st) \<and>
         V (kp_public (set_keypair st)) (bx_encode_witness (sx_beaconer X) (WitnessReport_clear r)) (wr_signature r) = Inr ()))"
proof -
  let ?kp = "set_keypair st"
  define acc where "acc = (\<lambda>beacon p. \<exists>rx mac. L_Udp (UE_PacketReceived rx mac) \<in> set ls \<and>
      Packet_from_rxpk (radio (sx_udp X)) rx = Ok p \<and> is_potential_beacon p = beacon)"
  let ?ups = "{p. acc False p}" and ?bcs = "{p. acc True p}"
  have "list_all (frame_from X ?ups ?bcs) ls"
    by (auto simp: list_all_iff frame_from_def acc_def split: sv_label.splits udp_event.splits)
  from origin.run_inv [OF assms(4) this] server_start_Ok [OF assms(3,1)] assms(1)
  have out: "\<forall>x\<in>set out. output_from X ?kp ?ups ?bcs x" by (auto simp: list_all_iff)
  show ?thesis
  proof (intro conjI allI impI)
    fix ch m
    assume "O_Router ch m \<in> set out"
    from bspec [OF out this] obtain u where "routed_from (sx_router X u) ?kp ?ups m" by (auto simp: output_from_def)
    from routed_verifies [OF this assms(2)] obtain p where "acc False p" "routed_packet (Ev_Routed m) = Some p"
      "SCMessage_verify (sc_encode (sx_router X u)) V (kp_public ?kp) m = Ok ()" by blast
    then show "\<exists>u rx mac p. L_Udp (UE_PacketReceived rx mac) \<in> set ls \<and> rx_crc rx = CRC_OK \<and>
         Packet_from_rxpk (radio (sx_udp X)) rx = Ok p \<and> \<not> is_potential_beacon p \<and>
         routed_packet (Ev_Routed m) = Some p \<and>
         SCMessage_verify (sc_encode (sx_router X u)) V (kp_public ?kp) m = Ok ()"
      unfolding acc_def using Packet_from_rxpk_received by blast
  next
    fix u r
    assume "O_Ingest (BX_SubmitWitness u r) \<in> set out"
    from bspec [OF out this] obtain p r0 where "acc True p" "to_witness_report (bx_radio (sx_beaconer X)) p = Ok r0"
      "signed_witness (sx_beaconer X) ?kp r0 r" by (auto simp: output_from_def bc_effect_from_def)
    with witness_verifies [OF this(2,3) assms(2)]
    show "\<exists>rx mac p h. L_Udp (UE_PacketReceived rx mac) \<in> set ls \<and> rx_crc rx = CRC_OK \<and>
         Packet_from_rxpk (radio (sx_udp X)) rx = Ok p \<and> is_potential_beacon p \<and> rx_data rx = h # wr_data r \<and>
         wr_pub_key r = kp_public ?kp \<and>
         V (kp_public ?kp) (bx_encode_witness (sx_beaconer X) (WitnessReport_clear r)) (wr_signature r) = Inr ()"
      unfolding acc_def using Packet_from_rxpk_received by (metis (no_types, opaque_lifting))
  qed
qed

theorem server_reports_received_frames_witness:
  "\<exists>s r h. sv_run sample_ext_server (connect_labels @ witness_labels) sample_started =
       Some (s, [O_Ingest (BX_SubmitWitness [2] r)]) \<and>
     wr_pub_key r = [7] \<and> rx_data sample_beacon_frame = h # wr_data r"
proof -
  obtain s r where w: "sv_run sample_ext_server witness_labels sample_connected = Some (s, [O_Ingest (BX_SubmitWitness [2] r)])"
    using sample_witnessed by blast
  note run = sv.run_append [OF sample_connect w]
  have "\<exists>rx h mac. L_Udp (UE_PacketReceived rx mac) \<in> set (connect_labels @ witness_labels) \<and>
      rx_data rx = h # wr_data r \<and> wr_pub_key r = kp_public (set_keypair sample_server_settings)"
    using server_reports_received_frames [OF sample_channels_ok _ sample_start run, of sample_verifier]
      sample_verifies by (auto simp: sample_server_settings_def sample_settings_def)
  then have "\<exists>h. rx_data sample_beacon_frame = h # wr_data r" "wr_pub_key r = [7]"
    by (auto simp: connect_labels_def witness_labels_def sample_server_settings_def sample_settings_def sample_keypair_def)
  with run show ?thesis by auto
qed

text \<open>
  C18. The beaconer follows the gateway's region: the region parameters the gateway works with are
  those the beaconer has, or the last of those on their way to it, in order; once nothing is on
  its way the two agree, and both have none until the first has arrived.
\<close>

theorem beaconer_follows_region:
  assumes "channels_ok X" and "beacon_ext_ok (bx_beacon (sx_beaconer X))"
    and "server_start X st w = (Ok s0, w0)" and "sv_run X ls s0 = Some (s, out)"
  shows "(regions_under_way X s \<noteq> [] \<longrightarrow> g_region_params (sv_gateway s) = Some (last (regions_under_way X s))) \<and>
    (regions_under_way X s = [] \<longrightarrow> g_region_params (sv_gateway s) = bc_region_params (sv_beaconer s))"
proof -
  have "regions_agree X s0"
    using server_start_Ok [OF assms(3,1), of "{}" "{}"]
    by (simp add: regions_agree_def regions_under_way_def latest_def map_filter_def Gateway_new_def Beaconer_new_def)
  with region.run_inv [OF assms(4)] assms(1,2) show ?thesis by (simp add: list_all_iff regions_agree_def latest_def)
qed

theorem beaconer_follows_region_witness:
  "g_region_params (sv_gateway sample_connected) = bc_region_params (sv_beaconer sample_connected)"
proof -
  have "beacon_ext_ok (bx_beacon (sx_beaconer sample_ext_server))" using sample_beaconer_ok by (simp add: sample_ext_server_def)
  moreover have "regions_under_way sample_ext_server sample_connected = []"
    by (simp add: regions_under_way_def sample_connected_def sample_started_def sample_ext_server_def list_mpsc_def map_filter_def)
  ultimately show ?thesis
    using beaconer_follows_region [OF sample_channels_ok _ sample_start sample_connect] by blast
qed

text \<open>
  C8. From the air to the routers: while the dispatcher is connected and idle and the channels in
  question are not full, a data or join frame received from the packet forwarder is put, with its
  time of reception, at the end of the channel of every router it is for, and of no other; every
  one of these routers has a client running, because no client is ever stopped by the dispatcher.
\<close>

theorem uplink_reaches_routers:
  assumes "channels_ok X" and "server_start X st w = (Ok s0, w0)" and "sv_run X ls s0 = Some (s, out)"
    and "\<forall>ch. L_Client ch RI_Shutdown \<notin> set ls"
    and "gateway_ready s" and "dispatcher_ready s" and "sv_phase s = Ph_Connected g"
    and "mp_contents (sx_dispatcher_ch X) (dispatcher_q s) = []"
    and "Packet_from_rxpk (radio (sx_udp X)) rx = Ok p" and "\<not> is_potential_beacon p"
    and "dests = (\<lambda>k. the (router_channel (sv_dispatcher s) k)) ` uplink_targets (sx_hash X) (sv_dispatcher s) p"
    and "\<forall>ch\<in>dests. length (mp_contents (sx_client_ch X) (client_q s ch)) < 10"
  shows "\<exists>s'. sv_run X ([L_Udp (UE_PacketReceived rx mac), L_GatewayEffect, L_DispatcherMessage] @
        replicate (card dests) L_DispatcherEffect) s = Some (s', []) \<and>
      (\<forall>ch. mp_contents (sx_client_ch X) (client_q s' ch) = mp_contents (sx_client_ch X) (client_q s ch) @
         (if ch \<in> dests then [RM_Uplink p (fst (udp_now (sx_udp X) (sv_world s)))] else [])) \<and>
      dests \<subseteq> dom (sv_clients s') \<and> gateway_ready s' \<and> dispatcher_ready s'"
proof -
  have q: "queues_within X s"
    using bounded.run_inv [OF assms(3)] server_start_Ok [OF assms(2,1), of "{}" "{}"] assms(1) by (auto simp: list_all_iff)
  have "list_all keeps_clients ls"
    using assms(4) by (auto simp: list_all_iff keeps_clients_def split: sv_label.splits rc_input.splits)
  then have c: "clients_ok X s"
    using clients.run_inv [OF assms(3)] server_start_clients [OF assms(2,1)] assms(1) by blast
  have "\<forall>k\<in>uplink_targets (sx_hash X) (sv_dispatcher s) p.
      \<not> full (sx_client_ch X) (client_q s (the (router_channel (sv_dispatcher s) k)))"
    using assms(11,12) q by (auto simp: full_def queues_within_def fits_def)
  from uplink_delivery [OF assms(1) c q assms(5-10) this] show ?thesis by (simp only: assms(11))
qed

theorem uplink_reaches_routers_witness:
  "\<exists>s' p. sv_run sample_ext_server [L_Udp (UE_PacketReceived sample_data_frame []), L_GatewayEffect, L_DispatcherMessage,
       L_DispatcherEffect] sample_routed = Some (s', []) \<and>
     mp_contents list_mpsc (client_q s' 0) = [RM_Uplink p 12] \<and> 0 \<in> dom (sv_clients s')"
proof -
  obtain p where p: "Packet_from_rxpk (radio sample_udp) sample_data_frame = Ok p" "\<not> is_potential_beacon p"
    and k: "uplink_targets sample_hash (sv_dispatcher sample_routed) p = {sample_key}" by (rule sample_data_packet)
  have s: "gateway_ready sample_routed" "dispatcher_ready sample_routed"
    "sv_phase sample_routed = Ph_Connected \<lparr>gs_uri = \<lparr>ku_uri = [104], ku_pubkey = [1]\<rparr>\<rparr>"
    "mp_contents (sx_dispatcher_ch sample_ext_server) (dispatcher_q sample_routed) = []"
    by (simp_all add: sample_routed_def sample_connected_def sample_started_def gateway_ready_def dispatcher_ready_def
        sample_ext_server_def list_mpsc_def)
  have x: "sx_udp sample_ext_server = sample_udp" "sx_hash sample_ext_server = sample_hash" "sx_client_ch sample_ext_server = list_mpsc"
    by (simp_all add: sample_ext_server_def)
  have c: "client_q sample_routed = (\<lambda>_. (10, []))" "fst (udp_now sample_udp ()) = 12"
    "the (router_channel (sv_dispatcher sample_routed) sample_key) = 0"
    by (simp_all add: sample_routed_def sample_connected_def sample_started_def sample_udp_def router_channel_def sample_entry_def)
  have r: "L_Client ch RI_Shutdown \<notin> set (connect_labels @ routing_labels)" for ch
    by (simp add: connect_labels_def routing_labels_def)
  show ?thesis
    using uplink_reaches_routers [OF sample_channels_ok sample_start sv.run_append [OF sample_connect sample_route] _ s,
        unfolded x, OF _ p refl, unfolded k, of "[]"] r
    by (auto simp: c list_mpsc_def)
qed

text \<open>
  C21. The gateway and the beaconer can block each other. From every state the server reaches in
  which both are idle and the beaconer has a timer and what it needs to make beacons, some order of beacon
  frames received and timer ticks leads to a state where the gateway waits for room in the
  beaconer's channel and the beaconer for room in the gateway's. Nothing ends this: whatever
  happens from then on, neither task handles another input, nothing is transmitted and no report
  is submitted, and the server never returns from a shutdown.
\<close>

theorem server_can_jam:
  assumes "channels_ok X" and "server_start X st w = (Ok s0, w0)" and "sv_run X ls s0 = Some (s, out)"
    and "gateway_ready s" and "beaconer_ready s" and "beaconing (sx_beaconer X) (sv_beaconer s)"
    and "Packet_from_rxpk (radio (sx_udp X)) rx = Ok p" and "is_potential_beacon p"
  shows "\<exists>ls1 s1 out1. sv_run X ls1 s = Some (s1, out1) \<and> jammed X s1 \<and>
    (\<forall>ls2 s2 out2. sv_run X ls2 s1 = Some (s2, out2) \<longrightarrow>
       sv_gateway s2 = sv_gateway s1 \<and> sv_beaconer s2 = sv_beaconer s1 \<and> jammed X s2 \<and>
       \<not> gateway_ready s2 \<and> \<not> beaconer_ready s2 \<and>
       (\<forall>m tx. O_Radio m tx \<notin> set out2) \<and> (\<forall>e. O_Ingest e \<notin> set out2) \<and> sv_result s2 \<noteq> Some (Ok ()))"
proof -
  have "queues_within X s"
    using bounded.run_inv [OF assms(3)] server_start_Ok [OF assms(2,1), of "{}" "{}"] assms(1) by (auto simp: list_all_iff)
  then have "both_idle X (sv_beaconer s) s" using assms(4,5) by (simp add: both_idle_def)
  from jam_reachable [OF assms(1) this assms(6-8)] obtain ls1 s1 out1 where
    j: "sv_run X ls1 s = Some (s1, out1)" "jammed X s1" by blast
  have "sv_gateway s2 = sv_gateway s1 \<and> sv_beaconer s2 = sv_beaconer s1 \<and> jammed X s2 \<and> list_all silent out2"
    if "sv_run X ls2 s1 = Some (s2, out2)" for ls2 s2 out2
    using jam.run_inv [OF that, of "sv_gateway s1" "sv_beaconer s1"] assms(1) j(2) by (simp add: list_all_iff)
  moreover have "\<not> gateway_ready s2 \<and> \<not> beaconer_ready s2 \<and> sv_result s2 \<noteq> Some (Ok ())" if "jammed X s2" for s2
    using that by (auto simp: jammed_def gateway_ready_def beaconer_ready_def)
  moreover have "O_Radio m tx \<notin> set out2 \<and> O_Ingest e \<notin> set out2" if "list_all silent out2" for out2 m tx e
    using that by (auto simp: list_all_iff silent_def)
  ultimately show ?thesis using j by blast
qed

theorem server_can_jam_witness:
  "\<exists>ls1 s1 out1. sv_run sample_ext_server ls1 sample_connected = Some (s1, out1) \<and> jammed sample_ext_server s1"
proof -
  obtain p where p: "Packet_from_rxpk (radio (sx_udp sample_ext_server)) sample_beacon_frame = Ok p" "is_potential_beacon p"
    using sample_beacon_packet by (auto simp: sample_ext_server_def)
  have "gateway_ready sample_connected" "beaconer_ready sample_connected"
    by (simp_all add: gateway_ready_def beaconer_ready_def sample_connected_def sample_started_def)
  from server_can_jam [OF sample_channels_ok sample_start sample_connect this sample_beaconing p] show ?thesis by blast
qed

text \<open>
  C17. In every state the server reaches, the client that reads the channel of a router in the
  dispatcher's map was made for that router: it talks to the address and for the organization of
  the entry's key, signs with the gateway's key pair, and keeps at most as many packets as the
  settings allow.
\<close>

theorem server_clients_match:
  assumes "channels_ok X" and "server_start X st w = (Ok s0, w0)" and "sv_run X ls s0 = Some (s, out)"
    and "(k, e) \<in> set (routers (sv_dispatcher s))" and "sv_clients s (re_dispatch e) = Some c"
  shows "rc_uri c = rk_uri k \<and> rc_oui c = rk_oui k \<and> rc_keypair c = set_keypair st \<and>
    max_packets (rc_store c) = max_packets_setting (set_cache st) \<and>
    waiting_packets_len (rc_store c) \<le> unat (max_packets_setting (set_cache st))"
proof -
  have "clients_serve (max_packets_setting (set_cache st)) s"
    using serve.run_inv [OF assms(3)] server_start_serve [OF assms(2,1)] by (simp add: list_all_iff)
  then have "serves (sv_dispatcher s) (re_dispatch e) c" "cache_max_packets (sv_dispatcher s) = max_packets_setting (set_cache st)"
    using assms(5) by (simp_all add: clients_serve_def)
  moreover have "origin_ok X (set_keypair st) UNIV UNIV s"
    using origin.run_inv [OF assms(3), of UNIV UNIV "set_keypair st"] server_start_Ok [OF assms(2,1), of UNIV UNIV] assms(1)
    by (auto simp: list_all_iff frame_from_def split: sv_label.splits udp_event.splits)
  ultimately show ?thesis
    using assms(4,5) by (auto simp: serves_def store_ok_def client_for_def origin_ok_def client_from_def)
qed

theorem server_clients_match_witness:
  "\<exists>c. sv_clients sample_routed 0 = Some c \<and> rc_uri c = rk_uri sample_key \<and> rc_oui c = rk_oui sample_key"
proof -
  obtain c where c: "sv_clients sample_routed (re_dispatch sample_entry) = Some c"
    by (simp add: sample_routed_def sample_entry_def)
  have "(sample_key, sample_entry) \<in> set (routers (sv_dispatcher sample_routed))" by (simp add: sample_routed_def)
  from server_clients_match [OF sample_channels_ok sample_start sv.run_append [OF sample_connect sample_route] this c] c
  show ?thesis by (simp add: sample_entry_def)
qed

text \<open>
  C19. When and why the program ends. The server command exits with status 0 only in the parent
  process of a daemon, which ends once it has forked, after an interrupt, when the handler for
  interrupts could not be installed, or after standard input was closed when it was told to watch it;
  it exits with
  status 1 only with an error that it prints or logs last, which is one of the settings, of
  binding the UDP address, of the local API's transport, of a download or installation of an
  update, or the lack of any gateway to connect to. Every other command takes no notice of
  interrupts: it ends as it would without them.
\<close>

theorem program_ends:
  assumes "main M cli ls w = Some (status, out, w')"
  shows "(cli_cmd cli = Cmd_Server \<longrightarrow>
      (status = Exited 0 \<longrightarrow>
         (cli_daemon cli \<and> fst (px_daemonize M ''/var/run/helium_gateway.pid'' w) = Daemon_parent \<and> out = []) \<or>
         (\<exists>answer. P_Watch (W_CtrlC answer) \<in> set ls) \<or> (cli_stdin cli \<and> P_Watch (W_Read (Inr 0)) \<in> set ls)) \<and>
      (status = Exited 1 \<longrightarrow>
         (\<exists>e w1 w2. Settings_new (px_settings M) (cli_config cli) w1 = (Err e, w2) \<and>
            out = [PO_Print (Err_out (''Error: '' @ px_debug M e))]) \<or>
         (\<exists>e settings w1 w2. Settings_new (px_settings M) (cli_config cli) w1 = (Ok settings, w2) \<and> last out = PO_Log e \<and>
            ((\<exists>f w3 w4. sx_udp_bind (px_server M) (set_listen settings) w3 = (Inl f, w4) \<and> e = Error_Semtech f) \<or>
             (\<exists>f. P_Move (L_ApiFailed f) \<in> set ls \<and> e = Error_Service (SE_Service f)) \<or>
             (\<exists>u w3 w4. Updater_new (set_update settings) = Ok u \<and> up_enabled u \<and>
                updater_tick (sx_updater (px_server M)) u w3 = Some (Some (Err e), w4)) \<or>
             e = error_custom ''empty uri list'')))) \<and>
    (cli_cmd cli \<noteq> Cmd_Server \<longrightarrow> main M cli [] w = Some (status, out, w'))"
proof (cases "cli_cmd cli = Cmd_Server")
  case True
  have server: "run M cli settings ls w3 = Some (r, o3, w') \<Longrightarrow>
      \<exists>out'. Server_run (px_server M) (cli_stdin cli) ls settings w3 = Some (r, out', w')" for settings w3 r o3
    using True by (auto simp: run_def)
  from assms show ?thesis
  proof (cases rule: main_cases)
    case (4 settings w1 w2 w3)
    with server [of settings w3] Server_run_ends [of "px_server M" "cli_stdin cli" ls settings w3] True
    have "told (cli_stdin cli) (set ls)" by blast
    then have "(\<exists>answer. P_Watch (W_CtrlC answer) \<in> set ls) \<or> (cli_stdin cli \<and> P_Watch (W_Read (Inr 0)) \<in> set ls)"
      by (simp only: told_iff)
    with 4 True show ?thesis by simp
  next
    case (5 settings w1 w2 w3 e out')
    with server [of settings w3] obtain o4 where "Server_run (px_server M) (cli_stdin cli) ls settings w3 = Some (Err e, o4, w')"
      by blast
    from Server_run_ends [OF this] have "(\<exists>f w4. sx_udp_bind (px_server M) (set_listen settings) w3 = (Inl f, w4) \<and> e = Error_Semtech f) \<or>
        (\<exists>f. P_Move (L_ApiFailed f) \<in> set ls \<and> e = Error_Service (SE_Service f)) \<or>
        (\<exists>u w3 w4. Updater_new (set_update settings) = Ok u \<and> up_enabled u \<and>
           updater_tick (sx_updater (px_server M)) u w3 = Some (Some (Err e), w4)) \<or> e = error_custom ''empty uri list''"
      by (auto simp: failure_def)
    with 5 True show ?thesis by simp blast
  qed (use True in \<open>auto simp: daemon_parent_def\<close>)
next
  case False
  then have r: "run M cli settings ls w = run M cli settings [] w" for settings w
    by (simp add: run_def split: Cmd.splits)
  have m: "main_with M cli settings ls w = main_with M cli settings [] w" for settings w
    unfolding main_with_def r by (rule refl)
  have "main M cli ls w = main M cli [] w" unfolding main_def m by (rule refl)
  with assms False show ?thesis by simp
qed

theorem program_ends_witness:
  "\<exists>ls answer. main sample_program sample_cli ls () = Some (Exited 0, [], ()) \<and> P_Watch (W_CtrlC answer) \<in> set ls"
proof -
  let ?p = "\<lparr>pr_triggered = False, pr_server = sample_started\<rparr>"
  have "process_ok sample_ext_server False (sv_updater sample_started) {} ?p"
    using server_start_process [OF sample_start] by blast
  from process_shuts_down [OF this, of "W_CtrlC (Inr ())"] sample_at_rest obtain ms p' where
    "p_run sample_ext_server False (P_Watch (W_CtrlC (Inr ())) # map P_Move ms) ?p = Some (p', [])" "sv_result (pr_server p') = Some (Ok ())"
    by (auto simp: ends_watch_def simp del: p_run.simps)
  from sample_main [OF this] have m: "main sample_program sample_cli (P_Watch (W_CtrlC (Inr ())) # map P_Move ms) () = Some (Exited 0, [], ())" .
  have c: "cli_cmd sample_cli = Cmd_Server" "cli_stdin sample_cli = False" "cli_daemon sample_cli = False"
    by (simp_all add: sample_cli_def)
  show ?thesis using program_ends [OF m] m unfolding c by blast
qed

text \<open>
  C20. An interrupt ends the server, provided the beacon interval, and the update interval if updates
  are enabled, are ones that timers can be made with: from every state the process reaches in which no
  shutdown was triggered yet, no task has an effect of its last input left to carry out and no request
  of the local API is in flight, the event that ends the watch and then the moves by which the tasks
  notice it, and no others, make the server command return without an error.
\<close>

theorem interrupt_ends_server:
  assumes "server_start X settings w = (Ok s0, w0)"
    and "p_run X stdin ls \<lparr>pr_triggered = False, pr_server = s0\<rparr> = Some (p, out)"
    and "\<not> pr_triggered p" and "sv_result (pr_server p) = None" and "beaconer_out (pr_server p) = []"
    and "gateway_out (pr_server p) = []" and "dispatcher_out (pr_server p) = []" and "ends_watch stdin ev"
    and "api_flight (pr_server p) = {}"
    and "0 < poc_beacon_interval (set_poc settings)" and "poc_beacon_interval (set_poc settings) < 2 ^ 62"
    and "us_enabled (set_update settings) \<longrightarrow> us_interval (set_update settings) \<noteq> 0"
  shows "\<exists>ms w'. set ms \<subseteq> shutdown_labels \<and>
    Server_run X stdin (ls @ P_Watch ev # map P_Move ms) settings w = Some (Ok (), out, w')"
proof -
  have "process_ok X stdin (sv_updater s0) (set ls) p"
    using ends.run_inv [OF assms(2), of "set ls"] server_start_process [OF assms(1)] by (simp add: list_all_iff)
  moreover have "timers_run s0" using server_start_timers [OF assms(1)] assms(10-12) by blast
  then have "timers_run (pr_server p)" using timed.run_inv [OF assms(2)] by (simp add: list_all_iff)
  ultimately obtain ms p' where ms: "set ms \<subseteq> shutdown_labels"
    "p_run X stdin (P_Watch ev # map P_Move ms) p = Some (p', [])" "sv_result (pr_server p') = Some (Ok ())"
    using process_shuts_down [OF _ assms(3,8,4-7,9)] by blast
  from process.run_append [OF assms(2) ms(2)] ms(1,3) show ?thesis
    by (intro exI [of _ ms] exI [of _ "sv_world (pr_server p')"]) (simp add: Server_run_def assms(1))
qed

theorem interrupt_ends_server_witness:
  "\<exists>ms w'. Server_run sample_ext_server True (map P_Move connect_labels @ P_Watch (W_Read (Inr 0)) # map P_Move ms)
     sample_server_settings () = Some (Ok (), [], w')"
proof -
  have "list_all (\<lambda>m. \<not> notices m) connect_labels" by (simp add: connect_labels_def notices_def notices_input_def)
  with p_run_moves [of sample_ext_server connect_labels "\<lparr>pr_triggered = False, pr_server = sample_started\<rparr>"] sample_connect
  have r: "p_run sample_ext_server True (map P_Move connect_labels) \<lparr>pr_triggered = False, pr_server = sample_started\<rparr> =
      Some (\<lparr>pr_triggered = False, pr_server = sample_connected\<rparr>, [])" by simp
  have "sv_result sample_connected = None" "beaconer_out sample_connected = []" "gateway_out sample_connected = []"
    "dispatcher_out sample_connected = []" "api_flight sample_connected = {}"
    using sample_at_rest by (simp_all add: sample_connected_def)
  then show ?thesis
    using interrupt_ends_server [OF sample_start r, of "W_Read (Inr 0)"]
    by (auto simp: ends_watch_def sample_server_settings_def sample_settings_def sample_poc_def)
qed

text \<open>
  C7. The server transmits only what it may. Every frame it hands to a packet forwarder goes to the
  default one or to one that has connected, with the power that follows from region parameters that
  a validator streamed in the run or answers with when the server connects to it. The frame is either
  a router's answer, sent in one of the windows of the answer, to a message signed with the gateway's
  key that carries a packet received in the run, or a beacon the gateway made itself from such region
  parameters.
\<close>

theorem radio_outputs_authorized:
  assumes "channels_ok X" and "server_start X st w = (Ok s0, w0)" and "sv_run X ls s0 = Some (s, out)"
    and "O_Radio m tx \<in> set out"
  shows "(m = sx_default_mac X \<or> (\<exists>a. L_Udp (UE_NewClient m a) \<in> set ls)) \<and>
    (\<exists>rp pw. rp \<in> delivered_regions X ls \<and> tx_power (decimals (sx_udp X)) rp = Some pw \<and> powe tx = ucast pw \<and>
       ((\<exists>u msg d. routed_from (sx_router X u) (set_keypair st) (received_uplinks X ls) msg \<and>
           answered (sx_router X u) msg d \<and> tx_data tx = p_payload d \<and> ipol tx \<and>
           (\<exists>t \<in> insert (p_timestamp d) (w_timestamp ` set_option (p_rx2_window d)). tmst tx = Some (SN_N (ucast t)))) \<or>
        (\<exists>rp' re le b. rp' \<in> delivered_regions X ls \<and> Beacon_new (bx_beacon (sx_beaconer X)) re le (params rp') = Ok b \<and>
           tx_data tx = 0xE0 # b_data b \<and> \<not> ipol tx \<and> imme tx)))"
  using run_tx [OF assms] tx_from_frame by (auto simp: known_macs_def)

theorem radio_outputs_authorized_witness:
  "\<exists>s' m rp pw. sv_run sample_ext_server (sample_labels @ answer_labels) sample_started =
       Some (s', [O_Router 0 m, O_Radio (replicate 8 0) sample_tx]) \<and>
     rp \<in> delivered_regions sample_ext_server (sample_labels @ answer_labels) \<and>
     tx_power (decimals sample_udp) rp = Some pw \<and> powe sample_tx = ucast pw"
proof -
  obtain p where "Packet_from_rxpk (radio sample_udp) sample_data_frame = Ok p" by (rule sample_data_packet)
  from sample_answered [OF this] obtain s' m where
    r: "sv_run sample_ext_server (sample_labels @ answer_labels) sample_started =
      Some (s', [O_Router 0 m, O_Radio (replicate 8 0) sample_tx])" by blast
  have x: "sx_udp sample_ext_server = sample_udp" by (simp add: sample_ext_server_def)
  show ?thesis
    using radio_outputs_authorized [OF sample_channels_ok sample_start r, of "replicate 8 0" sample_tx] r
    unfolding x by (metis list.set_intros)
qed



text \<open>
  C9. A router's answer goes on the air. When an uplink is next in the channel of an idle client with
  nothing else to send, its router answers with a downlink whose data rates parse, and the gateway is
  idle and has a region that gives a transmit power, then taking the message and carrying out what
  follows from it, in order, sends the uplink to the router and has the current packet forwarder
  transmit the answer in its first window.
\<close>

theorem router_answer_transmitted:
  assumes "channels_ok X" and "server_start X st w = (Ok s0, w0)" and "sv_run X ls s0 = Some (s, out)"
    and "sv_clients s ch = Some c" and "client_ready ch s" and "waiting_packets (rc_store c) = []"
    and "0 < max_packets (rc_store c)" and "signs (set_keypair st)" and "answers_with (sx_router X (rc_uri c)) d"
    and "mp_contents (sx_client_ch X) (client_q s ch) = RM_Uplink p t # ms"
    and "gateway_ready s" and "mp_contents (sx_gateway_ch X) (gateway_q s) = []"
    and "g_region_params (sv_gateway s) = Some rp" and "tx_power (decimals (sx_udp X)) rp = Some pw"
    and "to_pull_resp (radio (sx_udp X)) d False pw = Ok (Some tx)"
    and "\<forall>rx2. p_rx2_window d = Some rx2 \<longrightarrow> window_datarate_ok (radio (sx_udp X)) (w_datarate rx2)"
  shows "\<exists>s' m. sv_run X [L_ClientMessage ch, L_ClientEffect ch, L_ClientEffect ch, L_GatewayMessage, L_GatewayEffect] s =
      Some (s', [O_Router ch m, O_Radio (g_downlink_mac (sv_gateway s)) tx]) \<and> routed_packet (Ev_Routed m) = Some p"
proof -
  have "queues_within X s"
    using bounded.run_inv [OF assms(3)] server_start_Ok [OF assms(2,1), of "{}" "{}"] assms(1) by (auto simp: list_all_iff)
  moreover have "origin_ok X (set_keypair st) UNIV UNIV s"
    using origin.run_inv [OF assms(3), of UNIV UNIV "set_keypair st"] server_start_Ok [OF assms(2,1), of UNIV UNIV] assms(1)
    by (auto simp: list_all_iff frame_from_def split: sv_label.splits udp_event.splits)
  then have "signs (rc_keypair c)" using assms(4,8) by (auto simp: origin_ok_def client_from_def)
  moreover have "sv_result s = None" "client_out s ch = []" using assms(5) by (simp_all add: client_ready_def)
  ultimately show ?thesis using answer_transmitted [of X s ch c d p t ms rp pw tx] assms by blast
qed

theorem router_answer_transmitted_witness:
  "\<exists>p s' m. sv_run sample_ext_server answer_labels (sample_uplinked p) =
       Some (s', [O_Router 0 m, O_Radio (replicate 8 0) sample_tx]) \<and> routed_packet (Ev_Routed m) = Some p"
proof -
  obtain p where p: "Packet_from_rxpk (radio sample_udp) sample_data_frame = Ok p" by (rule sample_data_packet)
  obtain c where c: "sv_clients (sample_uplinked p) 0 = Some c" "waiting_packets (rc_store c) = []" "0 < max_packets (rc_store c)"
    by (rule sample_uplinked_client)
  have k: "signs (set_keypair sample_server_settings)"
    using sample_answer(5) by (simp add: sample_server_settings_def sample_settings_def)
  show ?thesis
    using router_answer_transmitted [OF sample_channels_ok sample_start sample_run [OF p] c(1) sample_answer_ready(6) c(2,3) k
        sample_answer(4) sample_answer_ready(5,1-3) sample_answer(1,2)] sample_answer(3)
    unfolding answer_labels_def sample_answer_ready(4) by blast
qed

text \<open>
  C16. The requests of the local API are answered in the order in which they reached the dispatcher's
  channel, each once and with an answer of its kind: the answers given so far, followed by the requests
  still open in the dispatcher or its channel, are exactly the requests that were put into the channel.
\<close>

theorem api_replies_in_order:
  assumes "channels_ok X" and "server_start X st w = (Ok s0, w0)" and "sv_run X ls s0 = Some (s, out)"
  shows "concat (map output_reply out) @ requests_open X s = concat (map label_request ls)"
  using api.accounted [OF assms(3,1)] server_start_requests [OF assms(2,1)] by simp

theorem api_replies_in_order_witness:
  "concat (map output_reply [O_Reply 5 (Reply_Region (Ok (Region 0)))]) @
     requests_open sample_ext_server sample_half_answered =
   [(5, RK_Region), (6, RK_Height)]"
  using api_replies_in_order [OF sample_channels_ok sample_start sample_asked]
  by (simp add: connect_labels_def ask_labels_def label_request_def message_request_def)

end
